theory Spec2Isabelle
  imports Complex_Main "HOL-Library.Sublist"
begin

section \<open>Data model: corpus rows as Python dictionaries\<close>

text \<open>
  The scripts load \<^verbatim>\<open>data/MASTER.json\<close> and a diff file with \<^verbatim>\<open>json.load\<close> and work on
  the resulting dictionaries directly. A row (a recipe, an ingredient, an alias or an
  entry) is therefore a finite map from field names to JSON values; a field can be
  absent, which \<^verbatim>\<open>x[key]\<close> answers with \<^verbatim>\<open>KeyError\<close> and \<^verbatim>\<open>x.get(key)\<close> with
  \<^verbatim>\<open>None\<close>. The fields the scripts compare or compute with hold \<^verbatim>\<open>null\<close>, an integer
  (the surrogate ids) or a string, so these are the values of the model; equality of
  values is Python's \<^verbatim>\<open>==\<close> on them.
\<close>

datatype pyval = PNone | PInt int | PStr string

type_synonym row = "string \<rightharpoonup> pyval"

datatype error = KeyError string | TypeError | AttributeError

text \<open>Sequencing of computations that may raise: the first exception ends the run.\<close>

definition ebind :: "error + 'a \<Rightarrow> ('a \<Rightarrow> error + 'b) \<Rightarrow> error + 'b" where
  "ebind m f = (case m of Inl e \<Rightarrow> Inl e | Inr x \<Rightarrow> f x)"

text \<open>\<^verbatim>\<open>x[key]\<close>, \<^verbatim>\<open>x.get(key, d)\<close> and \<^verbatim>\<open>x.get(key)\<close>.\<close>

definition getitem :: "row \<Rightarrow> string \<Rightarrow> error + pyval" where
  "getitem x key = (case x key of None \<Rightarrow> Inl (KeyError key) | Some v \<Rightarrow> Inr v)"

definition dict_get_or :: "row \<Rightarrow> string \<Rightarrow> pyval \<Rightarrow> pyval" where
  "dict_get_or x key d = (case x key of None \<Rightarrow> d | Some v \<Rightarrow> v)"

definition dict_get :: "row \<Rightarrow> string \<Rightarrow> pyval" where
  "dict_get x key = dict_get_or x key PNone"

text \<open>Python's truth value of a field, and \<^verbatim>\<open>v or ""\<close>.\<close>

fun truthy :: "pyval \<Rightarrow> bool" where
  "truthy PNone = False"
| "truthy (PInt i) = (i \<noteq> 0)"
| "truthy (PStr s) = (s \<noteq> [])"

definition or_empty :: "pyval \<Rightarrow> pyval" where
  "or_empty v = (if truthy v then v else PStr [])"

text \<open>
  The corpus file and a diff file hold the same four arrays. The diff is read with
  \<^verbatim>\<open>diff.get(section, [])\<close>, so an absent section is the empty list.
\<close>

record store =
  recipes :: "row list"
  ingredients :: "row list"
  aliases :: "row list"
  entries :: "row list"

section \<open>Identifier allocation (\<^verbatim>\<open>merge_diff.py\<close>)\<close>

text \<open>
  \<^verbatim>\<open>def next_id(arr, key):
    return (max([x.get(key,0) for x in arr]) + 1) if arr else 1\<close>

  \<^verbatim>\<open>max\<close> folds the list from its first element. Comparing an integer with \<^verbatim>\<open>None\<close> or
  a string, and adding 1 to either, raises \<^verbatim>\<open>TypeError\<close>: the call returns only when
  every id that is present is an integer.
\<close>

fun int_values :: "pyval list \<Rightarrow> int list option" where
  "int_values [] = Some []"
| "int_values (PInt i # vs) = map_option ((#) i) (int_values vs)"
| "int_values (v # vs) = None"

fun py_max :: "int list \<Rightarrow> int" where
  "py_max (i # is) = fold max is i"

definition next_id :: "row list \<Rightarrow> string \<Rightarrow> error + int" where
  "next_id arr key =
     (if arr = [] then Inr 1
      else case int_values (map (\<lambda>x. dict_get_or x key (PInt 0)) arr) of
             None \<Rightarrow> Inl TypeError
           | Some ids \<Rightarrow> Inr (py_max ids + 1))"

text \<open>
  The specification's wording of the allocation: one more than the maximum of the
  existing ids, the maximum of no ids being 0, and a row without the id field counting
  as 0.
\<close>

definition id_or_zero :: "string \<Rightarrow> row \<Rightarrow> int" where
  "id_or_zero key x = (case x key of Some (PInt i) \<Rightarrow> i | _ \<Rightarrow> 0)"

definition allocate_id_spec :: "int list \<Rightarrow> int" where
  "allocate_id_spec ids = (if ids = [] then 0 else Max (set ids)) + 1"

definition id_field_ok :: "string \<Rightarrow> row \<Rightarrow> bool" where
  "id_field_ok key x = (case x key of None \<Rightarrow> True | Some (PInt i) \<Rightarrow> True | Some v \<Rightarrow> False)"

section \<open>Slug index (\<^verbatim>\<open>merge_diff.py\<close>, \<^verbatim>\<open>remove_diff.py\<close>)\<close>

text \<open>
  \<^verbatim>\<open>def idx_by(arr, key): return {x[key]: x for x in arr}\<close>

  The comprehension reads \<^verbatim>\<open>x[key]\<close> of every row in order; a later row with the same key
  replaces an earlier one.
\<close>

fun idx_into :: "(pyval \<rightharpoonup> row) \<Rightarrow> row list \<Rightarrow> string \<Rightarrow> error + (pyval \<rightharpoonup> row)" where
  "idx_into m [] key = Inr m"
| "idx_into m (x # xs) key = ebind (getitem x key) (\<lambda>k. idx_into (m(k \<mapsto> x)) xs key)"

definition idx_by :: "row list \<Rightarrow> string \<Rightarrow> error + (pyval \<rightharpoonup> row)" where
  "idx_by arr key = idx_into Map.empty arr key"

section \<open>The removal pass (\<^verbatim>\<open>remove_diff.py\<close>)\<close>

text \<open>
  \<^verbatim>\<open>next((r for r in master["recipes"] if r["recipe_id"] == entry["recipe_id"]), None)\<close>:
  the first row with the same id, or \<^verbatim>\<open>None\<close>. The generator reads both fields at every
  row it visits, so a missing field raises only when a row is visited.
\<close>

fun find_by_id :: "string \<Rightarrow> row list \<Rightarrow> row \<Rightarrow> error + row option" where
  "find_by_id key [] x = Inr None"
| "find_by_id key (r # rs) x =
     ebind (getitem r key) (\<lambda>a.
     ebind (getitem x key) (\<lambda>b.
       if a = b then Inr (Some r) else find_by_id key rs x))"

text \<open>
  The inner loops set \<^verbatim>\<open>should_remove\<close> at the first diff item that matches and break.
\<close>

fun any_raising :: "('a \<Rightarrow> error + bool) \<Rightarrow> 'a list \<Rightarrow> error + bool" where
  "any_raising p [] = Inr False"
| "any_raising p (x # xs) = ebind (p x) (\<lambda>b. if b then Inr True else any_raising p xs)"

text \<open>
  The condition of step 1, with Python's left-to-right \<^verbatim>\<open>and\<close>:
  \<^verbatim>\<open>recipe["slug"] == diff_entry["recipe_slug"] and
  ingredient["slug"] == diff_entry["ingredient_slug"] and
  (entry.get("amount_raw") or "") == (diff_entry.get("amount_raw") or "") and
  (entry.get("preparation") or "") == (diff_entry.get("preparation") or "")\<close>
\<close>

definition entry_matches :: "row \<Rightarrow> row \<Rightarrow> row \<Rightarrow> row \<Rightarrow> error + bool" where
  "entry_matches recipe ingredient entry diff_entry =
     ebind (getitem recipe ''slug'') (\<lambda>rs.
     ebind (getitem diff_entry ''recipe_slug'') (\<lambda>ds.
       if rs \<noteq> ds then Inr False
       else
         ebind (getitem ingredient ''slug'') (\<lambda>is.
         ebind (getitem diff_entry ''ingredient_slug'') (\<lambda>dis.
           if is \<noteq> dis then Inr False
           else Inr (or_empty (dict_get entry ''amount_raw'')
                       = or_empty (dict_get diff_entry ''amount_raw'')
                   \<and> or_empty (dict_get entry ''preparation'')
                       = or_empty (dict_get diff_entry ''preparation''))))))"

text \<open>
  Step 1: an entry whose recipe or ingredient is not found is kept; otherwise it is
  dropped when some diff entry matches it.
\<close>

fun remove_entries :: "row list \<Rightarrow> row list \<Rightarrow> row list \<Rightarrow> row list \<Rightarrow> error + row list" where
  "remove_entries rcps ings diff_entries [] = Inr []"
| "remove_entries rcps ings diff_entries (entry # rest) =
     ebind (find_by_id ''recipe_id'' rcps entry) (\<lambda>recipe.
     ebind (find_by_id ''ingredient_id'' ings entry) (\<lambda>ingredient.
     ebind (case (recipe, ingredient) of
              (Some r, Some i) \<Rightarrow> any_raising (entry_matches r i entry) diff_entries
            | _ \<Rightarrow> Inr False) (\<lambda>should_remove.
     ebind (remove_entries rcps ings diff_entries rest) (\<lambda>kept.
       Inr (if should_remove then kept else entry # kept)))))"

text \<open>
  Step 2, with the condition
  \<^verbatim>\<open>ingredient["slug"] == diff_alias["ingredient_slug"] and
  alias["variant_label"] == diff_alias["variant_label"]\<close>.
\<close>

definition alias_matches :: "row \<Rightarrow> row \<Rightarrow> row \<Rightarrow> error + bool" where
  "alias_matches ingredient alias diff_alias =
     ebind (getitem ingredient ''slug'') (\<lambda>is.
     ebind (getitem diff_alias ''ingredient_slug'') (\<lambda>dis.
       if is \<noteq> dis then Inr False
       else
         ebind (getitem alias ''variant_label'') (\<lambda>v.
         ebind (getitem diff_alias ''variant_label'') (\<lambda>dv. Inr (v = dv)))))"

fun remove_aliases :: "row list \<Rightarrow> row list \<Rightarrow> row list \<Rightarrow> error + row list" where
  "remove_aliases ings diff_aliases [] = Inr []"
| "remove_aliases ings diff_aliases (alias # rest) =
     ebind (find_by_id ''ingredient_id'' ings alias) (\<lambda>ingredient.
     ebind (case ingredient of
              Some i \<Rightarrow> any_raising (alias_matches i alias) diff_aliases
            | None \<Rightarrow> Inr False) (\<lambda>should_remove.
     ebind (remove_aliases ings diff_aliases rest) (\<lambda>kept.
       Inr (if should_remove then kept else alias # kept))))"

text \<open>The ids in use: \<^verbatim>\<open>entry["ingredient_id"]\<close> of every surviving row, in order.\<close>

fun collect_key :: "string \<Rightarrow> row list \<Rightarrow> error + pyval list" where
  "collect_key key [] = Inr []"
| "collect_key key (x # xs) =
     ebind (getitem x key) (\<lambda>v. ebind (collect_key key xs) (\<lambda>vs. Inr (v # vs)))"

text \<open>
  Steps 3 and 4 share their shape: a row is dropped when a diff item has its slug and
  its id is not in use,
  \<^verbatim>\<open>ingredient["slug"] == diff_ingredient["slug"] and
  ingredient["ingredient_id"] not in ingredient_ids_in_use\<close>,
  and the message printed for a dropped row reads its \<^verbatim>\<open>label\<close>.
\<close>

definition named_unused :: "string \<Rightarrow> pyval set \<Rightarrow> row \<Rightarrow> row \<Rightarrow> error + bool" where
  "named_unused idkey in_use x diff_item =
     ebind (getitem x ''slug'') (\<lambda>s.
     ebind (getitem diff_item ''slug'') (\<lambda>ds.
       if s \<noteq> ds then Inr False
       else ebind (getitem x idkey) (\<lambda>i. Inr (i \<notin> in_use))))"

fun sweep :: "string \<Rightarrow> pyval set \<Rightarrow> row list \<Rightarrow> row list \<Rightarrow> error + row list" where
  "sweep idkey in_use diff_items [] = Inr []"
| "sweep idkey in_use diff_items (x # xs) =
     ebind (any_raising (named_unused idkey in_use x) diff_items) (\<lambda>should_remove.
     ebind (if should_remove then getitem x ''label'' else Inr PNone) (\<lambda>printed.
     ebind (sweep idkey in_use diff_items xs) (\<lambda>kept.
       Inr (if should_remove then kept else x # kept))))"

text \<open>
  The whole pass. The two slug indexes built first are not used afterwards, but building
  them reads the \<^verbatim>\<open>slug\<close> of every recipe and ingredient.
\<close>

definition remove_diff :: "store \<Rightarrow> store \<Rightarrow> error + store" where
  "remove_diff master diff =
     ebind (idx_by (recipes master) ''slug'') (\<lambda>recipes_by_slug.
     ebind (idx_by (ingredients master) ''slug'') (\<lambda>ingredients_by_slug.
     ebind (remove_entries (recipes master) (ingredients master) (entries diff)
              (entries master)) (\<lambda>es.
     ebind (remove_aliases (ingredients master) (aliases diff) (aliases master)) (\<lambda>als.
     ebind (collect_key ''ingredient_id'' es) (\<lambda>used_by_entries.
     ebind (collect_key ''ingredient_id'' als) (\<lambda>used_by_aliases.
     ebind (sweep ''ingredient_id'' (set (used_by_entries @ used_by_aliases))
              (ingredients diff) (ingredients master)) (\<lambda>ings.
     ebind (collect_key ''recipe_id'' es) (\<lambda>recipe_ids_in_use.
     ebind (sweep ''recipe_id'' (set recipe_ids_in_use)
              (recipes diff) (recipes master)) (\<lambda>rcps.
       Inr \<lparr>recipes = rcps, ingredients = ings, aliases = als, entries = es\<rparr>)))))))))"

text \<open>
  The fields the pass reads with \<^verbatim>\<open>x[key]\<close>. A corpus and a removal diff whose rows carry
  them make no read fail.
\<close>

definition has_keys :: "string list \<Rightarrow> row \<Rightarrow> bool" where
  "has_keys ks x = list_all (\<lambda>k. x k \<noteq> None) ks"

definition removal_ready :: "store \<Rightarrow> store \<Rightarrow> bool" where
  "removal_ready master diff =
     (list_all (has_keys [''recipe_id'', ''slug'', ''label'']) (recipes master) \<and>
      list_all (has_keys [''ingredient_id'', ''slug'', ''label'']) (ingredients master) \<and>
      list_all (has_keys [''ingredient_id'', ''variant_label'']) (aliases master) \<and>
      list_all (has_keys [''recipe_id'', ''ingredient_id'']) (entries master) \<and>
      list_all (has_keys [''slug'']) (recipes diff) \<and>
      list_all (has_keys [''slug'']) (ingredients diff) \<and>
      list_all (has_keys [''ingredient_slug'', ''variant_label'']) (aliases diff) \<and>
      list_all (has_keys [''recipe_slug'', ''ingredient_slug'']) (entries diff))"

text \<open>A reference resolves when some row of the target set carries the same id.\<close>

definition resolves :: "string \<Rightarrow> row list \<Rightarrow> row \<Rightarrow> bool" where
  "resolves key rows x = (\<exists>r \<in> set rows. x key \<noteq> None \<and> r key = x key)"

text \<open>
  The reading of entry matching that treats \<^verbatim>\<open>null\<close>, a missing field and the empty string
  as the same text and compares everything else exactly; \<open>text_field\<close> says that a
  field, when present, holds \<^verbatim>\<open>null\<close> or a string.
\<close>

definition blank :: "pyval option \<Rightarrow> bool" where
  "blank f = (f = None \<or> f = Some PNone \<or> f = Some (PStr []))"

definition same_text :: "pyval option \<Rightarrow> pyval option \<Rightarrow> bool" where
  "same_text f g = ((blank f \<and> blank g) \<or> f = g)"

definition text_field :: "pyval option \<Rightarrow> bool" where
  "text_field f = (case f of Some (PInt i) \<Rightarrow> False | _ \<Rightarrow> True)"

text \<open>
  A small corpus: recipe \<^verbatim>\<open>kyphi-28\<close> lists honey twice, once with no preparation and once
  strained. The removal diff names the first tuple (leaving \<^verbatim>\<open>preparation\<close> out) and
  asks for the ingredient and the recipe to be deleted.
\<close>

definition honey_plain :: row where
  "honey_plain = [''entry_id'' \<mapsto> PInt 1, ''recipe_id'' \<mapsto> PInt 1, ''ingredient_id'' \<mapsto> PInt 1,
     ''amount_raw'' \<mapsto> PStr ''2 hin'', ''preparation'' \<mapsto> PNone]"

definition honey_strained :: row where
  "honey_strained = [''entry_id'' \<mapsto> PInt 2, ''recipe_id'' \<mapsto> PInt 1, ''ingredient_id'' \<mapsto> PInt 1,
     ''amount_raw'' \<mapsto> PStr ''2 hin'', ''preparation'' \<mapsto> PStr ''strained'']"

definition kyphi_recipe :: row where
  "kyphi_recipe = [''recipe_id'' \<mapsto> PInt 1, ''slug'' \<mapsto> PStr ''kyphi-28'', ''label'' \<mapsto> PStr ''Kyphi'']"

definition honey_ingredient :: row where
  "honey_ingredient = [''ingredient_id'' \<mapsto> PInt 1, ''slug'' \<mapsto> PStr ''honey'', ''label'' \<mapsto> PStr ''Honey'']"

definition kyphi_master :: store where
  "kyphi_master = \<lparr>recipes = [kyphi_recipe], ingredients = [honey_ingredient], aliases = [],
     entries = [honey_plain, honey_strained]\<rparr>"

definition honey_tuple :: row where
  "honey_tuple = [''recipe_slug'' \<mapsto> PStr ''kyphi-28'', ''ingredient_slug'' \<mapsto> PStr ''honey'',
     ''amount_raw'' \<mapsto> PStr ''2 hin'']"

definition kyphi_removal :: store where
  "kyphi_removal = \<lparr>recipes = [[''slug'' \<mapsto> PStr ''kyphi-28'']],
     ingredients = [[''slug'' \<mapsto> PStr ''honey'']], aliases = [],
     entries = [honey_tuple]\<rparr>"

section \<open>Text normalisation (\<^verbatim>\<open>ingredient_db.py\<close>, \<^verbatim>\<open>link_ingredients.py\<close>)\<close>

text \<open>
  A Python string is modelled by the list of its characters, a character being one of
  the code points 0 to 255; a code point from 256 on has no value in the model. On these
  code points the character classes are those of Python: whitespace is what
  \<^verbatim>\<open>str.split\<close>, \<^verbatim>\<open>str.strip\<close> and the pattern \<^verbatim>\<open>\s\<close> take as whitespace (with the
  separators 28 to 31, the next-line character 133 and the no-break space 160), a word
  character of \<^verbatim>\<open>\w\<close> is a letter, a digit or other numeric character, or the underscore
  (so not the multiplication and division signs 215 and 247), and \<^verbatim>\<open>str.lower\<close> maps
  \<open>A\<close> to \<open>Z\<close> and the capital letters 192 to 222 other than 215 to their small
  letters, 32 code points further.
\<close>


definition is_space :: "char \<Rightarrow> bool" where
  "is_space c = (of_char c \<in> {9, 10, 11, 12, 13, 28, 29, 30, 31, 32, 133, 160 :: nat})"

definition is_word :: "char \<Rightarrow> bool" where
  "is_word c =
     (let n = of_char c :: nat
      in (48 \<le> n \<and> n \<le> 57) \<or> (65 \<le> n \<and> n \<le> 90) \<or> n = 95 \<or> (97 \<le> n \<and> n \<le> 122)
         \<or> n = 170 \<or> n = 178 \<or> n = 179 \<or> n = 181 \<or> n = 185 \<or> n = 186
         \<or> (188 \<le> n \<and> n \<le> 190) \<or> (192 \<le> n \<and> n \<le> 214)
         \<or> (216 \<le> n \<and> n \<le> 246) \<or> (248 \<le> n \<and> n \<le> 255))"

definition lower_char :: "char \<Rightarrow> char" where
  "lower_char c =
     (if (65 \<le> (of_char c :: nat) \<and> (of_char c :: nat) \<le> 90)
         \<or> (192 \<le> (of_char c :: nat) \<and> (of_char c :: nat) \<le> 222 \<and> (of_char c :: nat) \<noteq> 215)
      then (case c of Char b0 b1 b2 b3 b4 b5 b6 b7 \<Rightarrow> Char b0 b1 b2 b3 b4 True b6 b7)
      else c)"

definition py_lower :: "string \<Rightarrow> string" where
  "py_lower s = map lower_char s"

definition py_strip :: "string \<Rightarrow> string" where
  "py_strip s = rev (dropWhile is_space (rev (dropWhile is_space s)))"

text \<open>
  \<^verbatim>\<open>text.split()\<close> cuts at runs of whitespace and drops empty pieces;
  \<^verbatim>\<open>' '.join(...)\<close> puts single spaces between the pieces.
\<close>

fun split_from :: "string \<Rightarrow> string \<Rightarrow> string list" where
  "split_from cur [] = (if cur = [] then [] else [cur])"
| "split_from cur (c # cs) =
     (if is_space c then (if cur = [] then split_from [] cs else cur # split_from [] cs)
      else split_from (cur @ [c]) cs)"

definition py_split :: "string \<Rightarrow> string list" where
  "py_split s = split_from [] s"

fun join_space :: "string list \<Rightarrow> string" where
  "join_space [] = []"
| "join_space [w] = w"
| "join_space (w # ws) = w @ CHR '' '' # join_space ws"

text \<open>
  \<^verbatim>\<open>re.sub(r'[^\w\s]', '', text)\<close> deletes every character that is neither a word
  character nor whitespace.
\<close>

definition strip_punct :: "string \<Rightarrow> string" where
  "strip_punct s = filter (\<lambda>c. is_word c \<or> is_space c) s"

text \<open>
  \<^verbatim>\<open>def normalize_for_search(text):
    text = text.lower()
    text = re.sub(r'[^\w\s]', '', text)
    text = ' '.join(text.split())
    return text\<close>
\<close>

definition normalize_for_search :: "string \<Rightarrow> string" where
  "normalize_for_search t = join_space (py_split (strip_punct (py_lower t)))"

text \<open>
  \<^verbatim>\<open>def normalize(text): return re.sub(r'[^\w\s]', '', text.lower().strip())\<close>
  of \<^verbatim>\<open>link_ingredients.py\<close>.
\<close>

definition normalize_text :: "string \<Rightarrow> string" where
  "normalize_text t = strip_punct (py_strip (py_lower t))"

section \<open>The fuzzy matcher (\<^verbatim>\<open>ingredient_db.py\<close>)\<close>

text \<open>
  The score is \<^verbatim>\<open>SequenceMatcher(None, a, b).ratio()\<close> of Python's \<open>difflib\<close>, which is
  not part of the repository: it is the parameter \<open>ratio\<close> of the model. A score is a
  float that the matcher only compares, never computes with; it is modelled by the real
  number it denotes.

  \<^verbatim>\<open>def similarity(a, b):
    return SequenceMatcher(None, normalize_for_search(a), normalize_for_search(b)).ratio()\<close>
\<close>

record match =
  m_type :: string
  m_slug :: pyval
  m_label :: string
  m_language :: pyval
  m_similarity :: real

text \<open>
  A label given to \<^verbatim>\<open>.lower()\<close> has to be a string; anything else raises \<^verbatim>\<open>AttributeError\<close>.
\<close>

definition as_str :: "pyval \<Rightarrow> error + string" where
  "as_str v = (case v of PStr s \<Rightarrow> Inr s | _ \<Rightarrow> Inl AttributeError)"

definition similarity :: "(string \<Rightarrow> string \<Rightarrow> real) \<Rightarrow> string \<Rightarrow> string \<Rightarrow> real" where
  "similarity ratio a b = ratio (normalize_for_search a) (normalize_for_search b)"

text \<open>
  The first loop of \<^verbatim>\<open>find_similar_ingredients\<close>: every ingredient whose label scores
  above the threshold (\<^verbatim>\<open>if sim > threshold\<close>) is appended to \<^verbatim>\<open>matches\<close>.
\<close>

fun label_candidates :: "(string \<Rightarrow> string \<Rightarrow> real) \<Rightarrow> string \<Rightarrow> real \<Rightarrow> row list \<Rightarrow> error + match list" where
  "label_candidates ratio query threshold [] = Inr []"
| "label_candidates ratio query threshold (ingredient # rest) =
     ebind (getitem ingredient ''label'') (\<lambda>lv.
     ebind (as_str lv) (\<lambda>label.
     ebind (if similarity ratio query label > threshold
            then ebind (getitem ingredient ''slug'') (\<lambda>slug.
                   Inr [\<lparr>m_type = ''ingredient'', m_slug = slug, m_label = label,
                         m_language = dict_get_or ingredient ''language'' (PStr ''unknown''),
                         m_similarity = similarity ratio query label\<rparr>])
            else Inr []) (\<lambda>new.
     ebind (label_candidates ratio query threshold rest) (\<lambda>ms. Inr (new @ ms)))))"

text \<open>
  The second loop: every alias whose \<^verbatim>\<open>variant_label\<close> scores above the threshold and
  whose \<^verbatim>\<open>ingredient_id\<close> is in \<^verbatim>\<open>ingredients_by_id\<close> is appended, under the slug of its
  ingredient.
\<close>

fun alias_candidates ::
  "(string \<Rightarrow> string \<Rightarrow> real) \<Rightarrow> (pyval \<rightharpoonup> row) \<Rightarrow> string \<Rightarrow> real \<Rightarrow> row list \<Rightarrow> error + match list" where
  "alias_candidates ratio ingredients_by_id query threshold [] = Inr []"
| "alias_candidates ratio ingredients_by_id query threshold (alias # rest) =
     ebind (getitem alias ''variant_label'') (\<lambda>vv.
     ebind (as_str vv) (\<lambda>variant.
     ebind (if similarity ratio query variant > threshold
            then ebind (getitem alias ''ingredient_id'') (\<lambda>iid.
                   case ingredients_by_id iid of
                     None \<Rightarrow> Inr []
                   | Some ingredient \<Rightarrow>
                       ebind (getitem ingredient ''slug'') (\<lambda>slug.
                       ebind (getitem ingredient ''label'') (\<lambda>lv.
                       ebind (as_str lv) (\<lambda>label.
                         Inr [\<lparr>m_type = ''alias'', m_slug = slug,
                               m_label = label @ '' (alias: '' @ variant @ '')'',
                               m_language = dict_get_or alias ''language'' (PStr ''unknown''),
                               m_similarity = similarity ratio query variant\<rparr>]))))
            else Inr []) (\<lambda>new.
     ebind (alias_candidates ratio ingredients_by_id query threshold rest) (\<lambda>ms.
       Inr (new @ ms)))))"

text \<open>
  The list \<^verbatim>\<open>matches\<close> before sorting: labels first, then aliases, each in corpus order.
\<close>

definition candidates :: "(string \<Rightarrow> string \<Rightarrow> real) \<Rightarrow> store \<Rightarrow> string \<Rightarrow> real \<Rightarrow> error + match list" where
  "candidates ratio master query threshold =
     ebind (idx_by (ingredients master) ''ingredient_id'') (\<lambda>ingredients_by_id.
     ebind (label_candidates ratio query threshold (ingredients master)) (\<lambda>ms1.
     ebind (alias_candidates ratio ingredients_by_id query threshold (aliases master)) (\<lambda>ms2.
       Inr (ms1 @ ms2))))"

text \<open>
  \<^verbatim>\<open>sorted(matches, key=..., reverse=True)\<close>: Python keeps the sort stable under
  \<^verbatim>\<open>reverse=True\<close> by reversing the list, sorting it with its stable ascending sort and
  reversing the result.
\<close>

definition sorted_desc :: "('a \<Rightarrow> 'k::linorder) \<Rightarrow> 'a list \<Rightarrow> 'a list" where
  "sorted_desc key xs = rev (sort_key key (rev xs))"

text \<open>
  The last loop keeps the first match of every slug.
\<close>

fun unique_by_slug :: "pyval set \<Rightarrow> match list \<Rightarrow> match list" where
  "unique_by_slug seen_slugs [] = []"
| "unique_by_slug seen_slugs (m # ms) =
     (if m_slug m \<notin> seen_slugs then m # unique_by_slug (insert (m_slug m) seen_slugs) ms
      else unique_by_slug seen_slugs ms)"

definition find_similar_ingredients ::
  "(string \<Rightarrow> string \<Rightarrow> real) \<Rightarrow> store \<Rightarrow> string \<Rightarrow> real \<Rightarrow> error + match list" where
  "find_similar_ingredients ratio master query threshold =
     ebind (candidates ratio master query threshold) (\<lambda>matches.
       Inr (unique_by_slug {} (sorted_desc m_similarity matches)))"

text \<open>
  The same list written from the corpus, without the loops: the label of an ingredient
  and the variant label of an alias as text, the ingredient that \<^verbatim>\<open>ingredients_by_id\<close> keeps
  for an id (the last one in the corpus that carries it), the match of a label, the
  match of an alias under the slug of its ingredient, and the pool: the label matches of
  the ingredients above the threshold in corpus order, followed by the alias matches of
  the aliases above the threshold in corpus order.
\<close>

definition str_field :: "row \<Rightarrow> string \<Rightarrow> string" where
  "str_field x key = (case x key of Some (PStr s) \<Rightarrow> s | _ \<Rightarrow> [])"

definition owner :: "row list \<Rightarrow> pyval \<Rightarrow> row option" where
  "owner igs k = find (\<lambda>i. i ''ingredient_id'' = Some k) (rev igs)"

definition label_hit :: "(string \<Rightarrow> string \<Rightarrow> real) \<Rightarrow> string \<Rightarrow> row \<Rightarrow> match" where
  "label_hit ratio query i =
     \<lparr>m_type = ''ingredient'', m_slug = dict_get i ''slug'', m_label = str_field i ''label'',
      m_language = dict_get_or i ''language'' (PStr ''unknown''),
      m_similarity = similarity ratio query (str_field i ''label'')\<rparr>"

definition alias_hit :: "(string \<Rightarrow> string \<Rightarrow> real) \<Rightarrow> string \<Rightarrow> row \<Rightarrow> row \<Rightarrow> match" where
  "alias_hit ratio query i a =
     \<lparr>m_type = ''alias'', m_slug = dict_get i ''slug'',
      m_label = str_field i ''label'' @ '' (alias: '' @ str_field a ''variant_label'' @ '')'',
      m_language = dict_get_or a ''language'' (PStr ''unknown''),
      m_similarity = similarity ratio query (str_field a ''variant_label'')\<rparr>"

definition alias_hits ::
  "(string \<Rightarrow> string \<Rightarrow> real) \<Rightarrow> (pyval \<Rightarrow> row option) \<Rightarrow> string \<Rightarrow> row \<Rightarrow> match list" where
  "alias_hits ratio by_id query a =
     (case by_id (dict_get a ''ingredient_id'') of
        None \<Rightarrow> []
      | Some i \<Rightarrow> [alias_hit ratio query i a])"

definition candidate_pool ::
  "(string \<Rightarrow> string \<Rightarrow> real) \<Rightarrow> store \<Rightarrow> string \<Rightarrow> real \<Rightarrow> match list" where
  "candidate_pool ratio master query threshold =
     map (label_hit ratio query)
       (filter (\<lambda>i. threshold < similarity ratio query (str_field i ''label''))
          (ingredients master))
     @ concat (map (alias_hits ratio (owner (ingredients master)) query)
         (filter (\<lambda>a. threshold < similarity ratio query (str_field a ''variant_label''))
            (aliases master)))"

section \<open>Ingestion linking (\<^verbatim>\<open>link_ingredients.py\<close>)\<close>

text \<open>
  \<^verbatim>\<open>find_similar(new_label, existing_ingredients, threshold=0.6)\<close>: the existing
  ingredients whose normalised label scores above the threshold, best first.
\<close>

record suggestion =
  s_slug :: pyval
  s_label :: string
  s_similarity :: real

fun similar_labels :: "(string \<Rightarrow> string \<Rightarrow> real) \<Rightarrow> string \<Rightarrow> real \<Rightarrow> row list \<Rightarrow> error + suggestion list" where
  "similar_labels ratio new_norm threshold [] = Inr []"
| "similar_labels ratio new_norm threshold (existing # rest) =
     ebind (getitem existing ''label'') (\<lambda>lv.
     ebind (as_str lv) (\<lambda>label.
     ebind (if ratio new_norm (normalize_text label) > threshold
            then ebind (getitem existing ''slug'') (\<lambda>slug.
                   Inr [\<lparr>s_slug = slug, s_label = label,
                         s_similarity = ratio new_norm (normalize_text label)\<rparr>])
            else Inr []) (\<lambda>new.
     ebind (similar_labels ratio new_norm threshold rest) (\<lambda>ms. Inr (new @ ms)))))"

definition find_similar ::
  "(string \<Rightarrow> string \<Rightarrow> real) \<Rightarrow> string \<Rightarrow> row list \<Rightarrow> real \<Rightarrow> error + suggestion list" where
  "find_similar ratio new_label existing_ingredients threshold =
     ebind (similar_labels ratio (normalize_text new_label) threshold existing_ingredients) (\<lambda>matches.
       Inr (sorted_desc s_similarity matches))"

text \<open>
  The rows the matcher reads: ids and slugs are present, labels are strings.
\<close>

definition is_str_field :: "row \<Rightarrow> string \<Rightarrow> bool" where
  "is_str_field x key = (case x key of Some (PStr s) \<Rightarrow> True | _ \<Rightarrow> False)"

definition matcher_ready :: "store \<Rightarrow> bool" where
  "matcher_ready master =
     (list_all (\<lambda>i. has_keys [''ingredient_id'', ''slug''] i \<and> is_str_field i ''label'')
        (ingredients master) \<and>
      list_all (\<lambda>a. has_keys [''ingredient_id''] a \<and> is_str_field a ''variant_label'')
        (aliases master))"

text \<open>
  A score function to run the matcher on concrete corpora: twice the length of the
  common prefix over the total length, the formula of \<open>difflib\<close> with the matching
  blocks cut down to the common prefix.
\<close>

fun common_prefix :: "string \<Rightarrow> string \<Rightarrow> nat" where
  "common_prefix (a # as) (b # bs) = (if a = b then Suc (common_prefix as bs) else 0)"
| "common_prefix as bs = 0"

definition prefix_ratio :: "string \<Rightarrow> string \<Rightarrow> real" where
  "prefix_ratio a b =
     (if length a + length b = 0 then 1
      else 2 * real (common_prefix a b) / real (length a + length b))"

text \<open>
  Two small corpora, and the matches and suggestions the searches on them return.
\<close>

definition myrrh_master :: store where
  "myrrh_master =
     \<lparr>recipes = [],
      ingredients =
        [[''ingredient_id'' \<mapsto> PInt 1, ''slug'' \<mapsto> PStr ''myrrh'', ''label'' \<mapsto> PStr ''Myrrh''],
         [''ingredient_id'' \<mapsto> PInt 2, ''slug'' \<mapsto> PStr ''myrtle'', ''label'' \<mapsto> PStr ''Myrtle'']],
      aliases =
        [[''alias_id'' \<mapsto> PInt 1, ''ingredient_id'' \<mapsto> PInt 1,
          ''variant_label'' \<mapsto> PStr ''myrrh resin'', ''language'' \<mapsto> PStr ''en'']],
      entries = []\<rparr>"

definition hit_myrrh :: match where
  "hit_myrrh = \<lparr>m_type = ''ingredient'', m_slug = PStr ''myrrh'', m_label = ''Myrrh'',
     m_language = PStr ''unknown'', m_similarity = 1\<rparr>"

definition hit_myrtle :: match where
  "hit_myrtle = \<lparr>m_type = ''ingredient'', m_slug = PStr ''myrtle'', m_label = ''Myrtle'',
     m_language = PStr ''unknown'', m_similarity = 6 / 11\<rparr>"

definition hit_resin :: match where
  "hit_resin = \<lparr>m_type = ''alias'', m_slug = PStr ''myrrh'',
     m_label = ''Myrrh (alias: myrrh resin)'', m_language = PStr ''en'',
     m_similarity = 5 / 8\<rparr>"

text \<open>
  A corpus in which the alias of an ingredient scores above its label, and two other
  ingredients score alike.
\<close>

definition myrrha_master :: store where
  "myrrha_master =
     \<lparr>recipes = [],
      ingredients =
        [[''ingredient_id'' \<mapsto> PInt 1, ''slug'' \<mapsto> PStr ''myrrh'', ''label'' \<mapsto> PStr ''Myrrha'',
          ''language'' \<mapsto> PStr ''la''],
         [''ingredient_id'' \<mapsto> PInt 2, ''slug'' \<mapsto> PStr ''myrtle'', ''label'' \<mapsto> PStr ''Myrtle''],
         [''ingredient_id'' \<mapsto> PInt 3, ''slug'' \<mapsto> PStr ''myrica'', ''label'' \<mapsto> PStr ''Myrica'']],
      aliases =
        [[''alias_id'' \<mapsto> PInt 1, ''ingredient_id'' \<mapsto> PInt 1,
          ''variant_label'' \<mapsto> PStr ''Myrrh'', ''language'' \<mapsto> PStr ''en'']],
      entries = []\<rparr>"

definition hit_myrrha :: match where
  "hit_myrrha = \<lparr>m_type = ''ingredient'', m_slug = PStr ''myrrh'', m_label = ''Myrrha'',
     m_language = PStr ''la'', m_similarity = 10 / 11\<rparr>"

definition hit_myrica :: match where
  "hit_myrica = \<lparr>m_type = ''ingredient'', m_slug = PStr ''myrica'', m_label = ''Myrica'',
     m_language = PStr ''unknown'', m_similarity = 6 / 11\<rparr>"

definition hit_myrrh_alias :: match where
  "hit_myrrh_alias = \<lparr>m_type = ''alias'', m_slug = PStr ''myrrh'',
     m_label = ''Myrrha (alias: Myrrh)'', m_language = PStr ''en'', m_similarity = 1\<rparr>"

definition nard_master :: store where
  "nard_master =
     \<lparr>recipes = [],
      ingredients =
        [[''ingredient_id'' \<mapsto> PInt 1, ''slug'' \<mapsto> PStr ''nard'', ''label'' \<mapsto> PStr ''Nard''],
         [''ingredient_id'' \<mapsto> PInt 2, ''slug'' \<mapsto> PStr ''nature'', ''label'' \<mapsto> PStr ''Nature''],
         [''ingredient_id'' \<mapsto> PInt 3, ''slug'' \<mapsto> PStr ''narrow'', ''label'' \<mapsto> PStr ''Narrow'']],
      aliases = [], entries = []\<rparr>"

definition hit_nard :: match where
  "hit_nard = \<lparr>m_type = ''ingredient'', m_slug = PStr ''nard'', m_label = ''Nard'',
     m_language = PStr ''unknown'', m_similarity = 1\<rparr>"

definition hit_narrow :: match where
  "hit_narrow = \<lparr>m_type = ''ingredient'', m_slug = PStr ''narrow'', m_label = ''Narrow'',
     m_language = PStr ''unknown'', m_similarity = 3 / 5\<rparr>"

definition link_nard :: suggestion where
  "link_nard = \<lparr>s_slug = PStr ''nard'', s_label = ''Nard'', s_similarity = 1\<rparr>"

section \<open>The merge engine (\<^verbatim>\<open>merge_diff.py\<close>)\<close>

text \<open>
  The lines the merge prints are its report; each kind of line is an event. An event
  carries the values the line formats, so that a field the line reads and the row lacks
  is a \<^verbatim>\<open>KeyError\<close> of the model as it is of the script.
\<close>

datatype event =
    AddedRecipe pyval int
  | SkippedRecipe pyval pyval
  | LabelCollision pyval pyval pyval
  | SkippedIngredient pyval pyval
  | AddedIngredient pyval int
  | UnknownAliasIngredient pyval
  | SkippedAlias pyval pyval
  | AddedAlias pyval pyval int
  | UnknownEntryRecipe pyval
  | UnknownEntryIngredient pyval
  | SkippedDuplicate pyval pyval
  | AddedEntry pyval pyval int

text \<open>
  A \<^verbatim>\<open>for\<close> loop over the items of a diff section: every item updates the loop's state and
  prints its lines; the first exception ends the merge.
\<close>

fun run_items ::
  "('a \<Rightarrow> 's \<Rightarrow> error + ('s \<times> event list)) \<Rightarrow> 'a list \<Rightarrow> 's \<Rightarrow> error + ('s \<times> event list)" where
  "run_items step [] st = Inr (st, [])"
| "run_items step (x # xs) st =
     ebind (step x st) (\<lambda>(st1, ev).
     ebind (run_items step xs st1) (\<lambda>(st2, evs). Inr (st2, ev @ evs)))"

text \<open>
  Step 1, one recipe of the diff. The state is \<^verbatim>\<open>master["recipes"]\<close> and
  \<^verbatim>\<open>recipes_by_slug\<close>. The new row is \<^verbatim>\<open>{"recipe_id": new_id, **r}\<close>: the fields of the diff
  row, over the new id.
\<close>

definition merge_recipe ::
  "row \<Rightarrow> row list \<times> (pyval \<rightharpoonup> row) \<Rightarrow> error + ((row list \<times> (pyval \<rightharpoonup> row)) \<times> event list)" where
  "merge_recipe r st =
     (case st of (rcps, recipes_by_slug) \<Rightarrow>
        ebind (getitem r ''slug'') (\<lambda>slug.
          case recipes_by_slug slug of
            None \<Rightarrow>
              ebind (next_id rcps ''recipe_id'') (\<lambda>new_id.
              ebind (getitem r ''label'') (\<lambda>label.
                Inr ((rcps @ [[''recipe_id'' \<mapsto> PInt new_id] ++ r],
                      recipes_by_slug(slug \<mapsto> [''recipe_id'' \<mapsto> PInt new_id] ++ r)),
                     [AddedRecipe label new_id])))
          | Some existing \<Rightarrow>
              ebind (getitem existing ''recipe_id'') (\<lambda>eid.
                Inr ((rcps, recipes_by_slug), [SkippedRecipe slug eid]))))"

text \<open>
  Step 2, one ingredient of the diff; a known slug with another label prints a warning
  and is skipped all the same.
\<close>

definition merge_ingredient ::
  "row \<Rightarrow> row list \<times> (pyval \<rightharpoonup> row) \<Rightarrow> error + ((row list \<times> (pyval \<rightharpoonup> row)) \<times> event list)" where
  "merge_ingredient ing st =
     (case st of (ings, ingredients_by_slug) \<Rightarrow>
        ebind (getitem ing ''slug'') (\<lambda>slug.
          case ingredients_by_slug slug of
            Some existing \<Rightarrow>
              ebind (getitem existing ''label'') (\<lambda>old_label.
              ebind (getitem ing ''label'') (\<lambda>new_label.
              ebind (getitem existing ''ingredient_id'') (\<lambda>eid.
                Inr ((ings, ingredients_by_slug),
                     (if old_label \<noteq> new_label then [LabelCollision slug old_label new_label]
                      else []) @ [SkippedIngredient slug eid]))))
          | None \<Rightarrow>
              ebind (next_id ings ''ingredient_id'') (\<lambda>new_id.
              ebind (getitem ing ''label'') (\<lambda>label.
                Inr ((ings @ [[''ingredient_id'' \<mapsto> PInt new_id] ++ ing],
                      ingredients_by_slug(slug \<mapsto> [''ingredient_id'' \<mapsto> PInt new_id] ++ ing)),
                     [AddedIngredient label new_id])))))"

text \<open>
  Step 3. \<^verbatim>\<open>seen_alias\<close> starts as the pairs
  \<^verbatim>\<open>(a["ingredient_id"], a["variant_label"])\<close> of the corpus; an alias whose
  \<^verbatim>\<open>ingredient_slug\<close> is not in \<^verbatim>\<open>ingredients_by_slug\<close> is skipped with an error line.
\<close>

fun alias_keys :: "row list \<Rightarrow> error + (pyval \<times> pyval) list" where
  "alias_keys [] = Inr []"
| "alias_keys (a # rest) =
     ebind (getitem a ''ingredient_id'') (\<lambda>iid.
     ebind (getitem a ''variant_label'') (\<lambda>v.
     ebind (alias_keys rest) (\<lambda>ks. Inr ((iid, v) # ks))))"

definition merge_alias ::
  "(pyval \<rightharpoonup> row) \<Rightarrow> row \<Rightarrow> row list \<times> (pyval \<times> pyval) set
     \<Rightarrow> error + ((row list \<times> (pyval \<times> pyval) set) \<times> event list)" where
  "merge_alias ingredients_by_slug a st =
     (case st of (als, seen_alias) \<Rightarrow>
        ebind (getitem a ''ingredient_slug'') (\<lambda>slug.
          case ingredients_by_slug slug of
            None \<Rightarrow> Inr ((als, seen_alias), [UnknownAliasIngredient slug])
          | Some ing \<Rightarrow>
              ebind (getitem ing ''ingredient_id'') (\<lambda>iid.
              ebind (getitem a ''variant_label'') (\<lambda>v.
                if (iid, v) \<in> seen_alias
                then ebind (getitem ing ''slug'') (\<lambda>islug.
                       Inr ((als, seen_alias), [SkippedAlias islug v]))
                else
                  ebind (next_id als ''alias_id'') (\<lambda>new_id.
                  ebind (getitem ing ''slug'') (\<lambda>islug.
                    Inr ((als @ [[''alias_id'' \<mapsto> PInt new_id, ''ingredient_id'' \<mapsto> iid,
                                  ''variant_label'' \<mapsto> v,
                                  ''language'' \<mapsto> dict_get a ''language'',
                                  ''source'' \<mapsto> dict_get a ''source'']],
                          insert (iid, v) seen_alias),
                         [AddedAlias islug v new_id])))))))"

text \<open>
  Step 4. The key of a stored entry and of a diff entry is
  \<^verbatim>\<open>(recipe_id, ingredient_id, e.get("amount_raw",""), e.get("preparation","") or "")\<close>;
  the row that is stored holds \<^verbatim>\<open>e.get("amount_raw")\<close> and \<^verbatim>\<open>e.get("preparation")\<close>, that is
  \<^verbatim>\<open>None\<close> for a field the diff entry lacks.
\<close>

type_synonym entry_key = "pyval \<times> pyval \<times> pyval \<times> pyval"

definition entry_tuple :: "pyval \<Rightarrow> pyval \<Rightarrow> row \<Rightarrow> entry_key" where
  "entry_tuple rid iid e =
     (rid, iid, dict_get_or e ''amount_raw'' (PStr []),
      or_empty (dict_get_or e ''preparation'' (PStr [])))"

fun entry_keys :: "row list \<Rightarrow> error + entry_key list" where
  "entry_keys [] = Inr []"
| "entry_keys (e # rest) =
     ebind (getitem e ''recipe_id'') (\<lambda>rid.
     ebind (getitem e ''ingredient_id'') (\<lambda>iid.
     ebind (entry_keys rest) (\<lambda>ks. Inr (entry_tuple rid iid e # ks))))"

definition new_entry :: "int \<Rightarrow> pyval \<Rightarrow> pyval \<Rightarrow> row \<Rightarrow> string \<Rightarrow> string \<Rightarrow> row" where
  "new_entry new_id rid iid e timestamp added_by =
     [''entry_id'' \<mapsto> PInt new_id, ''recipe_id'' \<mapsto> rid, ''ingredient_id'' \<mapsto> iid,
      ''amount_raw'' \<mapsto> dict_get e ''amount_raw'',
      ''amount_value'' \<mapsto> dict_get e ''amount_value'',
      ''amount_unit'' \<mapsto> dict_get e ''amount_unit'',
      ''preparation'' \<mapsto> dict_get e ''preparation'',
      ''notes'' \<mapsto> dict_get e ''notes'',
      ''source_citation'' \<mapsto> dict_get e ''source_citation'',
      ''source_span'' \<mapsto> dict_get e ''source_span'',
      ''added_at'' \<mapsto> PStr timestamp, ''added_by'' \<mapsto> PStr added_by]"

text \<open>
  One entry of the diff. Both slugs are read first; an unknown recipe, then an unknown
  ingredient, skips the entry with an error line. \<^verbatim>\<open>clock\<close> gives the reading of
  \<^verbatim>\<open>datetime.utcnow().isoformat()\<close> for the n-th entry added by this run.
\<close>

definition merge_entry ::
  "(nat \<Rightarrow> string) \<Rightarrow> string \<Rightarrow> (pyval \<rightharpoonup> row) \<Rightarrow> (pyval \<rightharpoonup> row) \<Rightarrow> row
     \<Rightarrow> row list \<times> entry_key set \<times> nat
     \<Rightarrow> error + ((row list \<times> entry_key set \<times> nat) \<times> event list)" where
  "merge_entry clock added_by recipes_by_slug ingredients_by_slug e st =
     (case st of (ents, seen_entry, added_entries) \<Rightarrow>
        ebind (getitem e ''recipe_slug'') (\<lambda>rslug.
        ebind (getitem e ''ingredient_slug'') (\<lambda>islug.
          case recipes_by_slug rslug of
            None \<Rightarrow> Inr ((ents, seen_entry, added_entries), [UnknownEntryRecipe rslug])
          | Some r \<Rightarrow>
              (case ingredients_by_slug islug of
                 None \<Rightarrow> Inr ((ents, seen_entry, added_entries), [UnknownEntryIngredient islug])
               | Some i \<Rightarrow>
                   ebind (getitem r ''recipe_id'') (\<lambda>rid.
                   ebind (getitem i ''ingredient_id'') (\<lambda>iid.
                     if entry_tuple rid iid e \<in> seen_entry
                     then ebind (getitem r ''slug'') (\<lambda>rs.
                          ebind (getitem i ''slug'') (\<lambda>igs.
                            Inr ((ents, seen_entry, added_entries), [SkippedDuplicate rs igs])))
                     else
                       ebind (next_id ents ''entry_id'') (\<lambda>new_id.
                       ebind (getitem r ''slug'') (\<lambda>rs.
                       ebind (getitem i ''slug'') (\<lambda>igs.
                         Inr ((ents @ [new_entry new_id rid iid e (clock added_entries) added_by],
                               insert (entry_tuple rid iid e) seen_entry,
                               Suc added_entries),
                              [AddedEntry rs igs new_id]))))))))))"

text \<open>
  The merge of a diff into the corpus, and the exit status of the script: its main block
  catches every exception of \<^verbatim>\<open>merge\<close> and exits with 1, and ends normally otherwise.
\<close>

definition merge :: "(nat \<Rightarrow> string) \<Rightarrow> string \<Rightarrow> store \<Rightarrow> store \<Rightarrow> error + (store \<times> event list)" where
  "merge clock added_by master diff =
     ebind (idx_by (recipes master) ''slug'') (\<lambda>recipes_by_slug0.
     ebind (idx_by (ingredients master) ''slug'') (\<lambda>ingredients_by_slug0.
     ebind (run_items merge_recipe (recipes diff) (recipes master, recipes_by_slug0))
       (\<lambda>((rcps, recipes_by_slug), log1).
     ebind (run_items merge_ingredient (ingredients diff) (ingredients master, ingredients_by_slug0))
       (\<lambda>((ings, ingredients_by_slug), log2).
     ebind (alias_keys (aliases master)) (\<lambda>alias_ks.
     ebind (run_items (merge_alias ingredients_by_slug) (aliases diff) (aliases master, set alias_ks))
       (\<lambda>((als, seen_alias), log3).
     ebind (entry_keys (entries master)) (\<lambda>entry_ks.
     ebind (run_items (merge_entry clock added_by recipes_by_slug ingredients_by_slug)
              (entries diff) (entries master, set entry_ks, 0))
       (\<lambda>((ents, seen_entry, added_entries), log4).
       Inr (\<lparr>recipes = rcps, ingredients = ings, aliases = als, entries = ents\<rparr>,
            log1 @ log2 @ log3 @ log4)))))))))"

definition merge_exit :: "(nat \<Rightarrow> string) \<Rightarrow> string \<Rightarrow> store \<Rightarrow> store \<Rightarrow> int" where
  "merge_exit clock added_by master diff =
     (case merge clock added_by master diff of Inl e \<Rightarrow> 1 | Inr r \<Rightarrow> 0)"

text \<open>
  A corpus with one recipe and one ingredient and no entries, and a diff with one entry
  that carries neither \<^verbatim>\<open>amount_raw\<close> nor \<^verbatim>\<open>preparation\<close>.
\<close>

definition bare_master :: store where
  "bare_master = \<lparr>recipes = [kyphi_recipe], ingredients = [honey_ingredient], aliases = [],
     entries = []\<rparr>"

definition bare_entry :: row where
  "bare_entry = [''recipe_slug'' \<mapsto> PStr ''kyphi-28'', ''ingredient_slug'' \<mapsto> PStr ''honey'']"

definition bare_diff :: store where
  "bare_diff = \<lparr>recipes = [], ingredients = [], aliases = [], entries = [bare_entry]\<rparr>"

text \<open>
  The rows a merge reads without raising: the corpus rows carry integer ids, slugs and
  labels, the ids of aliases and entries are integers where present, and the diff rows
  carry the fields that are read with \<^verbatim>\<open>x[key]\<close> (a diff recipe or ingredient may carry
  an id of its own, which \<^verbatim>\<open>**r\<close> then puts over the allocated one).
\<close>

definition is_int_field :: "row \<Rightarrow> string \<Rightarrow> bool" where
  "is_int_field x key = (case x key of Some (PInt i) \<Rightarrow> True | _ \<Rightarrow> False)"

definition merge_ready :: "store \<Rightarrow> store \<Rightarrow> bool" where
  "merge_ready master diff =
     (list_all (\<lambda>x. is_int_field x ''recipe_id'' \<and> has_keys [''slug''] x) (recipes master) \<and>
      list_all (\<lambda>x. is_int_field x ''ingredient_id'' \<and> has_keys [''slug'', ''label''] x)
        (ingredients master) \<and>
      list_all (\<lambda>x. id_field_ok ''alias_id'' x \<and> has_keys [''ingredient_id'', ''variant_label''] x)
        (aliases master) \<and>
      list_all (\<lambda>x. id_field_ok ''entry_id'' x \<and> has_keys [''recipe_id'', ''ingredient_id''] x)
        (entries master) \<and>
      list_all (\<lambda>x. id_field_ok ''recipe_id'' x \<and> has_keys [''slug'', ''label''] x) (recipes diff) \<and>
      list_all (\<lambda>x. id_field_ok ''ingredient_id'' x \<and> has_keys [''slug'', ''label''] x)
        (ingredients diff) \<and>
      list_all (has_keys [''ingredient_slug'', ''variant_label'']) (aliases diff) \<and>
      list_all (has_keys [''recipe_slug'', ''ingredient_slug'']) (entries diff))"

text \<open>
  A diff entry resolves when its two slugs are those of a recipe and of an ingredient of
  the corpus or of the diff.
\<close>

definition slug_known :: "row list \<Rightarrow> pyval \<Rightarrow> bool" where
  "slug_known rows s = list_ex (\<lambda>x. x ''slug'' = Some s) rows"

definition entry_resolves :: "store \<Rightarrow> store \<Rightarrow> row \<Rightarrow> bool" where
  "entry_resolves master diff e =
     (case (e ''recipe_slug'', e ''ingredient_slug'') of
        (Some rs, Some igs) \<Rightarrow>
          slug_known (recipes master @ recipes diff) rs
          \<and> slug_known (ingredients master @ ingredients diff) igs
      | _ \<Rightarrow> False)"

text \<open>
  What the loops of steps 1 and 2 maintain: the rows carry integer ids and slugs (and,
  for ingredients, labels), and the index maps a slug to a row of the list with that
  slug.
\<close>

definition index_ok :: "string \<Rightarrow> row list \<times> (pyval \<rightharpoonup> row) \<Rightarrow> bool" where
  "index_ok idkey st =
     (case st of (rows, by_slug) \<Rightarrow>
        (\<forall>x \<in> set rows. is_int_field x idkey \<and> x ''slug'' \<noteq> None \<and> x ''label'' \<noteq> None)
        \<and> (\<forall>k x. by_slug k = Some x \<longrightarrow> x \<in> set rows \<and> x ''slug'' = Some k))"

definition plain_index_ok :: "string \<Rightarrow> row list \<times> (pyval \<rightharpoonup> row) \<Rightarrow> bool" where
  "plain_index_ok idkey st =
     (case st of (rows, by_slug) \<Rightarrow>
        (\<forall>x \<in> set rows. is_int_field x idkey \<and> x ''slug'' \<noteq> None)
        \<and> (\<forall>k x. by_slug k = Some x \<longrightarrow> x \<in> set rows \<and> x ''slug'' = Some k))"

text \<open>
  A stored row stands for a key of \<^verbatim>\<open>seen_entry\<close> when it carries the two ids and its
  \<^verbatim>\<open>amount_raw\<close> and \<^verbatim>\<open>preparation\<close> agree with the key up to \<^verbatim>\<open>or ""\<close>.
\<close>

definition stored_as :: "entry_key \<Rightarrow> row \<Rightarrow> bool" where
  "stored_as k row =
     (case k of (rid, iid, amount, prep) \<Rightarrow>
        row ''recipe_id'' = Some rid \<and> row ''ingredient_id'' = Some iid
        \<and> or_empty (dict_get row ''amount_raw'') = or_empty amount
        \<and> or_empty (dict_get row ''preparation'') = prep)"

text \<open>
  A diff whose first entry names the ingredient \<^verbatim>\<open>unobtainium\<close>, which neither the
  diff nor the corpus defines, and a clock for the timestamps.
\<close>

definition good_entry :: row where
  "good_entry = [''recipe_slug'' \<mapsto> PStr ''kyphi-28'', ''ingredient_slug'' \<mapsto> PStr ''honey'',
     ''amount_raw'' \<mapsto> PStr ''2 hin'']"

definition lost_entry :: row where
  "lost_entry = [''recipe_slug'' \<mapsto> PStr ''kyphi-28'',
     ''ingredient_slug'' \<mapsto> PStr ''unobtainium'', ''amount_raw'' \<mapsto> PStr ''1 part'']"

definition unobtainium_diff :: store where
  "unobtainium_diff = \<lparr>recipes = [], ingredients = [], aliases = [],
     entries = [lost_entry, good_entry]\<rparr>"

definition noon :: "nat \<Rightarrow> string" where
  "noon n = ''2025-09-02T12:00:00''"

section \<open>The exact clustering strategy (\<^verbatim>\<open>generate_equivalences.py\<close>)\<close>

text \<open>
  \<^verbatim>\<open>english_aliases\<close> is a \<^verbatim>\<open>defaultdict(list)\<close>: a dictionary in insertion order from
  the normalised alias text to the list of the ingredients met under it, each as its
  slug, label and language. A group holds these lists; its \<^verbatim>\<open>languages\<close> come from
  \<^verbatim>\<open>list(set(...))\<close>, whose order Python does not fix, so they are a set here.
\<close>

record member =
  mb_slug :: pyval
  mb_label :: pyval
  mb_language :: pyval

record group =
  canonical_name :: string
  confidence :: string
  g_ingredients :: "pyval list"
  slugs :: "pyval list"
  languages :: "pyval set"
  auto_generated :: bool

text \<open>
  \<^verbatim>\<open>english_aliases[variant].append(...)\<close>: the list of an existing key grows in place, a
  new key goes to the end.
\<close>

fun append_member :: "string \<Rightarrow> member \<Rightarrow> (string \<times> member list) list \<Rightarrow> (string \<times> member list) list" where
  "append_member variant m [] = [(variant, [m])]"
| "append_member variant m ((k, ms) # rest) =
     (if k = variant then (k, ms @ [m]) # rest else (k, ms) # append_member variant m rest)"

text \<open>
  The loop over the aliases: an alias with \<^verbatim>\<open>language == "en"\<close> whose
  \<^verbatim>\<open>ingredient_id\<close> is known is filed under \<^verbatim>\<open>alias["variant_label"].lower().strip()\<close>.
\<close>

fun collect_english ::
  "(pyval \<rightharpoonup> row) \<Rightarrow> row list \<Rightarrow> (string \<times> member list) list
     \<Rightarrow> error + (string \<times> member list) list" where
  "collect_english ingredients_by_id [] english_aliases = Inr english_aliases"
| "collect_english ingredients_by_id (alias # rest) english_aliases =
     (if dict_get alias ''language'' = PStr ''en''
      then
        ebind (getitem alias ''variant_label'') (\<lambda>vv.
        ebind (as_str vv) (\<lambda>v.
        ebind (getitem alias ''ingredient_id'') (\<lambda>iid.
          case ingredients_by_id iid of
            None \<Rightarrow> collect_english ingredients_by_id rest english_aliases
          | Some ingredient \<Rightarrow>
              ebind (getitem ingredient ''slug'') (\<lambda>slug.
              ebind (getitem ingredient ''label'') (\<lambda>label.
                collect_english ingredients_by_id rest
                  (append_member (py_strip (py_lower v))
                     \<lparr>mb_slug = slug, mb_label = label,
                      mb_language = dict_get_or ingredient ''language'' (PStr ''unknown'')\<rparr>
                     english_aliases))))))
      else collect_english ingredients_by_id rest english_aliases)"

text \<open>
  A group is made for every key whose list has more than one element
  (\<^verbatim>\<open>if len(ingredient_list) > 1\<close>); its confidence is high for the four names of the
  fixed list and medium otherwise. The groups are sorted by their size, largest first.
\<close>

definition make_group :: "string \<Rightarrow> member list \<Rightarrow> group" where
  "make_group english_name ingredient_list =
     \<lparr>canonical_name = english_name,
      confidence = (if english_name \<in> set [''myrrh'', ''honey'', ''juniper'', ''cinnamon'']
                    then ''high'' else ''medium''),
      g_ingredients = map mb_label ingredient_list,
      slugs = map mb_slug ingredient_list,
      languages = set (map mb_language ingredient_list),
      auto_generated = True\<rparr>"

definition make_groups :: "(string \<times> member list) list \<Rightarrow> group list" where
  "make_groups english_aliases =
     map (\<lambda>(english_name, ingredient_list). make_group english_name ingredient_list)
       (filter (\<lambda>(english_name, ingredient_list). length ingredient_list > 1) english_aliases)"

definition generate_equivalences :: "store \<Rightarrow> error + group list" where
  "generate_equivalences master =
     ebind (idx_by (ingredients master) ''ingredient_id'') (\<lambda>ingredients_by_id.
     ebind (collect_english ingredients_by_id (aliases master) []) (\<lambda>english_aliases.
       Inr (sorted_desc (\<lambda>g. length (g_ingredients g)) (make_groups english_aliases))))"

text \<open>
  Two corpora: one ingredient with the English aliases \<open>Juniper\<close> and \<open>juniper \<close>
  (with a trailing blank), and two ingredients that both carry the English alias
  \<open>juniper\<close>.
\<close>

definition juniper_berry :: row where
  "juniper_berry = [''ingredient_id'' \<mapsto> PInt 1, ''slug'' \<mapsto> PStr ''juniper-berry'',
     ''label'' \<mapsto> PStr ''arkeuthis'', ''language'' \<mapsto> PStr ''grc'']"

definition juniper_wood :: row where
  "juniper_wood = [''ingredient_id'' \<mapsto> PInt 2, ''slug'' \<mapsto> PStr ''juniper-wood'',
     ''label'' \<mapsto> PStr ''wan'', ''language'' \<mapsto> PStr ''egy'']"

definition en_alias :: "int \<Rightarrow> int \<Rightarrow> string \<Rightarrow> row" where
  "en_alias aid iid v = [''alias_id'' \<mapsto> PInt aid, ''ingredient_id'' \<mapsto> PInt iid,
     ''variant_label'' \<mapsto> PStr v, ''language'' \<mapsto> PStr ''en'']"

definition one_juniper :: store where
  "one_juniper = \<lparr>recipes = [], ingredients = [juniper_berry],
     aliases = [en_alias 1 1 ''Juniper'', en_alias 2 1 ''juniper ''], entries = []\<rparr>"

definition two_junipers :: store where
  "two_junipers = \<lparr>recipes = [], ingredients = [juniper_berry, juniper_wood],
     aliases = [en_alias 1 1 ''juniper'', en_alias 2 2 ''juniper''], entries = []\<rparr>"

section \<open>The validator (\<^verbatim>\<open>validate_diff.py\<close>)\<close>

text \<open>
  A diff file is a JSON object. Each of its four sections is an array of rows when the
  file is as intended, but \<^verbatim>\<open>validate_json_schema\<close> also answers for a section that is
  not an array (\<^verbatim>\<open>isinstance(items, list)\<close>), so a top-level value is either an array of
  rows or a scalar. The schema comes from \<^verbatim>\<open>data/schema_diff.json\<close>; the validator reads
  its top-level \<^verbatim>\<open>required\<close> list and, per section, the \<^verbatim>\<open>required\<close> list of the items.
\<close>

datatype tv = Arr "row list" | Scalar pyval

type_synonym diff_file = "string \<rightharpoonup> tv"

record schema =
  top_required :: "string list"
  item_required :: "string \<Rightarrow> string list"

text \<open>
  The validator appends formatted lines to three lists, \<^verbatim>\<open>errors\<close>, \<^verbatim>\<open>warnings\<close> and
  \<^verbatim>\<open>suggestions\<close>. Each kind of line is a constructor carrying the values the line is
  formatted from: the schema lines of \<^verbatim>\<open>validate_json_schema\<close>, the duplicate and
  reference lines of steps 3 and 4, and the quality lines of step 5.
\<close>

datatype finding =
    MissingTop string
  | NotArray string
  | MissingField string nat string
  | DuplicateRecipeSlugs "pyval list"
  | DuplicateIngredientSlugs "pyval list"
  | BadAliasRefs "pyval set"
  | BadEntryRecipeRefs "pyval set"
  | BadEntryIngredientRefs "pyval set"
  | EmptyAmounts nat
  | ShortLabels "(string \<times> pyval) list"
  | LanguageTags "pyval list"

datatype finding_kind = Structural | Uniqueness | Referential | Quality

fun kind_of :: "finding \<Rightarrow> finding_kind" where
  "kind_of (MissingTop f) = Structural"
| "kind_of (NotArray s) = Structural"
| "kind_of (MissingField s i f) = Structural"
| "kind_of (DuplicateRecipeSlugs d) = Uniqueness"
| "kind_of (DuplicateIngredientSlugs d) = Uniqueness"
| "kind_of (BadAliasRefs r) = Referential"
| "kind_of (BadEntryRecipeRefs r) = Referential"
| "kind_of (BadEntryIngredientRefs r) = Referential"
| "kind_of (EmptyAmounts n) = Quality"
| "kind_of (ShortLabels l) = Quality"
| "kind_of (LanguageTags l) = Quality"

text \<open>
  \<^verbatim>\<open>validate_json_schema\<close>: a missing top-level field, then per section (skipped when
  absent) either \<^verbatim>\<open>must be an array\<close> or, for every item in order and every required
  field in order, \<^verbatim>\<open>if req_field not in item\<close>.
\<close>

definition section_errors :: "diff_file \<Rightarrow> schema \<Rightarrow> string \<Rightarrow> finding list" where
  "section_errors data sch section =
     (case data section of
        None \<Rightarrow> []
      | Some (Scalar v) \<Rightarrow> [NotArray section]
      | Some (Arr items) \<Rightarrow>
          concat (map (\<lambda>(i, item).
                    map (MissingField section i)
                      (filter (\<lambda>req_field. item req_field = None) (item_required sch section)))
                  (enumerate 0 items)))"

definition validate_json_schema :: "diff_file \<Rightarrow> schema \<Rightarrow> finding list" where
  "validate_json_schema data sch =
     map MissingTop (filter (\<lambda>field. data field = None) (top_required sch))
     @ concat (map (section_errors data sch) [''recipes'', ''ingredients'', ''aliases'', ''entries''])"

text \<open>
  \<^verbatim>\<open>data.get("recipes", [])\<close> and its siblings: the content summary takes \<^verbatim>\<open>len\<close> of each
  section, which raises \<^verbatim>\<open>TypeError\<close> on \<^verbatim>\<open>None\<close> and on a number; the loops then iterate
  the section, and the first row access on a character of a non-empty string raises
  \<^verbatim>\<open>TypeError\<close>.
\<close>

definition has_len :: "tv option \<Rightarrow> error + unit" where
  "has_len v =
     (case v of
        None \<Rightarrow> Inr ()
      | Some (Arr items) \<Rightarrow> Inr ()
      | Some (Scalar (PStr s)) \<Rightarrow> Inr ()
      | Some (Scalar w) \<Rightarrow> Inl TypeError)"

definition rows_of :: "tv option \<Rightarrow> error + row list" where
  "rows_of v =
     (case v of
        None \<Rightarrow> Inr []
      | Some (Arr items) \<Rightarrow> Inr items
      | Some (Scalar (PStr [])) \<Rightarrow> Inr []
      | Some (Scalar w) \<Rightarrow> Inl TypeError)"

text \<open>
  \<^verbatim>\<open>[slug for slug, count in Counter(recipe_slugs).items() if count > 1]\<close>: a \<^verbatim>\<open>Counter\<close>
  keeps its keys in the order of their first occurrence.
\<close>

definition dupes :: "pyval list \<Rightarrow> pyval list" where
  "dupes xs = filter (\<lambda>s. count_list xs s > 1) (rev (remdups (rev xs)))"

text \<open>
  The entry loop of step 4 reads \<^verbatim>\<open>entry["recipe_slug"]\<close> and then
  \<^verbatim>\<open>entry["ingredient_slug"]\<close> of every entry.
\<close>

fun entry_refs :: "row list \<Rightarrow> error + (pyval \<times> pyval) list" where
  "entry_refs [] = Inr []"
| "entry_refs (entry # rest) =
     ebind (getitem entry ''recipe_slug'') (\<lambda>rs.
     ebind (getitem entry ''ingredient_slug'') (\<lambda>igs.
     ebind (entry_refs rest) (\<lambda>refs. Inr ((rs, igs) # refs))))"

text \<open>
  Step 5. \<^verbatim>\<open>len(recipe["label"]) < 3\<close> and \<^verbatim>\<open>len(ingredient["label"]) < 2\<close> share their
  shape; a short label is reported by the row's slug. An ingredient is suggested a
  language tag when \<^verbatim>\<open>any(ord(c) > 127 for c in label) and not ingredient.get("language")\<close>.
\<close>

definition py_len :: "pyval \<Rightarrow> error + nat" where
  "py_len v = (case v of PStr s \<Rightarrow> Inr (length s) | _ \<Rightarrow> Inl TypeError)"

fun short_labels :: "nat \<Rightarrow> string \<Rightarrow> row list \<Rightarrow> error + (string \<times> pyval) list" where
  "short_labels least what [] = Inr []"
| "short_labels least what (x # rest) =
     ebind (getitem x ''label'') (\<lambda>label.
     ebind (py_len label) (\<lambda>n.
     ebind (if n < least then ebind (getitem x ''slug'') (\<lambda>slug. Inr [(what, slug)]) else Inr [])
       (\<lambda>new.
     ebind (short_labels least what rest) (\<lambda>more. Inr (new @ more)))))"

definition str_chars :: "pyval \<Rightarrow> error + string" where
  "str_chars v = (case v of PStr s \<Rightarrow> Inr s | _ \<Rightarrow> Inl TypeError)"

fun non_ascii_without_lang :: "row list \<Rightarrow> error + pyval list" where
  "non_ascii_without_lang [] = Inr []"
| "non_ascii_without_lang (ingredient # rest) =
     ebind (getitem ingredient ''label'') (\<lambda>lv.
     ebind (str_chars lv) (\<lambda>label.
     ebind (if list_ex (\<lambda>c. (of_char c :: nat) > 127) label
               \<and> \<not> truthy (dict_get ingredient ''language'')
            then ebind (getitem ingredient ''slug'') (\<lambda>slug. Inr [slug]) else Inr [])
       (\<lambda>new.
     ebind (non_ascii_without_lang rest) (\<lambda>more. Inr (new @ more)))))"

text \<open>
  \<^verbatim>\<open>validate_diff\<close> after the file and the schema are loaded, in the order of the source:
  the schema check, the four \<^verbatim>\<open>len\<close>, the slug lists (\<^verbatim>\<open>r["slug"]\<close>, \<^verbatim>\<open>i["slug"]\<close>), the
  alias and entry references, the quality checks. It returns \<^verbatim>\<open>False\<close> when \<^verbatim>\<open>errors\<close> is
  not empty and \<^verbatim>\<open>True\<close> otherwise. Of the placeholders
  \<^verbatim>\<open>[None, "", "-", "?"]\<close> of the empty-amount check the third is an em dash in the source,
  which no string of 8-bit characters equals, so no value of this model is equal to it.
\<close>

record report =
  ok :: bool
  errors :: "finding list"
  warnings :: "finding list"
  suggestions :: "finding list"

definition validate_diff :: "schema \<Rightarrow> diff_file \<Rightarrow> error + report" where
  "validate_diff sch data =
     ebind (has_len (data ''recipes'')) (\<lambda>u1.
     ebind (has_len (data ''ingredients'')) (\<lambda>u2.
     ebind (has_len (data ''aliases'')) (\<lambda>u3.
     ebind (has_len (data ''entries'')) (\<lambda>u4.
     ebind (rows_of (data ''recipes'')) (\<lambda>rcps.
     ebind (collect_key ''slug'' rcps) (\<lambda>recipe_slugs.
     ebind (rows_of (data ''ingredients'')) (\<lambda>ings.
     ebind (collect_key ''slug'' ings) (\<lambda>ingredient_slugs.
     ebind (rows_of (data ''aliases'')) (\<lambda>als.
     ebind (collect_key ''ingredient_slug'' als) (\<lambda>alias_refs.
     ebind (rows_of (data ''entries'')) (\<lambda>ents.
     ebind (entry_refs ents) (\<lambda>refs.
     ebind (short_labels 3 ''recipe'' rcps) (\<lambda>short_recipes.
     ebind (short_labels 2 ''ingredient'' ings) (\<lambda>short_ingredients.
     ebind (non_ascii_without_lang ings) (\<lambda>untagged.
       let bad_alias_refs = filter (\<lambda>s. s \<notin> set ingredient_slugs) alias_refs;
           bad_entry_recipe_refs = filter (\<lambda>s. s \<notin> set recipe_slugs) (map fst refs);
           bad_entry_ingredient_refs = filter (\<lambda>s. s \<notin> set ingredient_slugs) (map snd refs);
           empty_amounts =
             length (filter (\<lambda>e. dict_get e ''amount_raw'' \<in> {PNone, PStr [], PStr ''?''}) ents);
           errs =
             validate_json_schema data sch
             @ (if dupes recipe_slugs \<noteq> [] then [DuplicateRecipeSlugs (dupes recipe_slugs)] else [])
             @ (if dupes ingredient_slugs \<noteq> []
                then [DuplicateIngredientSlugs (dupes ingredient_slugs)] else [])
             @ (if bad_alias_refs \<noteq> [] then [BadAliasRefs (set bad_alias_refs)] else [])
             @ (if bad_entry_recipe_refs \<noteq> []
                then [BadEntryRecipeRefs (set bad_entry_recipe_refs)] else [])
             @ (if bad_entry_ingredient_refs \<noteq> []
                then [BadEntryIngredientRefs (set bad_entry_ingredient_refs)] else []);
           warns =
             (if empty_amounts > 0 then [EmptyAmounts empty_amounts] else [])
             @ (if short_recipes @ short_ingredients \<noteq> []
                then [ShortLabels (short_recipes @ short_ingredients)] else []);
           suggs = (if untagged \<noteq> [] then [LanguageTags untagged] else [])
       in Inr \<lparr>ok = (errs = []), errors = errs, warnings = warns, suggestions = suggs\<rparr>
     )))))))))))))))"

text \<open>
  The rows on which the validator raises nothing: every section is an array or absent,
  recipes and ingredients carry a slug and a text label, aliases and entries carry the
  slugs they refer to.
\<close>

definition section_rows :: "diff_file \<Rightarrow> string \<Rightarrow> row list" where
  "section_rows data section = (case data section of Some (Arr items) \<Rightarrow> items | _ \<Rightarrow> [])"

definition array_or_absent :: "diff_file \<Rightarrow> string \<Rightarrow> bool" where
  "array_or_absent data section =
     (case data section of None \<Rightarrow> True | Some (Arr items) \<Rightarrow> True | Some (Scalar v) \<Rightarrow> False)"

definition validator_ready :: "diff_file \<Rightarrow> bool" where
  "validator_ready data =
     (list_all (array_or_absent data) [''recipes'', ''ingredients'', ''aliases'', ''entries''] \<and>
      list_all (\<lambda>r. has_keys [''slug''] r \<and> is_str_field r ''label'') (section_rows data ''recipes'') \<and>
      list_all (\<lambda>i. has_keys [''slug''] i \<and> is_str_field i ''label'')
        (section_rows data ''ingredients'') \<and>
      list_all (has_keys [''ingredient_slug'']) (section_rows data ''aliases'') \<and>
      list_all (has_keys [''recipe_slug'', ''ingredient_slug'']) (section_rows data ''entries''))"

definition slugs_of :: "string \<Rightarrow> row list \<Rightarrow> pyval list" where
  "slugs_of key xs = map (\<lambda>x. case x key of Some v \<Rightarrow> v | None \<Rightarrow> PNone) xs"

text \<open>
  A schema that requires slug and label, and two diff files: one whose only recipe has no
  slug, and one whose only findings are of quality (a two-letter recipe label, a
  placeholder amount, a label with a character above 127 and no language).
\<close>

definition slug_label_schema :: schema where
  "slug_label_schema =
     \<lparr>top_required = [''recipes'', ''ingredients'', ''aliases'', ''entries''],
      item_required = (\<lambda>section.
        if section = ''recipes'' \<or> section = ''ingredients'' then [''slug'', ''label'']
        else if section = ''aliases'' then [''ingredient_slug'', ''variant_label'']
        else [''recipe_slug'', ''ingredient_slug''])\<rparr>"

definition nameless_diff :: diff_file where
  "nameless_diff = [''recipes'' \<mapsto> Arr [[''label'' \<mapsto> PStr ''Kyphi'']],
     ''ingredients'' \<mapsto> Arr [], ''aliases'' \<mapsto> Arr [], ''entries'' \<mapsto> Arr []]"

definition hasty_diff :: diff_file where
  "hasty_diff =
     [''recipes'' \<mapsto> Arr [[''slug'' \<mapsto> PStr ''ky'', ''label'' \<mapsto> PStr ''Ky'']],
      ''ingredients'' \<mapsto> Arr [[''slug'' \<mapsto> PStr ''meli'', ''label'' \<mapsto> PStr [CHR 0xB5, CHR ''e'']]],
      ''aliases'' \<mapsto> Arr [],
      ''entries'' \<mapsto> Arr [[''recipe_slug'' \<mapsto> PStr ''ky'', ''ingredient_slug'' \<mapsto> PStr ''meli'',
                             ''amount_raw'' \<mapsto> PStr ''?'']]]"

section \<open>Properties of identifier allocation\<close>

lemma ebind_simps [simp]:
  "ebind (Inl e) f = Inl e"
  "ebind (Inr x) f = f x"
  by (simp_all add: ebind_def)

lemma ebind_eq_Inr:
  "ebind m f = Inr y \<longleftrightarrow> (\<exists>x. m = Inr x \<and> f x = Inr y)"
  by (cases m) simp_all

lemma int_values_ok:
  "list_all (id_field_ok key) arr \<Longrightarrow>
   int_values (map (\<lambda>x. dict_get_or x key (PInt 0)) arr) = Some (map (id_or_zero key) arr)"
proof (induction arr)
  case Nil
  then show ?case by simp
next
  case (Cons x arr)
  then show ?case
    by (auto simp: id_field_ok_def dict_get_or_def id_or_zero_def
        split: option.splits pyval.splits)
qed

lemma py_max_Max: "ids \<noteq> [] \<Longrightarrow> py_max ids = Max (set ids)"
  by (cases ids) (simp_all del: set_simps add: Max.set_eq_fold)

text \<open>
  C6. When every id present in the entity set is an integer, \<^verbatim>\<open>next_id\<close> returns one more
  than the maximum of the existing ids (default 0 for the empty set, a row without the
  id field counting as 0); the result is strictly greater than every id of the set, and
  it is 1 for the empty set.
\<close>

theorem next_id_allocates:
  assumes "list_all (id_field_ok key) arr"
  shows "next_id arr key = Inr (allocate_id_spec (map (id_or_zero key) arr))
       \<and> (\<forall>x \<in> set arr. id_or_zero key x < allocate_id_spec (map (id_or_zero key) arr))
       \<and> next_id [] key = Inr 1"
proof -
  let ?ids = "map (id_or_zero key) arr"
  have ret: "next_id arr key = Inr (allocate_id_spec ?ids)"
  proof (cases "arr = []")
    case True
    then show ?thesis by (simp add: next_id_def allocate_id_spec_def)
  next
    case False
    then have "?ids \<noteq> []" by simp
    then have "py_max ?ids = Max (set ?ids)" by (rule py_max_Max)
    with False int_values_ok [OF assms] show ?thesis
      by (simp add: next_id_def allocate_id_spec_def)
  qed
  have above: "id_or_zero key x < allocate_id_spec ?ids" if "x \<in> set arr" for x
  proof -
    from that have ne: "?ids \<noteq> []" by auto
    from that have "id_or_zero key x \<in> set ?ids" by simp
    then have "id_or_zero key x \<le> Max (set ?ids)" by (intro Max_ge) simp_all
    with ne show ?thesis by (simp add: allocate_id_spec_def)
  qed
  have "next_id [] key = Inr 1" by (simp add: next_id_def)
  with ret above show ?thesis by blast
qed

theorem next_id_allocates_witness:
  "list_all (id_field_ok ''recipe_id'')
     [[''recipe_id'' \<mapsto> PInt 4, ''slug'' \<mapsto> PStr ''kyphi-28''],
      [''slug'' \<mapsto> PStr ''kyphi-29''],
      [''recipe_id'' \<mapsto> PInt 7, ''slug'' \<mapsto> PStr ''kyphi-30'']]
   \<and> next_id
       [[''recipe_id'' \<mapsto> PInt 4, ''slug'' \<mapsto> PStr ''kyphi-28''],
        [''slug'' \<mapsto> PStr ''kyphi-29''],
        [''recipe_id'' \<mapsto> PInt 7, ''slug'' \<mapsto> PStr ''kyphi-30'']] ''recipe_id'' = Inr 8"
proof -
  let ?arr = "[[''recipe_id'' \<mapsto> PInt 4, ''slug'' \<mapsto> PStr ''kyphi-28''],
      [''slug'' \<mapsto> PStr ''kyphi-29''],
      [''recipe_id'' \<mapsto> PInt 7, ''slug'' \<mapsto> PStr ''kyphi-30'']]"
  have h: "list_all (id_field_ok ''recipe_id'') ?arr"
    by (simp add: id_field_ok_def)
  have "allocate_id_spec (map (id_or_zero ''recipe_id'') ?arr) = 8"
    by (simp add: allocate_id_spec_def id_or_zero_def)
  with h next_id_allocates [OF h] show ?thesis by simp
qed

section \<open>Properties of the removal pass\<close>

lemma getitem_eq_Inr [simp]: "getitem x key = Inr v \<longleftrightarrow> x key = Some v"
  by (simp add: getitem_def split: option.splits)

lemma getitem_Some [simp]: "x key = Some v \<Longrightarrow> getitem x key = Inr v"
  by (simp add: getitem_def)

lemma getitem_None [simp]: "x key = None \<Longrightarrow> getitem x key = Inl (KeyError key)"
  by (simp add: getitem_def)

lemma any_raising_Inr:
  "any_raising p xs = Inr b \<Longrightarrow> b = (\<exists>x \<in> set xs. p x = Inr True)"
proof (induction xs)
  case Nil
  then show ?case by simp
next
  case (Cons x xs)
  then show ?case by (auto simp: ebind_eq_Inr split: if_splits)
qed

lemma any_raising_total:
  "\<forall>x \<in> set xs. \<exists>b. p x = Inr b \<Longrightarrow> \<exists>b. any_raising p xs = Inr b"
  by (induction xs) auto

lemma find_by_id_Some:
  "find_by_id key rs x = Inr (Some r) \<Longrightarrow> r \<in> set rs \<and> r key = x key \<and> x key \<noteq> None"
  by (induction rs) (auto simp: ebind_eq_Inr split: if_splits)

lemma find_by_id_total:
  "\<forall>r \<in> set rs. r key \<noteq> None \<Longrightarrow> x key \<noteq> None \<Longrightarrow> \<exists>f. find_by_id key rs x = Inr f"
  by (induction rs) auto

lemma collect_key_Inr:
  "collect_key key xs = Inr vs \<Longrightarrow> set vs = {v. \<exists>x \<in> set xs. x key = Some v}"
proof (induction xs arbitrary: vs)
  case Nil
  then show ?case by simp
next
  case (Cons x xs)
  then show ?case by (auto simp: ebind_eq_Inr)
qed

lemma collect_key_total:
  "\<forall>x \<in> set xs. x key \<noteq> None \<Longrightarrow> \<exists>vs. collect_key key xs = Inr vs"
  by (induction xs) auto

lemma named_unused_True:
  "named_unused idkey U x d = Inr True \<Longrightarrow> \<exists>i. x idkey = Some i \<and> i \<notin> U \<and> x ''slug'' = d ''slug''"
  by (auto simp: named_unused_def ebind_eq_Inr split: if_splits)

lemma sweep_filter:
  "sweep idkey U ds xs = Inr kept \<Longrightarrow>
   kept = filter (\<lambda>x. any_raising (named_unused idkey U x) ds \<noteq> Inr True) xs"
proof (induction xs arbitrary: kept)
  case Nil
  then show ?case by simp
next
  case (Cons x xs)
  then show ?case by (auto simp: ebind_eq_Inr split: if_splits)
qed

lemma sweep_keeps_used:
  assumes "sweep idkey U ds xs = Inr kept" "x \<in> set xs" "x idkey = Some i" "i \<in> U"
  shows "x \<in> set kept"
proof -
  have "any_raising (named_unused idkey U x) ds \<noteq> Inr True"
  proof
    assume "any_raising (named_unused idkey U x) ds = Inr True"
    then obtain d where "named_unused idkey U x d = Inr True"
      by (auto dest: any_raising_Inr)
    with assms(3,4) show False by (auto dest: named_unused_True)
  qed
  with assms(2) show ?thesis unfolding sweep_filter [OF assms(1)] by simp
qed

lemma remove_entries_filter:
  "remove_entries rs ings des es = Inr kept \<Longrightarrow>
   kept = filter (\<lambda>e. \<not> (\<exists>r i. find_by_id ''recipe_id'' rs e = Inr (Some r)
                        \<and> find_by_id ''ingredient_id'' ings e = Inr (Some i)
                        \<and> any_raising (entry_matches r i e) des = Inr True)) es"
proof (induction es arbitrary: kept)
  case Nil
  then show ?case by simp
next
  case (Cons e es)
  then show ?case
    by (auto simp: ebind_eq_Inr split: if_splits option.splits)
qed

lemma remove_aliases_filter:
  "remove_aliases ings das als = Inr kept \<Longrightarrow>
   kept = filter (\<lambda>a. \<not> (\<exists>i. find_by_id ''ingredient_id'' ings a = Inr (Some i)
                        \<and> any_raising (alias_matches i a) das = Inr True)) als"
proof (induction als arbitrary: kept)
  case Nil
  then show ?case by simp
next
  case (Cons a als)
  then show ?case
    by (auto simp: ebind_eq_Inr split: if_splits option.splits)
qed

lemma remove_diff_parts:
  assumes "remove_diff master diff = Inr m'"
  obtains u1 u2 u3 where
    "remove_entries (recipes master) (ingredients master) (entries diff) (entries master) = Inr (entries m')"
    "remove_aliases (ingredients master) (aliases diff) (aliases master) = Inr (aliases m')"
    "collect_key ''ingredient_id'' (entries m') = Inr u1"
    "collect_key ''ingredient_id'' (aliases m') = Inr u2"
    "sweep ''ingredient_id'' (set (u1 @ u2)) (ingredients diff) (ingredients master) = Inr (ingredients m')"
    "collect_key ''recipe_id'' (entries m') = Inr u3"
    "sweep ''recipe_id'' (set u3) (recipes diff) (recipes master) = Inr (recipes m')"
  using assms unfolding remove_diff_def ebind_eq_Inr by fastforce

lemma remove_diff_keeps_used_recipe:
  assumes "remove_diff master diff = Inr m'" "r \<in> set (recipes master)"
    "e \<in> set (entries m')" "e ''recipe_id'' \<noteq> None" "r ''recipe_id'' = e ''recipe_id''"
  shows "r \<in> set (recipes m')"
proof -
  from assms(1) obtain u3 where
    c: "collect_key ''recipe_id'' (entries m') = Inr u3" and
    s: "sweep ''recipe_id'' (set u3) (recipes diff) (recipes master) = Inr (recipes m')"
    by (rule remove_diff_parts)
  from assms(4) obtain v where v: "e ''recipe_id'' = Some v" by auto
  with assms(3) have "v \<in> set u3" unfolding collect_key_Inr [OF c] by auto
  with s assms(2,5) v show ?thesis by (auto intro: sweep_keeps_used)
qed

lemma remove_diff_keeps_used_ingredient:
  assumes "remove_diff master diff = Inr m'" "i \<in> set (ingredients master)"
    "e \<in> set (entries m') \<union> set (aliases m')" "e ''ingredient_id'' \<noteq> None"
    "i ''ingredient_id'' = e ''ingredient_id''"
  shows "i \<in> set (ingredients m')"
proof -
  from assms(1) obtain u1 u2 where
    c1: "collect_key ''ingredient_id'' (entries m') = Inr u1" and
    c2: "collect_key ''ingredient_id'' (aliases m') = Inr u2" and
    s: "sweep ''ingredient_id'' (set (u1 @ u2)) (ingredients diff) (ingredients master)
          = Inr (ingredients m')"
    by (rule remove_diff_parts)
  from assms(4) obtain v where v: "e ''ingredient_id'' = Some v" by auto
  with assms(3) have "v \<in> set (u1 @ u2)"
    unfolding set_append collect_key_Inr [OF c1] collect_key_Inr [OF c2] by auto
  with s assms(2,5) v show ?thesis by (auto intro: sweep_keeps_used)
qed

lemma has_keys_Cons [simp]: "has_keys (k # ks) x \<longleftrightarrow> x k \<noteq> None \<and> has_keys ks x"
  by (simp add: has_keys_def)

lemma has_keys_Nil [simp]: "has_keys [] x"
  by (simp add: has_keys_def)

lemma idx_into_total:
  "\<forall>x \<in> set xs. x key \<noteq> None \<Longrightarrow> \<exists>m'. idx_into m xs key = Inr m'"
  by (induction xs arbitrary: m) auto

lemma idx_by_total:
  "\<forall>x \<in> set xs. x key \<noteq> None \<Longrightarrow> \<exists>m'. idx_by xs key = Inr m'"
  unfolding idx_by_def by (rule idx_into_total)

lemma entry_matches_total:
  assumes "r ''slug'' \<noteq> None" "i ''slug'' \<noteq> None"
    "d ''recipe_slug'' \<noteq> None" "d ''ingredient_slug'' \<noteq> None"
  shows "\<exists>b. entry_matches r i e d = Inr b"
  using assms by (auto simp: entry_matches_def)

lemma alias_matches_total:
  assumes "i ''slug'' \<noteq> None" "a ''variant_label'' \<noteq> None"
    "d ''ingredient_slug'' \<noteq> None" "d ''variant_label'' \<noteq> None"
  shows "\<exists>b. alias_matches i a d = Inr b"
  using assms by (auto simp: alias_matches_def)

lemma named_unused_total:
  assumes "x ''slug'' \<noteq> None" "x idkey \<noteq> None" "d ''slug'' \<noteq> None"
  shows "\<exists>b. named_unused idkey U x d = Inr b"
  using assms by (auto simp: named_unused_def)

lemma remove_entries_total:
  assumes "\<forall>r \<in> set rs. r ''recipe_id'' \<noteq> None \<and> r ''slug'' \<noteq> None"
    "\<forall>i \<in> set ings. i ''ingredient_id'' \<noteq> None \<and> i ''slug'' \<noteq> None"
    "\<forall>d \<in> set des. d ''recipe_slug'' \<noteq> None \<and> d ''ingredient_slug'' \<noteq> None"
    "\<forall>e \<in> set es. e ''recipe_id'' \<noteq> None \<and> e ''ingredient_id'' \<noteq> None"
  shows "\<exists>kept. remove_entries rs ings des es = Inr kept"
  using assms(4)
proof (induction es)
  case Nil
  then show ?case by simp
next
  case (Cons e es)
  then obtain kept where kept: "remove_entries rs ings des es = Inr kept" by auto
  from Cons.prems assms(1) obtain f where f: "find_by_id ''recipe_id'' rs e = Inr f"
    using find_by_id_total [of rs "''recipe_id''" e] by auto
  from Cons.prems assms(2) obtain g where g: "find_by_id ''ingredient_id'' ings e = Inr g"
    using find_by_id_total [of ings "''ingredient_id''" e] by auto
  have "\<exists>b. (case (f, g) of (Some r, Some i) \<Rightarrow> any_raising (entry_matches r i e) des
                | _ \<Rightarrow> Inr False) = Inr b"
  proof (cases f)
    case None
    then show ?thesis by auto
  next
    case (Some r)
    note fr = this
    show ?thesis
    proof (cases g)
      case None
      with fr show ?thesis by auto
    next
      case (Some i)
      from f fr have "r \<in> set rs" by (auto dest: find_by_id_Some)
      moreover from g Some have "i \<in> set ings" by (auto dest: find_by_id_Some)
      ultimately have "\<forall>d \<in> set des. \<exists>b. entry_matches r i e d = Inr b"
        using assms(1,2,3) by (auto intro!: entry_matches_total)
      then have "\<exists>b. any_raising (entry_matches r i e) des = Inr b"
        by (rule any_raising_total)
      with fr Some show ?thesis by simp
    qed
  qed
  then obtain b where "(case (f, g) of (Some r, Some i) \<Rightarrow> any_raising (entry_matches r i e) des
                | _ \<Rightarrow> Inr False) = Inr b" ..
  with f g kept show ?case by simp
qed

lemma remove_aliases_total:
  assumes "\<forall>i \<in> set ings. i ''ingredient_id'' \<noteq> None \<and> i ''slug'' \<noteq> None"
    "\<forall>d \<in> set das. d ''ingredient_slug'' \<noteq> None \<and> d ''variant_label'' \<noteq> None"
    "\<forall>a \<in> set als. a ''ingredient_id'' \<noteq> None \<and> a ''variant_label'' \<noteq> None"
  shows "\<exists>kept. remove_aliases ings das als = Inr kept"
  using assms(3)
proof (induction als)
  case Nil
  then show ?case by simp
next
  case (Cons a als)
  then obtain kept where kept: "remove_aliases ings das als = Inr kept" by auto
  from Cons.prems assms(1) obtain g where g: "find_by_id ''ingredient_id'' ings a = Inr g"
    using find_by_id_total [of ings "''ingredient_id''" a] by auto
  have "\<exists>b. (case g of Some i \<Rightarrow> any_raising (alias_matches i a) das | None \<Rightarrow> Inr False) = Inr b"
  proof (cases g)
    case None
    then show ?thesis by auto
  next
    case (Some i)
    from g Some have "i \<in> set ings" by (auto dest: find_by_id_Some)
    then have "\<forall>d \<in> set das. \<exists>b. alias_matches i a d = Inr b"
      using assms(1,2) Cons.prems by (auto intro!: alias_matches_total)
    then have "\<exists>b. any_raising (alias_matches i a) das = Inr b"
      by (rule any_raising_total)
    with Some show ?thesis by simp
  qed
  then obtain b where
    "(case g of Some i \<Rightarrow> any_raising (alias_matches i a) das | None \<Rightarrow> Inr False) = Inr b" ..
  with g kept show ?case by simp
qed

lemma sweep_total:
  assumes "\<forall>d \<in> set ds. d ''slug'' \<noteq> None"
    "\<forall>x \<in> set xs. x ''slug'' \<noteq> None \<and> x idkey \<noteq> None \<and> x ''label'' \<noteq> None"
  shows "\<exists>kept. sweep idkey U ds xs = Inr kept"
  using assms(2)
proof (induction xs)
  case Nil
  then show ?case by simp
next
  case (Cons x xs)
  then obtain kept where kept: "sweep idkey U ds xs = Inr kept" by auto
  from Cons.prems assms(1) have "\<forall>d \<in> set ds. \<exists>b. named_unused idkey U x d = Inr b"
    by (auto intro!: named_unused_total)
  then obtain b where b: "any_raising (named_unused idkey U x) ds = Inr b"
    using any_raising_total by blast
  from Cons.prems obtain l where "x ''label'' = Some l" by auto
  with b kept show ?case by auto
qed

lemma remove_diff_total:
  assumes "removal_ready master diff"
  shows "\<exists>m'. remove_diff master diff = Inr m'"
proof -
  from assms have
    rs: "\<forall>r \<in> set (recipes master). r ''recipe_id'' \<noteq> None \<and> r ''slug'' \<noteq> None \<and> r ''label'' \<noteq> None" and
    igs: "\<forall>i \<in> set (ingredients master). i ''ingredient_id'' \<noteq> None \<and> i ''slug'' \<noteq> None \<and> i ''label'' \<noteq> None" and
    als: "\<forall>a \<in> set (aliases master). a ''ingredient_id'' \<noteq> None \<and> a ''variant_label'' \<noteq> None" and
    es: "\<forall>e \<in> set (entries master). e ''recipe_id'' \<noteq> None \<and> e ''ingredient_id'' \<noteq> None" and
    drs: "\<forall>d \<in> set (recipes diff). d ''slug'' \<noteq> None" and
    dis: "\<forall>d \<in> set (ingredients diff). d ''slug'' \<noteq> None" and
    das: "\<forall>d \<in> set (aliases diff). d ''ingredient_slug'' \<noteq> None \<and> d ''variant_label'' \<noteq> None" and
    des: "\<forall>d \<in> set (entries diff). d ''recipe_slug'' \<noteq> None \<and> d ''ingredient_slug'' \<noteq> None"
    by (simp_all add: removal_ready_def list_all_iff)
  from rs obtain ix1 where ix1: "idx_by (recipes master) ''slug'' = Inr ix1"
    using idx_by_total [of "recipes master" "''slug''"] by auto
  from igs obtain ix2 where ix2: "idx_by (ingredients master) ''slug'' = Inr ix2"
    using idx_by_total [of "ingredients master" "''slug''"] by auto
  from rs igs des es obtain kes where
    kes: "remove_entries (recipes master) (ingredients master) (entries diff) (entries master) = Inr kes"
    using remove_entries_total [of "recipes master" "ingredients master" "entries diff" "entries master"]
    by auto
  from igs das als obtain kas where
    kas: "remove_aliases (ingredients master) (aliases diff) (aliases master) = Inr kas"
    using remove_aliases_total [of "ingredients master" "aliases diff" "aliases master"] by auto
  have "set kes \<subseteq> set (entries master)"
    unfolding remove_entries_filter [OF kes] by auto
  with es obtain u1 where u1: "collect_key ''ingredient_id'' kes = Inr u1"
    using collect_key_total [of kes "''ingredient_id''"] by auto
  from \<open>set kes \<subseteq> set (entries master)\<close> es obtain u3 where u3: "collect_key ''recipe_id'' kes = Inr u3"
    using collect_key_total [of kes "''recipe_id''"] by auto
  have "set kas \<subseteq> set (aliases master)"
    unfolding remove_aliases_filter [OF kas] by auto
  with als obtain u2 where u2: "collect_key ''ingredient_id'' kas = Inr u2"
    using collect_key_total [of kas "''ingredient_id''"] by auto
  from dis igs obtain ki where
    ki: "sweep ''ingredient_id'' (set (u1 @ u2)) (ingredients diff) (ingredients master) = Inr ki"
    using sweep_total [of "ingredients diff" "ingredients master" "''ingredient_id''"] by blast
  from drs rs obtain kr where
    kr: "sweep ''recipe_id'' (set u3) (recipes diff) (recipes master) = Inr kr"
    using sweep_total [of "recipes diff" "recipes master" "''recipe_id''"] by blast
  from ix1 ix2 kes kas u1 u2 u3 ki kr show ?thesis
    by (simp add: remove_diff_def)
qed

lemma kyphi_removal_result:
  "remove_diff kyphi_master kyphi_removal
     = Inr \<lparr>recipes = [kyphi_recipe], ingredients = [honey_ingredient], aliases = [],
            entries = [honey_strained]\<rparr>"
  by (simp add: remove_diff_def kyphi_master_def kyphi_removal_def idx_by_def
      kyphi_recipe_def honey_ingredient_def honey_plain_def honey_strained_def honey_tuple_def
      entry_matches_def named_unused_def dict_get_def dict_get_or_def or_empty_def)

lemma kyphi_removal_ready: "removal_ready kyphi_master kyphi_removal"
  by (simp add: removal_ready_def kyphi_master_def kyphi_removal_def
      kyphi_recipe_def honey_ingredient_def honey_plain_def honey_strained_def honey_tuple_def)

text \<open>
  C2. When the removal pass completes, every surviving entry whose \<^verbatim>\<open>recipe_id\<close> or
  \<^verbatim>\<open>ingredient_id\<close> resolved in the corpus before the pass still resolves afterwards, and
  so does every surviving alias; the pass deletes no recipe referenced by a surviving
  entry and no ingredient referenced by a surviving entry or alias.
\<close>

theorem remove_diff_integrity:
  assumes "remove_diff master diff = Inr m'"
  shows "(\<forall>e \<in> set (entries m').
            (resolves ''recipe_id'' (recipes master) e \<longrightarrow> resolves ''recipe_id'' (recipes m') e)
          \<and> (resolves ''ingredient_id'' (ingredients master) e
               \<longrightarrow> resolves ''ingredient_id'' (ingredients m') e))
       \<and> (\<forall>a \<in> set (aliases m').
            resolves ''ingredient_id'' (ingredients master) a
              \<longrightarrow> resolves ''ingredient_id'' (ingredients m') a)
       \<and> (\<forall>r \<in> set (recipes master). resolves ''recipe_id'' (entries m') r
              \<longrightarrow> r \<in> set (recipes m'))
       \<and> (\<forall>i \<in> set (ingredients master).
            resolves ''ingredient_id'' (entries m' @ aliases m') i \<longrightarrow> i \<in> set (ingredients m'))"
proof -
  have a: "resolves ''recipe_id'' (recipes m') e"
    if "e \<in> set (entries m')" "resolves ''recipe_id'' (recipes master) e" for e
    using that remove_diff_keeps_used_recipe [OF assms]
    unfolding resolves_def by blast
  have b: "resolves ''ingredient_id'' (ingredients m') e"
    if "e \<in> set (entries m') \<union> set (aliases m')"
       "resolves ''ingredient_id'' (ingredients master) e" for e
    using that remove_diff_keeps_used_ingredient [OF assms]
    unfolding resolves_def by blast
  have c: "r \<in> set (recipes m')"
    if "r \<in> set (recipes master)" "resolves ''recipe_id'' (entries m') r" for r
    using that remove_diff_keeps_used_recipe [OF assms]
    unfolding resolves_def by metis
  have d: "i \<in> set (ingredients m')"
    if "i \<in> set (ingredients master)" "resolves ''ingredient_id'' (entries m' @ aliases m') i" for i
    using that remove_diff_keeps_used_ingredient [OF assms]
    unfolding resolves_def set_append by metis
  from a b c d show ?thesis by blast
qed

theorem remove_diff_integrity_witness:
  "remove_diff kyphi_master kyphi_removal
     = Inr \<lparr>recipes = [kyphi_recipe], ingredients = [honey_ingredient], aliases = [],
            entries = [honey_strained]\<rparr>
   \<and> resolves ''recipe_id'' [kyphi_recipe] honey_strained
   \<and> resolves ''ingredient_id'' [honey_ingredient] honey_strained"
proof -
  have before: "resolves ''recipe_id'' (recipes kyphi_master) honey_strained"
    "resolves ''ingredient_id'' (ingredients kyphi_master) honey_strained"
    by (simp_all add: resolves_def kyphi_master_def kyphi_recipe_def honey_ingredient_def
        honey_strained_def)
  from remove_diff_integrity [OF kyphi_removal_result] before kyphi_removal_result
  show ?thesis by simp
qed

text \<open>
  C3. On a corpus and diff whose rows carry the fields the pass reads, the pass raises
  nothing, and an ingredient named in the diff that a surviving entry or alias still
  references (a recipe named in the diff that a surviving entry still references) is
  in the result; the surviving ingredients and recipes are a sublist of the original
  rows, none of them altered.
\<close>

theorem remove_diff_in_use_noop:
  assumes "removal_ready master diff"
  shows "\<exists>m'. remove_diff master diff = Inr m'
     \<and> (\<forall>x \<in> set (ingredients master).
          (\<exists>d \<in> set (ingredients diff). d ''slug'' = x ''slug'')
          \<and> resolves ''ingredient_id'' (entries m' @ aliases m') x \<longrightarrow> x \<in> set (ingredients m'))
     \<and> (\<forall>x \<in> set (recipes master).
          (\<exists>d \<in> set (recipes diff). d ''slug'' = x ''slug'')
          \<and> resolves ''recipe_id'' (entries m') x \<longrightarrow> x \<in> set (recipes m'))
     \<and> (\<exists>P. ingredients m' = filter P (ingredients master))
     \<and> (\<exists>P. recipes m' = filter P (recipes master))"
proof -
  from remove_diff_total [OF assms] obtain m' where m': "remove_diff master diff = Inr m'" ..
  have a: "x \<in> set (ingredients m')"
    if "x \<in> set (ingredients master)" "resolves ''ingredient_id'' (entries m' @ aliases m') x" for x
    using that remove_diff_keeps_used_ingredient [OF m']
    unfolding resolves_def set_append by metis
  have b: "x \<in> set (recipes m')"
    if "x \<in> set (recipes master)" "resolves ''recipe_id'' (entries m') x" for x
    using that remove_diff_keeps_used_recipe [OF m']
    unfolding resolves_def by metis
  from m' obtain u1 u2 u3 where
    "sweep ''ingredient_id'' (set (u1 @ u2)) (ingredients diff) (ingredients master) = Inr (ingredients m')"
    "sweep ''recipe_id'' (set u3) (recipes diff) (recipes master) = Inr (recipes m')"
    by (rule remove_diff_parts)
  then have c: "\<exists>P. ingredients m' = filter P (ingredients master)"
    and d: "\<exists>P. recipes m' = filter P (recipes master)"
    by (blast dest: sweep_filter)+
  from m' a b c d show ?thesis by blast
qed

theorem remove_diff_in_use_noop_witness:
  "removal_ready kyphi_master kyphi_removal
   \<and> (\<exists>m'. remove_diff kyphi_master kyphi_removal = Inr m'
         \<and> honey_ingredient \<in> set (ingredients m') \<and> kyphi_recipe \<in> set (recipes m'))"
proof -
  from remove_diff_in_use_noop [OF kyphi_removal_ready] obtain m' where
    m': "remove_diff kyphi_master kyphi_removal = Inr m'" and
    i: "\<forall>x \<in> set (ingredients kyphi_master).
          (\<exists>d \<in> set (ingredients kyphi_removal). d ''slug'' = x ''slug'')
          \<and> resolves ''ingredient_id'' (entries m' @ aliases m') x \<longrightarrow> x \<in> set (ingredients m')" and
    r: "\<forall>x \<in> set (recipes kyphi_master).
          (\<exists>d \<in> set (recipes kyphi_removal). d ''slug'' = x ''slug'')
          \<and> resolves ''recipe_id'' (entries m') x \<longrightarrow> x \<in> set (recipes m')"
    by blast
  from m' kyphi_removal_result have es: "entries m' = [honey_strained]" "aliases m' = []"
    by auto
  have "resolves ''ingredient_id'' (entries m' @ aliases m') honey_ingredient"
    "resolves ''recipe_id'' (entries m') kyphi_recipe"
    by (simp_all add: es resolves_def honey_ingredient_def honey_strained_def kyphi_recipe_def)
  moreover have "\<exists>d \<in> set (ingredients kyphi_removal). d ''slug'' = honey_ingredient ''slug''"
    "\<exists>d \<in> set (recipes kyphi_removal). d ''slug'' = kyphi_recipe ''slug''"
    by (simp_all add: kyphi_removal_def honey_ingredient_def kyphi_recipe_def)
  moreover have "honey_ingredient \<in> set (ingredients kyphi_master)"
    "kyphi_recipe \<in> set (recipes kyphi_master)"
    by (simp_all add: kyphi_master_def)
  ultimately have "honey_ingredient \<in> set (ingredients m')" "kyphi_recipe \<in> set (recipes m')"
    using i r by blast+
  with m' kyphi_removal_ready show ?thesis by blast
qed

lemma or_empty_same_text:
  "text_field (x k) \<Longrightarrow> text_field (y k) \<Longrightarrow>
   (or_empty (dict_get x k) = or_empty (dict_get y k)) = same_text (x k) (y k)"
  by (auto simp: text_field_def same_text_def blank_def or_empty_def dict_get_def dict_get_or_def
      split: option.splits pyval.splits)

lemma remove_entries_step:
  "remove_entries rs ings des es = Inr kept \<Longrightarrow> e \<in> set es \<Longrightarrow>
   find_by_id ''recipe_id'' rs e = Inr (Some r) \<Longrightarrow>
   find_by_id ''ingredient_id'' ings e = Inr (Some i) \<Longrightarrow>
   \<exists>b. any_raising (entry_matches r i e) des = Inr b"
proof (induction es arbitrary: kept)
  case Nil
  then show ?case by simp
next
  case (Cons a es)
  then show ?case by (auto simp: ebind_eq_Inr)
qed

text \<open>
  C9. Entry matching compares the two slugs exactly and \<^verbatim>\<open>amount_raw\<close> and
  \<^verbatim>\<open>preparation\<close> up to identifying \<^verbatim>\<open>null\<close>, a missing field and the empty string, on
  the stored side and on the diff side; a stored entry that a diff tuple matches in
  this sense does not survive the pass.
\<close>

theorem entry_matching_coalesces:
  assumes fields: "text_field (entry ''amount_raw'')" "text_field (diff_entry ''amount_raw'')"
      "text_field (entry ''preparation'')" "text_field (diff_entry ''preparation'')"
    and keys: "recipe ''slug'' = Some rs" "ingredient ''slug'' = Some igs"
      "diff_entry ''recipe_slug'' = Some ds" "diff_entry ''ingredient_slug'' = Some dis"
  shows "entry_matches recipe ingredient entry diff_entry
           = Inr (rs = ds \<and> igs = dis
                \<and> same_text (entry ''amount_raw'') (diff_entry ''amount_raw'')
                \<and> same_text (entry ''preparation'') (diff_entry ''preparation''))
       \<and> (\<forall>master diff m'.
            remove_diff master diff = Inr m'
            \<and> find_by_id ''recipe_id'' (recipes master) entry = Inr (Some recipe)
            \<and> find_by_id ''ingredient_id'' (ingredients master) entry = Inr (Some ingredient)
            \<and> diff_entry \<in> set (entries diff)
            \<and> rs = ds \<and> igs = dis
            \<and> same_text (entry ''amount_raw'') (diff_entry ''amount_raw'')
            \<and> same_text (entry ''preparation'') (diff_entry ''preparation'')
            \<longrightarrow> entry \<notin> set (entries m'))"
proof -
  have m: "entry_matches recipe ingredient entry diff_entry
           = Inr (rs = ds \<and> igs = dis
                \<and> same_text (entry ''amount_raw'') (diff_entry ''amount_raw'')
                \<and> same_text (entry ''preparation'') (diff_entry ''preparation''))"
    using keys by (simp add: entry_matches_def or_empty_same_text fields)
  have p: "entry \<notin> set (entries m')"
    if run: "remove_diff master diff = Inr m'"
      and fr: "find_by_id ''recipe_id'' (recipes master) entry = Inr (Some recipe)"
      and fi: "find_by_id ''ingredient_id'' (ingredients master) entry = Inr (Some ingredient)"
      and d: "diff_entry \<in> set (entries diff)"
      and eq: "rs = ds" "igs = dis"
        "same_text (entry ''amount_raw'') (diff_entry ''amount_raw'')"
        "same_text (entry ''preparation'') (diff_entry ''preparation'')"
    for master diff m'
  proof
    assume surv: "entry \<in> set (entries m')"
    from run have re: "remove_entries (recipes master) (ingredients master) (entries diff)
        (entries master) = Inr (entries m')"
      by (rule remove_diff_parts)
    from surv have mem: "entry \<in> set (entries master)"
      unfolding remove_entries_filter [OF re] by simp
    from remove_entries_step [OF re mem fr fi] obtain b where
      b: "any_raising (entry_matches recipe ingredient entry) (entries diff) = Inr b" ..
    from m eq have "entry_matches recipe ingredient entry diff_entry = Inr True" by simp
    with d any_raising_Inr [OF b] have "b" by blast
    with b fr fi surv show False
      unfolding remove_entries_filter [OF re] by simp
  qed
  from m p show ?thesis by blast
qed

theorem entry_matching_coalesces_witness:
  "honey_plain ''preparation'' = Some PNone \<and> honey_tuple ''preparation'' = None
   \<and> entry_matches kyphi_recipe honey_ingredient honey_plain honey_tuple = Inr True
   \<and> (\<exists>m'. remove_diff kyphi_master kyphi_removal = Inr m' \<and> honey_plain \<notin> set (entries m'))"
proof -
  have fields: "text_field (honey_plain ''amount_raw'')" "text_field (honey_tuple ''amount_raw'')"
      "text_field (honey_plain ''preparation'')" "text_field (honey_tuple ''preparation'')"
    by (simp_all add: text_field_def honey_plain_def honey_tuple_def)
  have keys: "kyphi_recipe ''slug'' = Some (PStr ''kyphi-28'')"
      "honey_ingredient ''slug'' = Some (PStr ''honey'')"
      "honey_tuple ''recipe_slug'' = Some (PStr ''kyphi-28'')"
      "honey_tuple ''ingredient_slug'' = Some (PStr ''honey'')"
    by (simp_all add: kyphi_recipe_def honey_ingredient_def honey_tuple_def)
  have same: "same_text (honey_plain ''amount_raw'') (honey_tuple ''amount_raw'')"
      "same_text (honey_plain ''preparation'') (honey_tuple ''preparation'')"
    by (simp_all add: same_text_def blank_def honey_plain_def honey_tuple_def)
  have finds: "find_by_id ''recipe_id'' (recipes kyphi_master) honey_plain = Inr (Some kyphi_recipe)"
      "find_by_id ''ingredient_id'' (ingredients kyphi_master) honey_plain = Inr (Some honey_ingredient)"
    by (simp_all add: kyphi_master_def kyphi_recipe_def honey_ingredient_def honey_plain_def)
  have d: "honey_tuple \<in> set (entries kyphi_removal)"
    by (simp add: kyphi_removal_def)
  have vals: "honey_plain ''preparation'' = Some PNone" "honey_tuple ''preparation'' = None"
    by (simp_all add: honey_plain_def honey_tuple_def)
  note main = entry_matching_coalesces [where entry = honey_plain and diff_entry = honey_tuple
      and recipe = kyphi_recipe and ingredient = honey_ingredient, OF fields keys]
  from main same have "entry_matches kyphi_recipe honey_ingredient honey_plain honey_tuple = Inr True"
    by simp
  moreover from main kyphi_removal_result finds d same
  have "honey_plain \<notin> set (entries \<lparr>recipes = [kyphi_recipe], ingredients = [honey_ingredient],
      aliases = [], entries = [honey_strained]\<rparr>)"
    by blast
  ultimately show ?thesis using vals kyphi_removal_result by auto
qed

section \<open>Properties of the fuzzy matcher\<close>

lemma sorted_desc_sorted:
  "sorted_wrt (\<lambda>a b. key b \<le> key a) (sorted_desc key xs)"
proof -
  have "sorted (map key (sort_key key (rev xs)))" by simp
  then have "sorted_wrt (\<lambda>a b. key a \<le> key b) (sort_key key (rev xs))"
    by (simp add: sorted_map)
  then show ?thesis by (simp add: sorted_desc_def sorted_wrt_rev)
qed

lemma sorted_desc_stable:
  "filter (\<lambda>y. key y = k) (sorted_desc key xs) = filter (\<lambda>y. key y = k) xs"
  by (simp add: sorted_desc_def sort_key_stable rev_filter [symmetric])

lemma set_sorted_desc [simp]: "set (sorted_desc key xs) = set xs"
  by (simp add: sorted_desc_def)

lemma unique_by_slug_subseq: "subseq (unique_by_slug seen xs) xs"
  by (induction xs arbitrary: seen) auto

lemma unique_by_slug_slugs:
  "m_slug ` set (unique_by_slug seen xs) = m_slug ` set xs - seen"
  by (induction xs arbitrary: seen) auto

lemma unique_by_slug_distinct: "distinct (map m_slug (unique_by_slug seen xs))"
proof (induction xs arbitrary: seen)
  case Nil
  then show ?case by simp
next
  case (Cons x xs)
  show ?case
  proof (cases "m_slug x \<in> seen")
    case True
    with Cons.IH show ?thesis by simp
  next
    case False
    have "m_slug x \<notin> m_slug ` set (unique_by_slug (insert (m_slug x) seen) xs)"
      unfolding unique_by_slug_slugs by simp
    with False Cons.IH show ?thesis by simp
  qed
qed

lemma unique_by_slug_best:
  assumes "sorted_wrt (\<lambda>a b. m_similarity b \<le> m_similarity a) xs"
    "m \<in> set (unique_by_slug seen xs)" "p \<in> set xs" "m_slug p = m_slug m"
  shows "m_similarity p \<le> m_similarity m"
  using assms
proof (induction xs arbitrary: seen)
  case Nil
  then show ?case by simp
next
  case (Cons x xs)
  have notseen: "m_slug m \<notin> seen"
    using Cons.prems(2) unique_by_slug_slugs [of seen "x # xs"] by blast
  show ?case
  proof (cases "m_slug x \<in> seen")
    case True
    with Cons.prems notseen have "m \<in> set (unique_by_slug seen xs)" "p \<in> set xs"
      by auto
    with Cons show ?thesis by auto
  next
    case False
    show ?thesis
    proof (cases "m = x")
      case True
      with Cons.prems(1,3) show ?thesis by auto
    next
      case neq: False
      with False Cons.prems(2) have m: "m \<in> set (unique_by_slug (insert (m_slug x) seen) xs)"
        by simp
      then have "m_slug m \<noteq> m_slug x"
        using unique_by_slug_slugs [of "insert (m_slug x) seen" xs] by blast
      with Cons.prems(3,4) have "p \<in> set xs" by auto
      with m Cons show ?thesis by auto
    qed
  qed
qed

lemma is_str_fieldD: "is_str_field x key \<Longrightarrow> \<exists>s. x key = Some (PStr s)"
  by (auto simp: is_str_field_def split: option.splits pyval.splits)

lemma as_str_PStr [simp]: "as_str (PStr s) = Inr s"
  by (simp add: as_str_def)

lemma as_str_eq_Inr: "as_str v = Inr s \<longleftrightarrow> v = PStr s"
  by (cases v) (simp_all add: as_str_def)

lemma idx_into_range:
  "idx_into m xs key = Inr m' \<Longrightarrow> m' k = Some r \<Longrightarrow> r \<in> set xs \<or> m k = Some r"
proof (induction xs arbitrary: m)
  case Nil
  then show ?case by simp
next
  case (Cons x xs)
  then show ?case by (fastforce simp: ebind_eq_Inr split: if_splits)
qed

lemma idx_by_range: "idx_by xs key = Inr m' \<Longrightarrow> m' k = Some r \<Longrightarrow> r \<in> set xs"
  unfolding idx_by_def by (drule idx_into_range) auto

lemma label_candidates_total:
  "\<forall>i \<in> set xs. i ''slug'' \<noteq> None \<and> is_str_field i ''label'' \<Longrightarrow>
   \<exists>ms. label_candidates ratio query threshold xs = Inr ms"
proof (induction xs)
  case Nil
  then show ?case by simp
next
  case (Cons x xs)
  then obtain ms where ms: "label_candidates ratio query threshold xs = Inr ms" by auto
  from Cons.prems obtain l s where "x ''label'' = Some (PStr l)" "x ''slug'' = Some s"
    by (auto dest: is_str_fieldD)
  with ms show ?case by simp
qed

lemma alias_candidates_total:
  assumes "\<forall>k i. by_id k = Some i \<longrightarrow> i ''slug'' \<noteq> None \<and> is_str_field i ''label''"
  shows "\<forall>a \<in> set xs. a ''ingredient_id'' \<noteq> None \<and> is_str_field a ''variant_label'' \<Longrightarrow>
   \<exists>ms. alias_candidates ratio by_id query threshold xs = Inr ms"
proof (induction xs)
  case Nil
  then show ?case by simp
next
  case (Cons x xs)
  then obtain ms where ms: "alias_candidates ratio by_id query threshold xs = Inr ms" by auto
  from Cons.prems obtain v iid where x: "x ''variant_label'' = Some (PStr v)" "x ''ingredient_id'' = Some iid"
    by (auto dest: is_str_fieldD)
  show ?case
  proof (cases "by_id iid")
    case None
    with x ms show ?thesis by simp
  next
    case (Some i)
    with assms obtain l s where "i ''label'' = Some (PStr l)" "i ''slug'' = Some s"
      by (fastforce dest: is_str_fieldD)
    with Some x ms show ?thesis by simp
  qed
qed

lemma candidates_total:
  assumes "matcher_ready master"
  shows "\<exists>pool. candidates ratio master query threshold = Inr pool"
proof -
  from assms have
    igs: "\<forall>i \<in> set (ingredients master). i ''ingredient_id'' \<noteq> None \<and> i ''slug'' \<noteq> None
            \<and> is_str_field i ''label''" and
    als: "\<forall>a \<in> set (aliases master). a ''ingredient_id'' \<noteq> None \<and> is_str_field a ''variant_label''"
    by (simp_all add: matcher_ready_def list_all_iff)
  from igs obtain by_id where by_id: "idx_by (ingredients master) ''ingredient_id'' = Inr by_id"
    using idx_by_total [of "ingredients master" "''ingredient_id''"] by auto
  from igs obtain ms1 where ms1: "label_candidates ratio query threshold (ingredients master) = Inr ms1"
    using label_candidates_total [of "ingredients master" ratio query threshold] by auto
  have "\<forall>k i. by_id k = Some i \<longrightarrow> i ''slug'' \<noteq> None \<and> is_str_field i ''label''"
    using idx_by_range [OF by_id] igs by blast
  from alias_candidates_total [OF this, of "aliases master" ratio query threshold] als
  obtain ms2 where "alias_candidates ratio by_id query threshold (aliases master) = Inr ms2"
    by auto
  with by_id ms1 show ?thesis by (simp add: candidates_def)
qed

lemma label_candidates_scores:
  "label_candidates ratio query threshold xs = Inr ms \<Longrightarrow>
   \<forall>m \<in> set ms. threshold < m_similarity m \<and> m_similarity m \<in> range (similarity ratio query)"
proof (induction xs arbitrary: ms)
  case Nil
  then show ?case by simp
next
  case (Cons x xs)
  then show ?case
    by (auto simp: ebind_eq_Inr split: if_splits)
qed

lemma alias_candidates_scores:
  "alias_candidates ratio by_id query threshold xs = Inr ms \<Longrightarrow>
   \<forall>m \<in> set ms. threshold < m_similarity m \<and> m_similarity m \<in> range (similarity ratio query)"
proof (induction xs arbitrary: ms)
  case Nil
  then show ?case by simp
next
  case (Cons x xs)
  then show ?case
    by (auto simp: ebind_eq_Inr split: if_splits option.splits)
qed

lemma candidates_scores:
  assumes "candidates ratio master query threshold = Inr pool"
  shows "\<forall>m \<in> set pool. threshold < m_similarity m \<and> m_similarity m \<in> range (similarity ratio query)"
  using assms label_candidates_scores alias_candidates_scores
  unfolding candidates_def ebind_eq_Inr by fastforce

lemma similar_labels_scores:
  "similar_labels ratio new_norm threshold xs = Inr ms \<Longrightarrow>
   set ms = {\<lparr>s_slug = slug, s_label = l, s_similarity = ratio new_norm (normalize_text l)\<rparr> | e slug l.
               e \<in> set xs \<and> e ''label'' = Some (PStr l) \<and> e ''slug'' = Some slug
               \<and> threshold < ratio new_norm (normalize_text l)}"
proof (induction xs arbitrary: ms)
  case Nil
  then show ?case by simp
next
  case (Cons x xs)
  from Cons.prems obtain l where l: "x ''label'' = Some (PStr l)"
    by (auto simp: ebind_eq_Inr as_str_eq_Inr)
  show ?case
  proof (cases "threshold < ratio new_norm (normalize_text l)")
    case True
    with Cons.prems l obtain slug ms' where
      s: "x ''slug'' = Some slug" and ms': "similar_labels ratio new_norm threshold xs = Inr ms'"
      and ms: "ms = \<lparr>s_slug = slug, s_label = l, s_similarity = ratio new_norm (normalize_text l)\<rparr> # ms'"
      by (auto simp: ebind_eq_Inr)
    show ?thesis unfolding ms using Cons.IH [OF ms'] True l s by auto
  next
    case False
    with Cons.prems l have ms': "similar_labels ratio new_norm threshold xs = Inr ms"
      by (auto simp: ebind_eq_Inr)
    show ?thesis using Cons.IH [OF ms'] False l by auto
  qed
qed

lemma common_prefix_le: "common_prefix a b \<le> length a \<and> common_prefix a b \<le> length b"
  by (induction a b rule: common_prefix.induct) auto

lemma common_prefix_same [simp]: "common_prefix a a = length a"
  by (induction a) auto

lemma prefix_ratio_range: "0 \<le> prefix_ratio a b \<and> prefix_ratio a b \<le> 1"
proof -
  have "2 * common_prefix a b \<le> length a + length b"
    using common_prefix_le [of a b] by linarith
  then have "2 * real (common_prefix a b) \<le> real (length a + length b)"
    by (metis of_nat_le_iff of_nat_mult of_nat_numeral)
  then show ?thesis by (simp add: prefix_ratio_def divide_le_eq)
qed

lemma prefix_ratio_refl: "prefix_ratio a a = 1"
  by (simp add: prefix_ratio_def)

lemma unique_by_slug_set: "set (unique_by_slug seen xs) \<subseteq> set xs"
  by (induction xs arbitrary: seen) auto

lemma unique_by_slug_sorted:
  "sorted_wrt P xs \<Longrightarrow> sorted_wrt P (unique_by_slug seen xs)"
proof (induction xs arbitrary: seen)
  case Nil
  then show ?case by simp
next
  case (Cons x xs)
  have "set (unique_by_slug (insert (m_slug x) seen) xs) \<subseteq> set xs"
    by (rule unique_by_slug_set)
  with Cons show ?case by auto
qed

lemmas text_defs = normalize_for_search_def normalize_text_def py_split_def py_strip_def
  strip_punct_def py_lower_def lower_char_def is_word_def is_space_def

lemma norm_vals:
  "normalize_for_search ''myrrh'' = ''myrrh''"
  "normalize_for_search ''Myrrh'' = ''myrrh''"
  "normalize_for_search ''Myrtle'' = ''myrtle''"
  "normalize_for_search ''myrrh resin'' = ''myrrh resin''"
  by (simp_all add: text_defs)

lemma ratio_vals:
  "prefix_ratio ''myrrh'' ''myrrh'' = 1"
  "prefix_ratio ''myrrh'' ''myrtle'' = 6 / 11"
  "prefix_ratio ''myrrh'' ''myrrh resin'' = 5 / 8"
  by (simp_all add: prefix_ratio_def)

lemma sim_vals:
  "similarity prefix_ratio ''myrrh'' ''Myrrh'' = 1"
  "similarity prefix_ratio ''myrrh'' ''Myrtle'' = 6 / 11"
  "similarity prefix_ratio ''myrrh'' ''myrrh resin'' = 5 / 8"
  by (simp_all add: similarity_def norm_vals ratio_vals)

lemma myrrh_candidates:
  "candidates prefix_ratio myrrh_master ''myrrh'' (2 / 5) = Inr [hit_myrrh, hit_myrtle, hit_resin]"
  by (simp add: candidates_def idx_by_def myrrh_master_def hit_myrrh_def hit_myrtle_def
      hit_resin_def sim_vals dict_get_or_def)

lemma hit_fields:
  "m_similarity hit_myrrh = 1" "m_similarity hit_myrtle = 6 / 11" "m_similarity hit_resin = 5 / 8"
  "m_slug hit_myrrh = PStr ''myrrh''" "m_slug hit_myrtle = PStr ''myrtle''"
  "m_slug hit_resin = PStr ''myrrh''"
  by (simp_all add: hit_myrrh_def hit_myrtle_def hit_resin_def)

lemma myrrh_sorted:
  "sorted_desc m_similarity [hit_myrrh, hit_myrtle, hit_resin] = [hit_myrrh, hit_resin, hit_myrtle]"
  by (simp add: sorted_desc_def hit_fields)

lemma myrrh_unique:
  "unique_by_slug {} [hit_myrrh, hit_resin, hit_myrtle] = [hit_myrrh, hit_myrtle]"
  by (simp add: hit_fields)

lemma myrrh_search:
  "find_similar_ingredients prefix_ratio myrrh_master ''myrrh'' (2 / 5)
     = Inr [hit_myrrh, hit_myrtle]"
  by (simp only: find_similar_ingredients_def myrrh_candidates ebind_simps myrrh_sorted
      myrrh_unique)

lemma myrrh_ready: "matcher_ready myrrh_master"
  by (simp add: matcher_ready_def myrrh_master_def is_str_field_def)

lemma nard_norm_vals:
  "normalize_for_search ''nard'' = ''nard''"
  "normalize_for_search ''Nard'' = ''nard''"
  "normalize_for_search ''Nature'' = ''nature''"
  "normalize_for_search ''Narrow'' = ''narrow''"
  "normalize_text ''nard'' = ''nard''"
  "normalize_text ''Nard'' = ''nard''"
  "normalize_text ''Nature'' = ''nature''"
  "normalize_text ''Narrow'' = ''narrow''"
  by (simp_all add: text_defs)

lemma nard_ratio_vals:
  "prefix_ratio ''nard'' ''nard'' = 1"
  "prefix_ratio ''nard'' ''nature'' = 2 / 5"
  "prefix_ratio ''nard'' ''narrow'' = 3 / 5"
  by (simp_all add: prefix_ratio_def)

lemma nard_sim_vals:
  "similarity prefix_ratio ''nard'' ''Nard'' = 1"
  "similarity prefix_ratio ''nard'' ''Nature'' = 2 / 5"
  "similarity prefix_ratio ''nard'' ''Narrow'' = 3 / 5"
  by (simp_all add: similarity_def nard_norm_vals nard_ratio_vals)

lemma nard_candidates:
  "candidates prefix_ratio nard_master ''nard'' (2 / 5) = Inr [hit_nard, hit_narrow]"
  by (simp add: candidates_def idx_by_def nard_master_def hit_nard_def hit_narrow_def
      nard_sim_vals dict_get_or_def)

lemma nard_hit_fields:
  "m_similarity hit_nard = 1" "m_similarity hit_narrow = 3 / 5"
  "m_slug hit_nard = PStr ''nard''" "m_slug hit_narrow = PStr ''narrow''"
  by (simp_all add: hit_nard_def hit_narrow_def)

lemma nard_sorted:
  "sorted_desc m_similarity [hit_nard, hit_narrow] = [hit_nard, hit_narrow]"
  by (simp add: sorted_desc_def nard_hit_fields)

lemma nard_unique: "unique_by_slug {} [hit_nard, hit_narrow] = [hit_nard, hit_narrow]"
  by (simp add: nard_hit_fields)

lemma nard_search:
  "find_similar_ingredients prefix_ratio nard_master ''nard'' (2 / 5) = Inr [hit_nard, hit_narrow]"
  by (simp only: find_similar_ingredients_def nard_candidates ebind_simps nard_sorted nard_unique)

lemma nard_labels:
  "similar_labels prefix_ratio ''nard'' (3 / 5) (ingredients nard_master) = Inr [link_nard]"
  by (simp add: nard_master_def link_nard_def nard_norm_vals nard_ratio_vals)

lemma nard_link:
  "find_similar prefix_ratio ''nard'' (ingredients nard_master) (3 / 5) = Inr [link_nard]"
  by (simp add: find_similar_def nard_norm_vals nard_labels sorted_desc_def)

lemma find_append_case:
  "find P (xs @ ys) = (case find P xs of None \<Rightarrow> find P ys | Some x \<Rightarrow> Some x)"
  by (induction xs) simp_all

lemma idx_into_find:
  "idx_into m xs key = Inr m' \<Longrightarrow>
   m' k = (case find (\<lambda>x. x key = Some k) (rev xs) of Some r \<Rightarrow> Some r | None \<Rightarrow> m k)"
proof (induction xs arbitrary: m)
  case Nil
  then show ?case by simp
next
  case (Cons x xs)
  from Cons.prems obtain v where v: "x key = Some v" and rest: "idx_into (m(v \<mapsto> x)) xs key = Inr m'"
    by (auto simp: ebind_eq_Inr)
  from Cons.IH [OF rest] v show ?case
    by (auto simp: find_append_case split: option.splits)
qed

lemma idx_by_owner:
  "idx_by igs ''ingredient_id'' = Inr by_id \<Longrightarrow> by_id = owner igs"
proof (rule ext)
  fix k
  assume "idx_by igs ''ingredient_id'' = Inr by_id"
  then have "idx_into Map.empty igs ''ingredient_id'' = Inr by_id"
    by (simp add: idx_by_def)
  from idx_into_find [OF this, of k] show "by_id k = owner igs k"
    by (simp add: owner_def split: option.splits)
qed

lemma label_candidates_eq:
  "\<forall>i \<in> set xs. i ''slug'' \<noteq> None \<and> is_str_field i ''label'' \<Longrightarrow>
   label_candidates ratio query threshold xs =
     Inr (map (label_hit ratio query)
           (filter (\<lambda>i. threshold < similarity ratio query (str_field i ''label'')) xs))"
proof (induction xs)
  case Nil
  then show ?case by simp
next
  case (Cons x xs)
  from Cons.prems obtain l s where "x ''label'' = Some (PStr l)" "x ''slug'' = Some s"
    by (auto dest: is_str_fieldD)
  with Cons show ?case
    by (simp add: label_hit_def str_field_def dict_get_def dict_get_or_def)
qed

lemma alias_candidates_eq:
  assumes "\<forall>k i. by_id k = Some i \<longrightarrow> i ''slug'' \<noteq> None \<and> is_str_field i ''label''"
  shows "\<forall>a \<in> set xs. a ''ingredient_id'' \<noteq> None \<and> is_str_field a ''variant_label'' \<Longrightarrow>
   alias_candidates ratio by_id query threshold xs =
     Inr (concat (map (alias_hits ratio by_id query)
           (filter (\<lambda>a. threshold < similarity ratio query (str_field a ''variant_label'')) xs)))"
proof (induction xs)
  case Nil
  then show ?case by simp
next
  case (Cons x xs)
  from Cons.prems obtain v iid where x: "x ''variant_label'' = Some (PStr v)" "x ''ingredient_id'' = Some iid"
    by (auto dest: is_str_fieldD)
  show ?case
  proof (cases "by_id iid")
    case None
    with x Cons show ?thesis
      by (simp add: alias_hits_def str_field_def dict_get_def dict_get_or_def)
  next
    case (Some i)
    with assms obtain l s where "i ''label'' = Some (PStr l)" "i ''slug'' = Some s"
      by (fastforce dest: is_str_fieldD)
    with Some x Cons show ?thesis
      by (simp add: alias_hits_def alias_hit_def str_field_def dict_get_def dict_get_or_def)
  qed
qed

lemma candidates_pool:
  assumes "matcher_ready master"
  shows "candidates ratio master query threshold = Inr (candidate_pool ratio master query threshold)"
proof -
  from assms have
    igs: "\<forall>i \<in> set (ingredients master). i ''ingredient_id'' \<noteq> None \<and> i ''slug'' \<noteq> None
            \<and> is_str_field i ''label''" and
    als: "\<forall>a \<in> set (aliases master). a ''ingredient_id'' \<noteq> None \<and> is_str_field a ''variant_label''"
    by (simp_all add: matcher_ready_def list_all_iff)
  from igs obtain by_id where by_id: "idx_by (ingredients master) ''ingredient_id'' = Inr by_id"
    using idx_by_total [of "ingredients master" "''ingredient_id''"] by auto
  from igs have lab: "\<forall>i \<in> set (ingredients master). i ''slug'' \<noteq> None \<and> is_str_field i ''label''"
    by simp
  have rng: "\<forall>k i. by_id k = Some i \<longrightarrow> i ''slug'' \<noteq> None \<and> is_str_field i ''label''"
    using idx_by_range [OF by_id] igs by blast
  note l = label_candidates_eq [OF lab, of ratio query threshold]
  note a = alias_candidates_eq [OF rng als, of ratio query threshold]
  from by_id l a show ?thesis
    by (simp add: candidates_def candidate_pool_def idx_by_owner [OF by_id, symmetric])
qed

lemma myrrha_norm_vals:
  "normalize_for_search ''Myrrha'' = ''myrrha''"
  "normalize_for_search ''Myrica'' = ''myrica''"
  by (simp_all add: text_defs)

lemma myrrha_ratio_vals:
  "prefix_ratio ''myrrh'' ''myrrha'' = 10 / 11"
  "prefix_ratio ''myrrh'' ''myrica'' = 6 / 11"
  by (simp_all add: prefix_ratio_def)

lemma myrrha_sim_vals:
  "similarity prefix_ratio ''myrrh'' ''Myrrha'' = 10 / 11"
  "similarity prefix_ratio ''myrrh'' ''Myrica'' = 6 / 11"
  by (simp_all add: similarity_def norm_vals myrrha_norm_vals myrrha_ratio_vals)

lemma myrrha_candidates:
  "candidates prefix_ratio myrrha_master ''myrrh'' (2 / 5)
     = Inr [hit_myrrha, hit_myrtle, hit_myrica, hit_myrrh_alias]"
  by (simp add: candidates_def idx_by_def myrrha_master_def hit_myrrha_def hit_myrtle_def
      hit_myrica_def hit_myrrh_alias_def sim_vals myrrha_sim_vals dict_get_or_def)

lemma myrrha_hit_fields:
  "m_similarity hit_myrrha = 10 / 11" "m_similarity hit_myrica = 6 / 11"
  "m_similarity hit_myrrh_alias = 1"
  "m_slug hit_myrrha = PStr ''myrrh''" "m_slug hit_myrica = PStr ''myrica''"
  "m_slug hit_myrrh_alias = PStr ''myrrh''"
  by (simp_all add: hit_myrrha_def hit_myrica_def hit_myrrh_alias_def)

lemma myrrha_sorted:
  "sorted_desc m_similarity [hit_myrrha, hit_myrtle, hit_myrica, hit_myrrh_alias]
     = [hit_myrrh_alias, hit_myrrha, hit_myrtle, hit_myrica]"
  by (simp add: sorted_desc_def hit_fields myrrha_hit_fields)

lemma myrrha_unique:
  "unique_by_slug {} [hit_myrrh_alias, hit_myrrha, hit_myrtle, hit_myrica]
     = [hit_myrrh_alias, hit_myrtle, hit_myrica]"
  by (simp add: hit_fields myrrha_hit_fields)

lemma myrrha_search:
  "find_similar_ingredients prefix_ratio myrrha_master ''myrrh'' (2 / 5)
     = Inr [hit_myrrh_alias, hit_myrtle, hit_myrica]"
  by (simp only: find_similar_ingredients_def myrrha_candidates ebind_simps myrrha_sorted
      myrrha_unique)

lemma myrrha_ready: "matcher_ready myrrha_master"
  by (simp add: matcher_ready_def myrrha_master_def is_str_field_def)

text \<open>
  C7. On a corpus whose rows carry the fields the matcher reads, and for a score function
  with values in [0,1] that gives 1 on equal strings, the pool of candidates is the
  label matches of the ingredients followed by the alias matches of the aliases, each
  in corpus order and each scoring above the threshold. The matcher returns a list that
  is sorted by score in non-increasing order, keeps results of equal score in pool
  order, has every score in [0,1], scores a string against itself with 1, holds every
  slug of the pool once, and holds for every slug an occurrence of the highest score:
  for every ingredient whose label scores above the threshold, and for every alias that
  scores above the threshold and belongs to an ingredient, the result under that
  ingredient's slug scores at least as high.
\<close>

theorem find_similar_ingredients_ranked:
  assumes ratio_range: "\<forall>a b. 0 \<le> ratio a b \<and> ratio a b \<le> 1"
    and ratio_refl: "\<forall>a. ratio a a = 1"
    and ready: "matcher_ready master"
  shows "\<exists>pool res.
           candidates ratio master query threshold = Inr pool
         \<and> pool = candidate_pool ratio master query threshold
         \<and> find_similar_ingredients ratio master query threshold = Inr res
         \<and> sorted_wrt (\<lambda>a b. m_similarity b \<le> m_similarity a) res
         \<and> (\<forall>k. subseq (filter (\<lambda>m. m_similarity m = k) res)
                        (filter (\<lambda>m. m_similarity m = k) pool))
         \<and> (\<forall>m \<in> set res. 0 \<le> m_similarity m \<and> m_similarity m \<le> 1)
         \<and> similarity ratio x x = 1
         \<and> distinct (map m_slug res)
         \<and> set res \<subseteq> set pool
         \<and> m_slug ` set res = m_slug ` set pool
         \<and> (\<forall>m \<in> set res. \<forall>p \<in> set pool.
               m_slug p = m_slug m \<longrightarrow> m_similarity p \<le> m_similarity m)
         \<and> (\<forall>i \<in> set (ingredients master).
               threshold < similarity ratio query (str_field i ''label'') \<longrightarrow>
               (\<exists>m \<in> set res. m_slug m = dict_get i ''slug''
                  \<and> similarity ratio query (str_field i ''label'') \<le> m_similarity m))
         \<and> (\<forall>a \<in> set (aliases master). \<forall>i.
               threshold < similarity ratio query (str_field a ''variant_label'')
               \<and> owner (ingredients master) (dict_get a ''ingredient_id'') = Some i \<longrightarrow>
               (\<exists>m \<in> set res. m_slug m = dict_get i ''slug''
                  \<and> similarity ratio query (str_field a ''variant_label'') \<le> m_similarity m))"
proof -
  define pool where "pool = candidate_pool ratio master query threshold"
  have pool: "candidates ratio master query threshold = Inr pool"
    unfolding pool_def using ready by (rule candidates_pool)
  have pool_eq: "pool = candidate_pool ratio master query threshold"
    by (rule pool_def)
  define ranked where "ranked = sorted_desc m_similarity pool"
  define res where "res = unique_by_slug {} ranked"
  have set_ranked: "set ranked = set pool"
    unfolding ranked_def by (rule set_sorted_desc)
  have run: "find_similar_ingredients ratio master query threshold = Inr res"
    by (simp add: find_similar_ingredients_def pool res_def ranked_def)
  have sub: "subseq res ranked"
    unfolding res_def by (rule unique_by_slug_subseq)
  have mem: "set res \<subseteq> set pool"
    using unique_by_slug_set [of "{}" ranked] unfolding res_def set_ranked .
  have ranked_sorted: "sorted_wrt (\<lambda>a b. m_similarity b \<le> m_similarity a) ranked"
    unfolding ranked_def by (rule sorted_desc_sorted)
  have srt: "sorted_wrt (\<lambda>a b. m_similarity b \<le> m_similarity a) res"
    unfolding res_def using ranked_sorted by (rule unique_by_slug_sorted)
  have ties: "subseq (filter (\<lambda>m. m_similarity m = k) res) (filter (\<lambda>m. m_similarity m = k) pool)" for k
  proof -
    have "subseq (filter (\<lambda>m. m_similarity m = k) res) (filter (\<lambda>m. m_similarity m = k) ranked)"
      using sub by (rule subseq_filter)
    then show ?thesis unfolding ranked_def sorted_desc_stable .
  qed
  have rng: "0 \<le> m_similarity m \<and> m_similarity m \<le> 1" if "m \<in> set res" for m
  proof -
    from that mem have "m \<in> set pool" by (rule subsetD [rotated])
    with candidates_scores [OF pool] have "m_similarity m \<in> range (similarity ratio query)"
      by simp
    then obtain t where "m_similarity m = similarity ratio query t" ..
    with ratio_range show ?thesis by (simp add: similarity_def)
  qed
  have refl: "similarity ratio x x = 1"
    using ratio_refl by (simp add: similarity_def)
  have dist: "distinct (map m_slug res)"
    unfolding res_def by (rule unique_by_slug_distinct)
  have slugs: "m_slug ` set res = m_slug ` set pool"
    unfolding res_def unique_by_slug_slugs set_ranked by simp
  have best: "\<forall>m \<in> set res. \<forall>p \<in> set pool.
               m_slug p = m_slug m \<longrightarrow> m_similarity p \<le> m_similarity m"
  proof (intro ballI impI)
    fix m p
    assume m: "m \<in> set res" and p: "p \<in> set pool" and eq: "m_slug p = m_slug m"
    from m have m': "m \<in> set (unique_by_slug {} ranked)" unfolding res_def .
    from p have p': "p \<in> set ranked" unfolding set_ranked .
    from ranked_sorted m' p' eq show "m_similarity p \<le> m_similarity m"
      by (rule unique_by_slug_best)
  qed
  have covered: "\<exists>m \<in> set res. m_slug m = m_slug p \<and> m_similarity p \<le> m_similarity m"
    if p: "p \<in> set pool" for p
  proof -
    from p have "m_slug p \<in> m_slug ` set pool" by (rule imageI)
    then have "m_slug p \<in> m_slug ` set res" unfolding slugs .
    then obtain m where m: "m \<in> set res" and eq: "m_slug p = m_slug m" by (rule imageE)
    from best m p eq have "m_similarity p \<le> m_similarity m" by blast
    with m eq show ?thesis by (intro bexI [of _ m]) simp_all
  qed
  have labels: "\<forall>i \<in> set (ingredients master).
               threshold < similarity ratio query (str_field i ''label'') \<longrightarrow>
               (\<exists>m \<in> set res. m_slug m = dict_get i ''slug''
                  \<and> similarity ratio query (str_field i ''label'') \<le> m_similarity m)"
  proof (intro ballI impI)
    fix i
    assume i: "i \<in> set (ingredients master)"
      and gt: "threshold < similarity ratio query (str_field i ''label'')"
    then have "label_hit ratio query i \<in> set pool"
      by (simp add: pool_def candidate_pool_def)
    from covered [OF this]
    show "\<exists>m \<in> set res. m_slug m = dict_get i ''slug''
            \<and> similarity ratio query (str_field i ''label'') \<le> m_similarity m"
      by (simp add: label_hit_def)
  qed
  have variants: "\<forall>a \<in> set (aliases master). \<forall>i.
               threshold < similarity ratio query (str_field a ''variant_label'')
               \<and> owner (ingredients master) (dict_get a ''ingredient_id'') = Some i \<longrightarrow>
               (\<exists>m \<in> set res. m_slug m = dict_get i ''slug''
                  \<and> similarity ratio query (str_field a ''variant_label'') \<le> m_similarity m)"
  proof (intro ballI allI impI)
    fix a i
    assume a: "a \<in> set (aliases master)"
      and gt: "threshold < similarity ratio query (str_field a ''variant_label'')
               \<and> owner (ingredients master) (dict_get a ''ingredient_id'') = Some i"
    then have "alias_hit ratio query i a
        \<in> set (alias_hits ratio (owner (ingredients master)) query a)"
      by (simp add: alias_hits_def)
    with a gt have "alias_hit ratio query i a \<in> set pool"
      unfolding pool_def candidate_pool_def by auto
    from covered [OF this]
    show "\<exists>m \<in> set res. m_slug m = dict_get i ''slug''
            \<and> similarity ratio query (str_field a ''variant_label'') \<le> m_similarity m"
      by (simp add: alias_hit_def)
  qed
  have rng_all: "\<forall>m \<in> set res. 0 \<le> m_similarity m \<and> m_similarity m \<le> 1"
    using rng by (rule ballI)
  have ties_all: "\<forall>k. subseq (filter (\<lambda>m. m_similarity m = k) res)
                        (filter (\<lambda>m. m_similarity m = k) pool)"
    using ties by (rule allI)
  show ?thesis
    apply (rule exI [of _ pool])
    apply (rule exI [of _ res])
    apply (intro conjI)
    apply (rule pool pool_eq run srt ties_all rng_all refl dist mem slugs best labels variants)+
    done
qed

theorem find_similar_ingredients_ranked_witness:
  "matcher_ready myrrha_master
   \<and> candidate_pool prefix_ratio myrrha_master ''myrrh'' (2 / 5)
       = [hit_myrrha, hit_myrtle, hit_myrica, hit_myrrh_alias]
   \<and> find_similar_ingredients prefix_ratio myrrha_master ''myrrh'' (2 / 5)
       = Inr [hit_myrrh_alias, hit_myrtle, hit_myrica]
   \<and> m_slug hit_myrrha = m_slug hit_myrrh_alias
   \<and> m_similarity hit_myrrha < m_similarity hit_myrrh_alias
   \<and> m_similarity hit_myrtle = m_similarity hit_myrica
   \<and> sorted_wrt (\<lambda>a b. m_similarity b \<le> m_similarity a) [hit_myrrh_alias, hit_myrtle, hit_myrica]
   \<and> distinct (map m_slug [hit_myrrh_alias, hit_myrtle, hit_myrica])
   \<and> similarity prefix_ratio ''Myrrh (resin)'' ''Myrrh (resin)'' = 1"
proof -
  have rr: "\<forall>a b. 0 \<le> prefix_ratio a b \<and> prefix_ratio a b \<le> 1"
    using prefix_ratio_range by (intro allI)
  have rf: "\<forall>a. prefix_ratio a a = 1"
    using prefix_ratio_refl by (intro allI)
  from find_similar_ingredients_ranked [OF rr rf myrrha_ready, of "''myrrh''" "2 / 5" "''Myrrh (resin)''"]
  obtain pool res where
    c: "candidates prefix_ratio myrrha_master ''myrrh'' (2 / 5) = Inr pool"
    and p: "pool = candidate_pool prefix_ratio myrrha_master ''myrrh'' (2 / 5)"
    and r: "find_similar_ingredients prefix_ratio myrrha_master ''myrrh'' (2 / 5) = Inr res"
    and s: "sorted_wrt (\<lambda>a b. m_similarity b \<le> m_similarity a) res"
    and d: "distinct (map m_slug res)"
    and x: "similarity prefix_ratio ''Myrrh (resin)'' ''Myrrh (resin)'' = 1"
    by (elim exE conjE)
  from c p myrrha_candidates have pool:
    "candidate_pool prefix_ratio myrrha_master ''myrrh'' (2 / 5)
       = [hit_myrrha, hit_myrtle, hit_myrica, hit_myrrh_alias]" by simp
  from r myrrha_search have res: "res = [hit_myrrh_alias, hit_myrtle, hit_myrica]" by simp
  have f: "m_slug hit_myrrha = m_slug hit_myrrh_alias"
    "m_similarity hit_myrrha < m_similarity hit_myrrh_alias"
    "m_similarity hit_myrtle = m_similarity hit_myrica"
    by (simp_all add: hit_fields myrrha_hit_fields)
  from s have s': "sorted_wrt (\<lambda>a b. m_similarity b \<le> m_similarity a)
      [hit_myrrh_alias, hit_myrtle, hit_myrica]"
    unfolding res .
  from d have d': "distinct (map m_slug [hit_myrrh_alias, hit_myrtle, hit_myrica])"
    unfolding res .
  show ?thesis
    apply (intro conjI)
    apply (rule myrrha_ready pool myrrha_search f s' d' x)+
    done
qed


text \<open>
  C10. The threshold is exclusive in both consumers: every candidate and every result
  of the ingredient search, and every suggestion of ingestion linking, scores strictly
  above the threshold; the suggestions are exactly those of the existing ingredients
  whose score is strictly greater, so one whose score equals the threshold is left out.
\<close>

theorem threshold_is_exclusive:
  "(\<forall>pool. candidates ratio master query threshold = Inr pool
       \<longrightarrow> (\<forall>m \<in> set pool. threshold < m_similarity m))
   \<and> (\<forall>res. find_similar_ingredients ratio master query threshold = Inr res
       \<longrightarrow> (\<forall>m \<in> set res. threshold < m_similarity m))
   \<and> (\<forall>res. find_similar ratio new_label existing threshold = Inr res
       \<longrightarrow> (\<forall>s \<in> set res. threshold < s_similarity s)
         \<and> set res =
             {\<lparr>s_slug = slug, s_label = l,
               s_similarity = ratio (normalize_text new_label) (normalize_text l)\<rparr> | e slug l.
                e \<in> set existing \<and> e ''label'' = Some (PStr l) \<and> e ''slug'' = Some slug
                \<and> threshold < ratio (normalize_text new_label) (normalize_text l)})"
proof -
  have a: "\<forall>m \<in> set pool. threshold < m_similarity m"
    if "candidates ratio master query threshold = Inr pool" for pool
    using candidates_scores [OF that] by simp
  have b: "\<forall>m \<in> set res. threshold < m_similarity m"
    if "find_similar_ingredients ratio master query threshold = Inr res" for res
  proof -
    from that obtain pool where
      pool: "candidates ratio master query threshold = Inr pool"
      and res: "res = unique_by_slug {} (sorted_desc m_similarity pool)"
      unfolding find_similar_ingredients_def ebind_eq_Inr by auto
    have "set res \<subseteq> set pool"
      unfolding res using unique_by_slug_set [of "{}" "sorted_desc m_similarity pool"] by simp
    with a [OF pool] show ?thesis by (rule_tac ballI) (erule bspec, erule subsetD)
  qed
  have c: "set res =
             {\<lparr>s_slug = slug, s_label = l,
               s_similarity = ratio (normalize_text new_label) (normalize_text l)\<rparr> | e slug l.
                e \<in> set existing \<and> e ''label'' = Some (PStr l) \<and> e ''slug'' = Some slug
                \<and> threshold < ratio (normalize_text new_label) (normalize_text l)}"
    if "find_similar ratio new_label existing threshold = Inr res" for res
  proof -
    from that obtain ms where
      ms: "similar_labels ratio (normalize_text new_label) threshold existing = Inr ms"
      and res: "res = sorted_desc s_similarity ms"
      unfolding find_similar_def ebind_eq_Inr by auto
    show ?thesis unfolding res set_sorted_desc by (rule similar_labels_scores [OF ms])
  qed
  have d: "\<forall>s \<in> set res. threshold < s_similarity s"
    if "find_similar ratio new_label existing threshold = Inr res" for res
    unfolding c [OF that] by auto
  from a b c d show ?thesis by (intro conjI allI impI) blast+
qed

theorem threshold_is_exclusive_witness:
  "similarity prefix_ratio ''nard'' ''Nature'' = 2 / 5
   \<and> find_similar_ingredients prefix_ratio nard_master ''nard'' (2 / 5) = Inr [hit_nard, hit_narrow]
   \<and> 2 / 5 < m_similarity hit_nard \<and> 2 / 5 < m_similarity hit_narrow
   \<and> prefix_ratio (normalize_text ''nard'') (normalize_text ''Narrow'') = 3 / 5
   \<and> find_similar prefix_ratio ''nard'' (ingredients nard_master) (3 / 5) = Inr [link_nard]
   \<and> 3 / 5 < s_similarity link_nard"
proof -
  note t = threshold_is_exclusive [of prefix_ratio nard_master "''nard''" _ "''nard''"
      "ingredients nard_master"]
  from t [of "2 / 5"] nard_search have "\<forall>m \<in> set [hit_nard, hit_narrow]. 2 / 5 < m_similarity m"
    by blast
  moreover from t [of "3 / 5"] nard_link have "\<forall>s \<in> set [link_nard]. 3 / 5 < s_similarity s"
    by blast
  ultimately show ?thesis
    using nard_search nard_link
    by (simp add: nard_sim_vals nard_norm_vals nard_ratio_vals)
qed

section \<open>Properties of the merge engine\<close>

lemma kyphi_fields:
  "kyphi_recipe ''slug'' = Some (PStr ''kyphi-28'')"
  "kyphi_recipe ''recipe_id'' = Some (PInt 1)"
  "honey_ingredient ''slug'' = Some (PStr ''honey'')"
  "honey_ingredient ''ingredient_id'' = Some (PInt 1)"
  by (simp_all add: kyphi_recipe_def honey_ingredient_def)

lemma bare_entry_fields:
  "bare_entry ''recipe_slug'' = Some (PStr ''kyphi-28'')"
  "bare_entry ''ingredient_slug'' = Some (PStr ''honey'')"
  "bare_entry ''amount_raw'' = None"
  "bare_entry ''preparation'' = None"
  by (simp_all add: bare_entry_def)

lemma bare_tuple:
  "entry_tuple (PInt 1) (PInt 1) bare_entry = (PInt 1, PInt 1, PStr [], PStr [])"
  by (simp add: entry_tuple_def dict_get_or_def or_empty_def bare_entry_fields)

lemma stored_fields:
  "new_entry n rid iid e ts by ''recipe_id'' = Some rid"
  "new_entry n rid iid e ts by ''ingredient_id'' = Some iid"
  "new_entry n rid iid e ts by ''entry_id'' = Some (PInt n)"
  "new_entry n rid iid e ts by ''amount_raw'' = Some (dict_get e ''amount_raw'')"
  "new_entry n rid iid e ts by ''preparation'' = Some (dict_get e ''preparation'')"
  by (simp_all add: new_entry_def)

lemma stored_tuple:
  "entry_tuple (PInt 1) (PInt 1) (new_entry n (PInt 1) (PInt 1) bare_entry ts by)
     = (PInt 1, PInt 1, PNone, PStr [])"
  by (simp add: entry_tuple_def dict_get_or_def dict_get_def or_empty_def stored_fields
      bare_entry_fields)

lemma bare_indexes:
  "idx_by [kyphi_recipe] ''slug'' = Inr [PStr ''kyphi-28'' \<mapsto> kyphi_recipe]"
  "idx_by [honey_ingredient] ''slug'' = Inr [PStr ''honey'' \<mapsto> honey_ingredient]"
  by (simp_all add: idx_by_def kyphi_fields)

lemma bare_first_entry:
  "merge_entry clock added_by [PStr ''kyphi-28'' \<mapsto> kyphi_recipe] [PStr ''honey'' \<mapsto> honey_ingredient]
     bare_entry ([], {}, 0)
   = Inr (([new_entry 1 (PInt 1) (PInt 1) bare_entry (clock 0) added_by],
           {(PInt 1, PInt 1, PStr [], PStr [])}, Suc 0),
          [AddedEntry (PStr ''kyphi-28'') (PStr ''honey'') 1])"
  by (simp add: merge_entry_def bare_entry_fields kyphi_fields bare_tuple next_id_def)

lemma bare_second_entry:
  "merge_entry clock added_by [PStr ''kyphi-28'' \<mapsto> kyphi_recipe] [PStr ''honey'' \<mapsto> honey_ingredient]
     bare_entry ([new_entry 1 (PInt 1) (PInt 1) bare_entry (clock 0) added_by],
                 {(PInt 1, PInt 1, PNone, PStr [])}, 0)
   = Inr (([new_entry 1 (PInt 1) (PInt 1) bare_entry (clock 0) added_by,
            new_entry 2 (PInt 1) (PInt 1) bare_entry (clock 0) added_by],
           {(PInt 1, PInt 1, PStr [], PStr []), (PInt 1, PInt 1, PNone, PStr [])}, Suc 0),
          [AddedEntry (PStr ''kyphi-28'') (PStr ''honey'') 2])"
  by (simp add: merge_entry_def bare_entry_fields kyphi_fields bare_tuple next_id_def
      dict_get_or_def stored_fields)

lemma bare_merge_once:
  "merge clock added_by bare_master bare_diff
     = Inr (bare_master\<lparr>entries := [new_entry 1 (PInt 1) (PInt 1) bare_entry (clock 0) added_by]\<rparr>,
            [AddedEntry (PStr ''kyphi-28'') (PStr ''honey'') 1])"
  by (simp add: merge_def bare_master_def bare_diff_def bare_indexes bare_first_entry)

lemma bare_merge_twice:
  "merge clock added_by
     (bare_master\<lparr>entries := [new_entry 1 (PInt 1) (PInt 1) bare_entry (clock 0) added_by]\<rparr>)
     bare_diff
     = Inr (bare_master\<lparr>entries := [new_entry 1 (PInt 1) (PInt 1) bare_entry (clock 0) added_by,
              new_entry 2 (PInt 1) (PInt 1) bare_entry (clock 0) added_by]\<rparr>,
            [AddedEntry (PStr ''kyphi-28'') (PStr ''honey'') 2])"
  by (simp add: merge_def bare_master_def bare_diff_def bare_indexes bare_second_entry
      stored_fields stored_tuple)

text \<open>
  C1. Merging the same diff twice is not idempotent when a diff entry lacks
  \<^verbatim>\<open>amount_raw\<close>: the first merge stores \<^verbatim>\<open>None\<close> for the field, whose key is \<^verbatim>\<open>None\<close>,
  while the key of the diff entry holds the empty string, so the second merge does not
  recognise the entry and adds it again.
\<close>

theorem merge_twice_adds_entry:
  "\<exists>m1 log1 m2 log2.
     merge clock added_by bare_master bare_diff = Inr (m1, log1)
   \<and> merge clock added_by m1 bare_diff = Inr (m2, log2)
   \<and> length (entries m1) = 1 \<and> length (entries m2) = 2 \<and> m2 \<noteq> m1"
proof -
  let ?m1 = "bare_master\<lparr>entries := [new_entry 1 (PInt 1) (PInt 1) bare_entry (clock 0) added_by]\<rparr>"
  let ?m2 = "bare_master\<lparr>entries := [new_entry 1 (PInt 1) (PInt 1) bare_entry (clock 0) added_by,
              new_entry 2 (PInt 1) (PInt 1) bare_entry (clock 0) added_by]\<rparr>"
  have "length (entries ?m1) = 1" "length (entries ?m2) = 2" by simp_all
  moreover have "?m2 \<noteq> ?m1"
  proof
    assume "?m2 = ?m1"
    then have "length (entries ?m2) = length (entries ?m1)" by (rule arg_cong)
    then show False by simp
  qed
  ultimately show ?thesis using bare_merge_once bare_merge_twice by blast
qed

lemma run_items_total:
  assumes "\<And>x st. x \<in> set xs \<Longrightarrow> I st \<Longrightarrow> \<exists>st' ev. step x st = Inr (st', ev) \<and> I st'"
    and "I st"
  shows "\<exists>st' evs. run_items step xs st = Inr (st', evs) \<and> I st'"
  using assms
proof (induction xs arbitrary: st)
  case Nil
  then show ?case by simp
next
  case (Cons x xs)
  from Cons.prems obtain st1 ev where s1: "step x st = Inr (st1, ev)" and i1: "I st1"
    by fastforce
  have "\<exists>st' evs. run_items step xs st1 = Inr (st', evs) \<and> I st'"
    by (rule Cons.IH) (use Cons.prems i1 in auto)
  then obtain st2 evs where "run_items step xs st1 = Inr (st2, evs)" "I st2" by blast
  with s1 show ?case by simp
qed

lemma run_items_Cons_Inr:
  "run_items step (x # xs) st = Inr (st', evs) \<longleftrightarrow>
   (\<exists>st1 ev evs1. step x st = Inr (st1, ev) \<and> run_items step xs st1 = Inr (st', evs1)
      \<and> evs = ev @ evs1)"
  by (auto simp: ebind_eq_Inr)

lemma run_items_filter:
  assumes "\<And>x st. x \<in> set xs \<Longrightarrow> \<not> P x \<Longrightarrow> \<exists>ev. step x st = Inr (st, ev)"
    and "run_items step xs st = Inr (st', evs)"
  shows "\<exists>evs'. run_items step (filter P xs) st = Inr (st', evs')"
  using assms
proof (induction xs arbitrary: st evs)
  case Nil
  then show ?case by simp
next
  case (Cons x xs)
  from Cons.prems(2) obtain st1 ev evs1 where
    s1: "step x st = Inr (st1, ev)" and r1: "run_items step xs st1 = Inr (st', evs1)"
    unfolding run_items_Cons_Inr by blast
  have ih: "\<exists>evs'. run_items step (filter P xs) st1 = Inr (st', evs')"
    by (rule Cons.IH [OF _ r1]) (use Cons.prems(1) in auto)
  show ?case
  proof (cases "P x")
    case True
    with s1 ih show ?thesis by auto
  next
    case False
    with Cons.prems(1) [of x st] s1 have "st1 = st" by auto
    with False ih show ?thesis by simp
  qed
qed

lemma run_items_event:
  assumes "run_items step xs st = Inr (st', evs)" "x \<in> set xs"
    and "\<And>s s' ev. step x s = Inr (s', ev) \<Longrightarrow> ev0 \<in> set ev"
  shows "ev0 \<in> set evs"
  using assms(1,2)
proof (induction xs arbitrary: st evs)
  case Nil
  then show ?case by simp
next
  case (Cons y ys)
  from Cons.prems(1) obtain st1 ev evs1 where
    s1: "step y st = Inr (st1, ev)" and r1: "run_items step ys st1 = Inr (st', evs1)"
    and evs: "evs = ev @ evs1"
    unfolding run_items_Cons_Inr by blast
  show ?case
  proof (cases "x = y")
    case True
    with s1 assms(3) have "ev0 \<in> set ev" by blast
    with evs show ?thesis by simp
  next
    case False
    with Cons.prems(2) have "x \<in> set ys" by simp
    from Cons.IH [OF r1 this] evs show ?thesis by simp
  qed
qed

lemma is_int_fieldD: "is_int_field x key \<Longrightarrow> \<exists>i. x key = Some (PInt i)"
  by (auto simp: is_int_field_def split: option.splits pyval.splits)

lemma is_int_field_ok: "is_int_field x key \<Longrightarrow> id_field_ok key x"
  by (auto simp: is_int_field_def id_field_ok_def split: option.splits pyval.splits)

lemma next_id_total: "list_all (id_field_ok key) arr \<Longrightarrow> \<exists>n. next_id arr key = Inr n"
  by (simp add: next_id_def int_values_ok)

lemma new_row_id:
  "id_field_ok key r \<Longrightarrow> is_int_field ([key \<mapsto> PInt n] ++ r) key"
  by (auto simp: id_field_ok_def is_int_field_def map_add_def split: option.splits pyval.splits)

lemma new_row_other: "k \<noteq> key \<Longrightarrow> ([key \<mapsto> v] ++ r) k = r k"
  by (simp add: map_add_def split: option.splits)

lemma merge_recipe_step:
  assumes inv: "plain_index_ok ''recipe_id'' st"
    and r: "id_field_ok ''recipe_id'' r" "r ''slug'' \<noteq> None" "r ''label'' \<noteq> None"
  shows "\<exists>st' ev. merge_recipe r st = Inr (st', ev) \<and> plain_index_ok ''recipe_id'' st'"
proof -
  obtain rcps by_slug where st: "st = (rcps, by_slug)" by (cases st)
  from r obtain slug label where slug: "r ''slug'' = Some slug" and label: "r ''label'' = Some label"
    by auto
  from inv have rows: "\<forall>x \<in> set rcps. is_int_field x ''recipe_id'' \<and> x ''slug'' \<noteq> None"
    and idx: "\<forall>k x. by_slug k = Some x \<longrightarrow> x \<in> set rcps \<and> x ''slug'' = Some k"
    by (simp_all add: plain_index_ok_def st)
  show ?thesis
  proof (cases "by_slug slug")
    case None
    from rows have "list_all (id_field_ok ''recipe_id'') rcps"
      by (simp add: list_all_iff is_int_field_ok)
    then obtain n where n: "next_id rcps ''recipe_id'' = Inr n"
      using next_id_total by blast
    let ?new = "[''recipe_id'' \<mapsto> PInt n] ++ r"
    have new: "is_int_field ?new ''recipe_id''" "?new ''slug'' = Some slug"
      using r(1) slug by (simp_all add: new_row_id new_row_other)
    have run: "merge_recipe r st
        = Inr ((rcps @ [?new], by_slug(slug \<mapsto> ?new)), [AddedRecipe label n])"
      by (simp add: merge_recipe_def st slug label None n)
    have "plain_index_ok ''recipe_id'' (rcps @ [?new], by_slug(slug \<mapsto> ?new))"
      unfolding plain_index_ok_def using rows idx new by auto
    with run show ?thesis by blast
  next
    case (Some existing)
    with idx have "existing \<in> set rcps" by blast
    with rows obtain i where "existing ''recipe_id'' = Some (PInt i)"
      by (blast dest: is_int_fieldD)
    with Some have "merge_recipe r st = Inr ((rcps, by_slug), [SkippedRecipe slug (PInt i)])"
      by (simp add: merge_recipe_def st slug)
    with inv st show ?thesis by auto
  qed
qed

lemma merge_ingredient_step:
  assumes inv: "index_ok ''ingredient_id'' st"
    and r: "id_field_ok ''ingredient_id'' r" "r ''slug'' \<noteq> None" "r ''label'' \<noteq> None"
  shows "\<exists>st' ev. merge_ingredient r st = Inr (st', ev) \<and> index_ok ''ingredient_id'' st'"
proof -
  obtain ings by_slug where st: "st = (ings, by_slug)" by (cases st)
  from r obtain slug label where slug: "r ''slug'' = Some slug" and label: "r ''label'' = Some label"
    by auto
  from inv have rows: "\<forall>x \<in> set ings. is_int_field x ''ingredient_id'' \<and> x ''slug'' \<noteq> None
        \<and> x ''label'' \<noteq> None"
    and idx: "\<forall>k x. by_slug k = Some x \<longrightarrow> x \<in> set ings \<and> x ''slug'' = Some k"
    by (simp_all add: index_ok_def st)
  show ?thesis
  proof (cases "by_slug slug")
    case None
    from rows have "list_all (id_field_ok ''ingredient_id'') ings"
      by (simp add: list_all_iff is_int_field_ok)
    then obtain n where n: "next_id ings ''ingredient_id'' = Inr n"
      using next_id_total by blast
    let ?new = "[''ingredient_id'' \<mapsto> PInt n] ++ r"
    have new: "is_int_field ?new ''ingredient_id''" "?new ''slug'' = Some slug"
        "?new ''label'' = Some label"
      using r(1) slug label by (simp_all add: new_row_id new_row_other)
    have run: "merge_ingredient r st
        = Inr ((ings @ [?new], by_slug(slug \<mapsto> ?new)), [AddedIngredient label n])"
      by (simp add: merge_ingredient_def st slug label None n)
    have "index_ok ''ingredient_id'' (ings @ [?new], by_slug(slug \<mapsto> ?new))"
      unfolding index_ok_def using rows idx new by auto
    with run show ?thesis by blast
  next
    case (Some existing)
    with idx have "existing \<in> set ings" by blast
    with rows obtain i l where "existing ''ingredient_id'' = Some (PInt i)"
        "existing ''label'' = Some l"
      by (blast dest: is_int_fieldD)
    with Some have "\<exists>ev. merge_ingredient r st = Inr ((ings, by_slug), ev)"
      by (simp add: merge_ingredient_def st slug label)
    with inv st show ?thesis by auto
  qed
qed

lemma merge_recipe_dom:
  "merge_recipe r (rcps, by_slug) = Inr ((rcps', by_slug'), ev) \<Longrightarrow>
   \<exists>s. r ''slug'' = Some s \<and> dom by_slug' = insert s (dom by_slug)"
  by (auto simp: merge_recipe_def ebind_eq_Inr split: option.splits)

lemma merge_ingredient_dom:
  "merge_ingredient r (ings, by_slug) = Inr ((ings', by_slug'), ev) \<Longrightarrow>
   \<exists>s. r ''slug'' = Some s \<and> dom by_slug' = insert s (dom by_slug)"
  by (auto simp: merge_ingredient_def ebind_eq_Inr split: option.splits)

lemma run_items_dom:
  assumes step: "\<And>r rows by_slug rows' by_slug' ev.
      step r (rows, by_slug) = Inr ((rows', by_slug'), ev) \<Longrightarrow>
      \<exists>s. r ''slug'' = Some s \<and> dom by_slug' = insert s (dom by_slug)"
  shows "run_items step xs (rows, by_slug) = Inr ((rows', by_slug'), evs) \<Longrightarrow>
   dom by_slug' = dom by_slug \<union> {s. \<exists>x \<in> set xs. x ''slug'' = Some s}"
proof (induction xs arbitrary: rows by_slug evs)
  case Nil
  then show ?case by simp
next
  case (Cons x xs)
  from Cons.prems obtain rows1 by1 ev evs1 where
    s1: "step x (rows, by_slug) = Inr ((rows1, by1), ev)"
    and r1: "run_items step xs (rows1, by1) = Inr ((rows', by_slug'), evs1)"
    unfolding run_items_Cons_Inr by auto
  from step [OF s1] obtain s where s: "x ''slug'' = Some s" "dom by1 = insert s (dom by_slug)"
    by blast
  from Cons.IH [OF r1] s show ?case by auto
qed

lemma idx_into_dom:
  "idx_into m xs key = Inr m' \<Longrightarrow> dom m' = dom m \<union> {k. \<exists>x \<in> set xs. x key = Some k}"
proof (induction xs arbitrary: m)
  case Nil
  then show ?case by simp
next
  case (Cons x xs)
  from Cons.prems obtain k where k: "x key = Some k"
    and r: "idx_into (m(k \<mapsto> x)) xs key = Inr m'"
    by (auto simp: ebind_eq_Inr)
  from Cons.IH [OF r] k show ?case by (auto split: if_splits)
qed

lemma idx_into_key:
  "idx_into m xs key = Inr m' \<Longrightarrow> m' k = Some r \<Longrightarrow> (r \<in> set xs \<and> r key = Some k) \<or> m k = Some r"
proof (induction xs arbitrary: m)
  case Nil
  then show ?case by simp
next
  case (Cons x xs)
  from Cons.prems(1) obtain k' where k': "x key = Some k'"
    and r: "idx_into (m(k' \<mapsto> x)) xs key = Inr m'"
    by (auto simp: ebind_eq_Inr)
  from Cons.IH [OF r Cons.prems(2)] k' show ?case by (auto split: if_splits)
qed

lemma idx_by_dom: "idx_by xs key = Inr m' \<Longrightarrow> dom m' = {k. \<exists>x \<in> set xs. x key = Some k}"
  unfolding idx_by_def by (drule idx_into_dom) simp

lemma idx_by_key: "idx_by xs key = Inr m' \<Longrightarrow> m' k = Some r \<Longrightarrow> r \<in> set xs \<and> r key = Some k"
  unfolding idx_by_def by (drule idx_into_key) auto

lemma alias_keys_total:
  "\<forall>a \<in> set xs. a ''ingredient_id'' \<noteq> None \<and> a ''variant_label'' \<noteq> None \<Longrightarrow>
   \<exists>ks. alias_keys xs = Inr ks"
  by (induction xs) auto

lemma entry_keys_total:
  "\<forall>e \<in> set xs. e ''recipe_id'' \<noteq> None \<and> e ''ingredient_id'' \<noteq> None \<Longrightarrow>
   \<exists>ks. entry_keys xs = Inr ks"
  by (induction xs) auto

lemma or_empty_get_or: "or_empty (dict_get_or e k (PStr [])) = or_empty (dict_get e k)"
  by (simp add: dict_get_def dict_get_or_def or_empty_def split: option.splits)

lemma stored_as_own_tuple:
  "e ''recipe_id'' = Some rid \<Longrightarrow> e ''ingredient_id'' = Some iid \<Longrightarrow>
   stored_as (entry_tuple rid iid e) e"
  by (simp add: stored_as_def entry_tuple_def or_empty_get_or)

lemma entry_keys_stored:
  "entry_keys xs = Inr ks \<Longrightarrow> \<forall>k \<in> set ks. \<exists>row \<in> set xs. stored_as k row"
proof (induction xs arbitrary: ks)
  case Nil
  then show ?case by simp
next
  case (Cons e xs)
  from Cons.prems obtain rid iid ks' where
    e: "e ''recipe_id'' = Some rid" "e ''ingredient_id'' = Some iid"
    and r: "entry_keys xs = Inr ks'" and ks: "ks = entry_tuple rid iid e # ks'"
    by (auto simp: ebind_eq_Inr)
  from Cons.IH [OF r] stored_as_own_tuple [OF e] show ?case unfolding ks by auto
qed

lemma new_entry_stored:
  "stored_as (entry_tuple rid iid e) (new_entry n rid iid e ts by)"
  by (auto simp: stored_as_def entry_tuple_def stored_fields dict_get_def dict_get_or_def
      or_empty_def split: option.splits)

lemma new_entry_id_ok: "id_field_ok ''entry_id'' (new_entry n rid iid e ts by)"
  by (simp add: id_field_ok_def stored_fields)

lemma merge_alias_step:
  assumes inv: "\<forall>x \<in> set (fst st). id_field_ok ''alias_id'' x"
    and idx: "\<forall>k x. by_slug k = Some x \<longrightarrow> x ''ingredient_id'' \<noteq> None \<and> x ''slug'' \<noteq> None"
    and a: "a ''ingredient_slug'' \<noteq> None" "a ''variant_label'' \<noteq> None"
  shows "\<exists>st' ev. merge_alias by_slug a st = Inr (st', ev)
           \<and> (\<forall>x \<in> set (fst st'). id_field_ok ''alias_id'' x)"
proof -
  obtain als seen where st: "st = (als, seen)" by (cases st)
  from a obtain slug v where slug: "a ''ingredient_slug'' = Some slug"
    and v: "a ''variant_label'' = Some v" by auto
  show ?thesis
  proof (cases "by_slug slug")
    case None
    with inv show ?thesis by (simp add: merge_alias_def st slug)
  next
    case (Some ing)
    with idx obtain iid islug where ing: "ing ''ingredient_id'' = Some iid" "ing ''slug'' = Some islug"
      by fastforce
    show ?thesis
    proof (cases "(iid, v) \<in> seen")
      case True
      with inv show ?thesis by (simp add: merge_alias_def st slug v Some ing)
    next
      case False
      from inv have "list_all (id_field_ok ''alias_id'') als"
        by (simp add: st list_all_iff)
      then obtain n where n: "next_id als ''alias_id'' = Inr n"
        using next_id_total by blast
      have "id_field_ok ''alias_id'' [''alias_id'' \<mapsto> PInt n, ''ingredient_id'' \<mapsto> iid,
          ''variant_label'' \<mapsto> v, ''language'' \<mapsto> dict_get a ''language'',
          ''source'' \<mapsto> dict_get a ''source'']"
        by (simp add: id_field_ok_def)
      with inv False show ?thesis by (simp add: merge_alias_def st slug v Some ing n)
    qed
  qed
qed

lemma merge_entry_unknown:
  assumes "e ''recipe_slug'' = Some rslug" "e ''ingredient_slug'' = Some islug"
    and "rby rslug = None \<or> iby islug = None"
  shows "merge_entry clock added_by rby iby e st
     = Inr (st, [if rby rslug = None then UnknownEntryRecipe rslug
                 else UnknownEntryIngredient islug])"
  using assms by (cases st) (auto simp: merge_entry_def split: option.splits)

lemma merge_entry_step:
  assumes inv: "\<forall>x \<in> set (fst st). id_field_ok ''entry_id'' x"
    and ridx: "\<forall>k x. rby k = Some x \<longrightarrow> x ''recipe_id'' \<noteq> None \<and> x ''slug'' \<noteq> None"
    and iidx: "\<forall>k x. iby k = Some x \<longrightarrow> x ''ingredient_id'' \<noteq> None \<and> x ''slug'' \<noteq> None"
    and e: "e ''recipe_slug'' \<noteq> None" "e ''ingredient_slug'' \<noteq> None"
  shows "\<exists>st' ev. merge_entry clock added_by rby iby e st = Inr (st', ev)
           \<and> (\<forall>x \<in> set (fst st'). id_field_ok ''entry_id'' x)"
proof -
  obtain ents seen n where st: "st = (ents, seen, n)" by (cases st)
  from e obtain rslug islug where slugs: "e ''recipe_slug'' = Some rslug"
      "e ''ingredient_slug'' = Some islug" by auto
  show ?thesis
  proof (cases "rby rslug = None \<or> iby islug = None")
    case True
    from merge_entry_unknown [where e = e and rby = rby and iby = iby and st = st
        and clock = clock and added_by = added_by, OF slugs True] inv
    show ?thesis by auto
  next
    case False
    then obtain r i where r: "rby rslug = Some r" and i: "iby islug = Some i" by auto
    from r ridx obtain rid rs where rf: "r ''recipe_id'' = Some rid" "r ''slug'' = Some rs"
      by fastforce
    from i iidx obtain iid igs where "if": "i ''ingredient_id'' = Some iid" "i ''slug'' = Some igs"
      by fastforce
    show ?thesis
    proof (cases "entry_tuple rid iid e \<in> seen")
      case True
      with inv show ?thesis by (simp add: merge_entry_def st slugs r i rf "if")
    next
      case False
      from inv have "list_all (id_field_ok ''entry_id'') ents"
        by (simp add: st list_all_iff)
      then obtain m where m: "next_id ents ''entry_id'' = Inr m"
        using next_id_total by blast
      from inv False show ?thesis
        by (simp add: merge_entry_def st slugs r i rf "if" m new_entry_id_ok)
    qed
  qed
qed

lemma merge_entry_covers:
  assumes run: "merge_entry clock added_by rby iby e (ents, seen, n) = Inr ((ents', seen', n'), ev)"
    and cov: "\<forall>k \<in> seen. \<exists>row \<in> set ents. stored_as k row"
  shows "(\<forall>k \<in> seen'. \<exists>row \<in> set ents'. stored_as k row) \<and> seen \<subseteq> seen'
       \<and> (\<forall>rslug islug r i rid iid.
            e ''recipe_slug'' = Some rslug \<and> e ''ingredient_slug'' = Some islug
            \<and> rby rslug = Some r \<and> iby islug = Some i
            \<and> r ''recipe_id'' = Some rid \<and> i ''ingredient_id'' = Some iid
            \<longrightarrow> entry_tuple rid iid e \<in> seen')"
proof -
  from run obtain rslug islug where slugs: "e ''recipe_slug'' = Some rslug"
      "e ''ingredient_slug'' = Some islug"
    by (auto simp: merge_entry_def ebind_eq_Inr)
  show ?thesis
  proof (cases "rby rslug = None \<or> iby islug = None")
    case True
    from run merge_entry_unknown [where e = e and rby = rby and iby = iby
        and st = "(ents, seen, n)" and clock = clock and added_by = added_by, OF slugs True]
    have "ents' = ents" "seen' = seen" by simp_all
    with cov slugs True show ?thesis by auto
  next
    case False
    then obtain r i where r: "rby rslug = Some r" and i: "iby islug = Some i" by auto
    from run slugs r i obtain rid iid where ids: "r ''recipe_id'' = Some rid"
        "i ''ingredient_id'' = Some iid"
      by (auto simp: merge_entry_def ebind_eq_Inr)
    show ?thesis
    proof (cases "entry_tuple rid iid e \<in> seen")
      case True
      with run slugs r i ids have "ents' = ents" "seen' = seen"
        by (auto simp: merge_entry_def ebind_eq_Inr)
      with cov slugs r i ids True show ?thesis by auto
    next
      case False
      with run slugs r i ids obtain m where
        "ents' = ents @ [new_entry m rid iid e (clock n) added_by]"
        "seen' = insert (entry_tuple rid iid e) seen"
        by (auto simp: merge_entry_def ebind_eq_Inr)
      with cov slugs r i ids new_entry_stored [of rid iid e m "clock n" added_by]
      show ?thesis by auto
    qed
  qed
qed

lemma merge_entries_cover:
  assumes "run_items (merge_entry clock added_by rby iby) xs (ents, seen, n)
             = Inr ((ents', seen', n'), evs)"
    and "\<forall>k \<in> seen. \<exists>row \<in> set ents. stored_as k row"
  shows "(\<forall>k \<in> seen'. \<exists>row \<in> set ents'. stored_as k row) \<and> seen \<subseteq> seen'
       \<and> (\<forall>e \<in> set xs. \<forall>rslug islug r i rid iid.
            e ''recipe_slug'' = Some rslug \<and> e ''ingredient_slug'' = Some islug
            \<and> rby rslug = Some r \<and> iby islug = Some i
            \<and> r ''recipe_id'' = Some rid \<and> i ''ingredient_id'' = Some iid
            \<longrightarrow> entry_tuple rid iid e \<in> seen')"
  using assms
proof (induction xs arbitrary: ents seen n evs)
  case Nil
  then show ?case by simp
next
  case (Cons x xs)
  from Cons.prems(1) obtain ents1 seen1 n1 ev evs1 where
    s1: "merge_entry clock added_by rby iby x (ents, seen, n) = Inr ((ents1, seen1, n1), ev)"
    and r1: "run_items (merge_entry clock added_by rby iby) xs (ents1, seen1, n1)
               = Inr ((ents', seen', n'), evs1)"
    unfolding run_items_Cons_Inr by auto
  note a = merge_entry_covers [OF s1 Cons.prems(2)]
  from a have cov1: "\<forall>k \<in> seen1. \<exists>row \<in> set ents1. stored_as k row" by blast
  note b = Cons.IH [OF r1 cov1]
  from a b show ?case
    apply (intro conjI)
      apply blast
     apply blast
    apply (simp only: list.set ball_simps)
    apply (intro conjI)
     apply blast
    apply blast
    done
qed

lemma slug_known_iff: "slug_known rows s \<longleftrightarrow> (\<exists>x \<in> set rows. x ''slug'' = Some s)"
  by (simp add: slug_known_def list_ex_iff)

lemma stored_as_matches:
  assumes "stored_as (entry_tuple rid iid e) row"
    and "r ''slug'' = Some rs" "e ''recipe_slug'' = Some rs"
    and "i ''slug'' = Some igs" "e ''ingredient_slug'' = Some igs"
  shows "entry_matches r i row e = Inr True"
  using assms
  by (simp add: entry_matches_def stored_as_def entry_tuple_def or_empty_get_or)

lemma merge_recipes_dom:
  assumes "run_items merge_recipe xs (rows, by_slug) = Inr ((rows', by_slug'), evs)"
  shows "dom by_slug' = dom by_slug \<union> {s. \<exists>x \<in> set xs. x ''slug'' = Some s}"
  using assms by (rule run_items_dom [rotated]) (erule merge_recipe_dom)

lemma merge_ingredients_dom:
  assumes "run_items merge_ingredient xs (rows, by_slug) = Inr ((rows', by_slug'), evs)"
  shows "dom by_slug' = dom by_slug \<union> {s. \<exists>x \<in> set xs. x ''slug'' = Some s}"
  using assms by (rule run_items_dom [rotated]) (erule merge_ingredient_dom)

text \<open>
  C4. On rows that carry the fields the merge reads, the merge raises nothing and the
  script exits with status 0. An entry whose recipe or ingredient slug is neither in
  the corpus nor in the diff is dropped with an error line in the report: the merged
  corpus is the one that the diff without these entries gives. Every other entry of the
  diff is then in the corpus: some stored entry of its recipe and ingredient matches it
  as entries are matched by the removal pass.
\<close>

theorem merge_drops_unresolved:
  assumes ready: "merge_ready master diff"
  shows "\<exists>m' log.
      merge clock added_by master diff = Inr (m', log)
    \<and> merge_exit clock added_by master diff = 0
    \<and> (\<exists>log'. merge clock added_by master
                 (diff\<lparr>entries := filter (entry_resolves master diff) (entries diff)\<rparr>)
               = Inr (m', log'))
    \<and> (\<forall>e \<in> set (entries diff). \<not> entry_resolves master diff e \<longrightarrow>
          UnknownEntryRecipe (dict_get e ''recipe_slug'') \<in> set log
          \<or> UnknownEntryIngredient (dict_get e ''ingredient_slug'') \<in> set log)
    \<and> (\<forall>e \<in> set (entries diff). entry_resolves master diff e \<longrightarrow>
          (\<exists>r \<in> set (recipes m'). \<exists>i \<in> set (ingredients m'). \<exists>row \<in> set (entries m').
             row ''recipe_id'' = r ''recipe_id'' \<and> row ''ingredient_id'' = i ''ingredient_id''
             \<and> entry_matches r i row e = Inr True))"
proof -
  from ready have
    mr: "\<forall>x \<in> set (recipes master). is_int_field x ''recipe_id'' \<and> x ''slug'' \<noteq> None" and
    mi: "\<forall>x \<in> set (ingredients master). is_int_field x ''ingredient_id'' \<and> x ''slug'' \<noteq> None
           \<and> x ''label'' \<noteq> None" and
    ma: "\<forall>x \<in> set (aliases master). id_field_ok ''alias_id'' x \<and> x ''ingredient_id'' \<noteq> None
           \<and> x ''variant_label'' \<noteq> None" and
    me: "\<forall>x \<in> set (entries master). id_field_ok ''entry_id'' x \<and> x ''recipe_id'' \<noteq> None
           \<and> x ''ingredient_id'' \<noteq> None" and
    dr: "\<forall>x \<in> set (recipes diff). id_field_ok ''recipe_id'' x \<and> x ''slug'' \<noteq> None
           \<and> x ''label'' \<noteq> None" and
    di: "\<forall>x \<in> set (ingredients diff). id_field_ok ''ingredient_id'' x \<and> x ''slug'' \<noteq> None
           \<and> x ''label'' \<noteq> None" and
    da: "\<forall>x \<in> set (aliases diff). x ''ingredient_slug'' \<noteq> None \<and> x ''variant_label'' \<noteq> None" and
    de: "\<forall>x \<in> set (entries diff). x ''recipe_slug'' \<noteq> None \<and> x ''ingredient_slug'' \<noteq> None"
    by (simp_all add: merge_ready_def list_all_iff)
  \<comment> \<open>the two slug indexes\<close>
  from mr obtain rby0 where rby0: "idx_by (recipes master) ''slug'' = Inr rby0"
    using idx_by_total [of "recipes master" "''slug''"] by auto
  from mi obtain iby0 where iby0: "idx_by (ingredients master) ''slug'' = Inr iby0"
    using idx_by_total [of "ingredients master" "''slug''"] by auto
  have r0: "plain_index_ok ''recipe_id'' (recipes master, rby0)"
    unfolding plain_index_ok_def using mr idx_by_key [OF rby0] by auto
  have i0: "index_ok ''ingredient_id'' (ingredients master, iby0)"
    unfolding index_ok_def using mi idx_by_key [OF iby0] by auto
  \<comment> \<open>steps 1 and 2\<close>
  have step1: "\<exists>st' ev. merge_recipe x st = Inr (st', ev) \<and> plain_index_ok ''recipe_id'' st'"
    if "x \<in> set (recipes diff)" "plain_index_ok ''recipe_id'' st" for x st
  proof -
    from that(1) dr have "id_field_ok ''recipe_id'' x" "x ''slug'' \<noteq> None" "x ''label'' \<noteq> None"
      by blast+
    with that(2) show ?thesis by (rule merge_recipe_step)
  qed
  have "\<exists>st' evs. run_items merge_recipe (recipes diff) (recipes master, rby0) = Inr (st', evs)
          \<and> plain_index_ok ''recipe_id'' st'"
    using step1 r0 by (rule run_items_total [where I = "plain_index_ok ''recipe_id''"])
  then obtain rcps rby log1 where
    run1: "run_items merge_recipe (recipes diff) (recipes master, rby0) = Inr ((rcps, rby), log1)"
    and r1: "plain_index_ok ''recipe_id'' (rcps, rby)"
    by auto
  have step2: "\<exists>st' ev. merge_ingredient x st = Inr (st', ev) \<and> index_ok ''ingredient_id'' st'"
    if "x \<in> set (ingredients diff)" "index_ok ''ingredient_id'' st" for x st
  proof -
    from that(1) di have "id_field_ok ''ingredient_id'' x" "x ''slug'' \<noteq> None"
        "x ''label'' \<noteq> None"
      by blast+
    with that(2) show ?thesis by (rule merge_ingredient_step)
  qed
  have "\<exists>st' evs. run_items merge_ingredient (ingredients diff) (ingredients master, iby0)
          = Inr (st', evs) \<and> index_ok ''ingredient_id'' st'"
    using step2 i0 by (rule run_items_total [where I = "index_ok ''ingredient_id''"])
  then obtain ings iby log2 where
    run2: "run_items merge_ingredient (ingredients diff) (ingredients master, iby0)
             = Inr ((ings, iby), log2)"
    and i1: "index_ok ''ingredient_id'' (ings, iby)"
    by auto
  from r1 have rrows: "\<forall>x \<in> set rcps. is_int_field x ''recipe_id'' \<and> x ''slug'' \<noteq> None"
    and ridx: "\<forall>k x. rby k = Some x \<longrightarrow> x \<in> set rcps \<and> x ''slug'' = Some k"
    by (simp_all add: plain_index_ok_def)
  from i1 have irows: "\<forall>x \<in> set ings. is_int_field x ''ingredient_id'' \<and> x ''slug'' \<noteq> None
        \<and> x ''label'' \<noteq> None"
    and iidx: "\<forall>k x. iby k = Some x \<longrightarrow> x \<in> set ings \<and> x ''slug'' = Some k"
    by (simp_all add: index_ok_def)
  have ridx': "\<forall>k x. rby k = Some x \<longrightarrow> x ''recipe_id'' \<noteq> None \<and> x ''slug'' \<noteq> None"
    using ridx rrows by (fastforce dest: is_int_fieldD)
  have iidx': "\<forall>k x. iby k = Some x \<longrightarrow> x ''ingredient_id'' \<noteq> None \<and> x ''slug'' \<noteq> None"
    using iidx irows by (fastforce dest: is_int_fieldD)
  have rdom: "dom rby = {s. \<exists>x \<in> set (recipes master @ recipes diff). x ''slug'' = Some s}"
    using merge_recipes_dom [OF run1] idx_by_dom [OF rby0]
    by auto
  have idom: "dom iby = {s. \<exists>x \<in> set (ingredients master @ ingredients diff). x ''slug'' = Some s}"
    using merge_ingredients_dom [OF run2] idx_by_dom [OF iby0]
    by auto
  \<comment> \<open>step 3\<close>
  from ma obtain aks where aks: "alias_keys (aliases master) = Inr aks"
    using alias_keys_total [of "aliases master"] by auto
  have step3: "\<exists>st' ev. merge_alias iby x st = Inr (st', ev)
        \<and> (\<forall>y \<in> set (fst st'). id_field_ok ''alias_id'' y)"
    if "x \<in> set (aliases diff)" "\<forall>y \<in> set (fst st). id_field_ok ''alias_id'' y" for x st
  proof -
    from that(1) da have "x ''ingredient_slug'' \<noteq> None" "x ''variant_label'' \<noteq> None"
      by blast+
    with that(2) iidx' show ?thesis by (rule merge_alias_step)
  qed
  have a0: "\<forall>y \<in> set (fst (aliases master, set aks)). id_field_ok ''alias_id'' y"
    using ma by simp
  have "\<exists>st' evs. run_items (merge_alias iby) (aliases diff) (aliases master, set aks)
          = Inr (st', evs) \<and> (\<forall>x \<in> set (fst st'). id_field_ok ''alias_id'' x)"
    using step3 a0
    by (rule run_items_total [where I = "\<lambda>st. \<forall>x \<in> set (fst st). id_field_ok ''alias_id'' x"])
  then obtain als seen_a log3 where
    run3: "run_items (merge_alias iby) (aliases diff) (aliases master, set aks)
             = Inr ((als, seen_a), log3)"
    by auto
  \<comment> \<open>step 4\<close>
  from me obtain eks where eks: "entry_keys (entries master) = Inr eks"
    using entry_keys_total [of "entries master"] by auto
  let ?step = "merge_entry clock added_by rby iby"
  have step4: "\<exists>st' ev. ?step x st = Inr (st', ev)
        \<and> (\<forall>y \<in> set (fst st'). id_field_ok ''entry_id'' y)"
    if "x \<in> set (entries diff)" "\<forall>y \<in> set (fst st). id_field_ok ''entry_id'' y" for x st
  proof -
    from that(1) de have "x ''recipe_slug'' \<noteq> None" "x ''ingredient_slug'' \<noteq> None"
      by blast+
    with that(2) ridx' iidx' show ?thesis by (rule merge_entry_step)
  qed
  have e0: "\<forall>y \<in> set (fst (entries master, set eks, 0::nat)). id_field_ok ''entry_id'' y"
    using me by simp
  have "\<exists>st' evs. run_items ?step (entries diff) (entries master, set eks, 0)
          = Inr (st', evs) \<and> (\<forall>x \<in> set (fst st'). id_field_ok ''entry_id'' x)"
    using step4 e0
    by (rule run_items_total [where I = "\<lambda>st. \<forall>x \<in> set (fst st). id_field_ok ''entry_id'' x"])
  then obtain ents seen_e n log4 where
    run4: "run_items ?step (entries diff) (entries master, set eks, 0)
             = Inr ((ents, seen_e, n), log4)"
    by (metis prod_cases3)
  define m' where "m' = \<lparr>recipes = rcps, ingredients = ings, aliases = als, entries = ents\<rparr>"
  have m'_fields: "recipes m' = rcps" "ingredients m' = ings" "entries m' = ents"
    by (simp_all add: m'_def)
  have run: "merge clock added_by master diff = Inr (m', log1 @ log2 @ log3 @ log4)"
    by (simp add: merge_def rby0 iby0 run1 run2 aks run3 eks run4 m'_def)
  then have exit: "merge_exit clock added_by master diff = 0"
    by (simp add: merge_exit_def)
  \<comment> \<open>an entry resolves exactly when both indexes know its slugs\<close>
  have res_iff: "entry_resolves master diff e \<longleftrightarrow>
      (\<exists>rs igs. e ''recipe_slug'' = Some rs \<and> e ''ingredient_slug'' = Some igs
         \<and> rs \<in> dom rby \<and> igs \<in> dom iby)" for e
    unfolding rdom idom
    by (auto simp: entry_resolves_def slug_known_iff split: option.splits)
  \<comment> \<open>the dropped entries change nothing\<close>
  have skip: "\<exists>ev. ?step e st = Inr (st, ev)"
    if "e \<in> set (entries diff)" "\<not> entry_resolves master diff e" for e st
  proof -
    from that(1) de obtain rs igs where s: "e ''recipe_slug'' = Some rs"
        "e ''ingredient_slug'' = Some igs" by auto
    with that(2) have "rby rs = None \<or> iby igs = None"
      unfolding res_iff by auto
    from merge_entry_unknown [where e = e and rby = rby and iby = iby and st = st
        and clock = clock and added_by = added_by, OF s this]
    show ?thesis by blast
  qed
  from run_items_filter [where P = "entry_resolves master diff" and step = ?step, OF skip run4]
  obtain log4' where run4': "run_items ?step (filter (entry_resolves master diff) (entries diff))
      (entries master, set eks, 0) = Inr ((ents, seen_e, n), log4')"
    by blast
  have filtered: "merge clock added_by master
      (diff\<lparr>entries := filter (entry_resolves master diff) (entries diff)\<rparr>)
      = Inr (m', log1 @ log2 @ log3 @ log4')"
    by (simp add: merge_def rby0 iby0 run1 run2 aks run3 eks run4' m'_def)
  \<comment> \<open>every dropped entry has its error line\<close>
  have errs: "UnknownEntryRecipe (dict_get e ''recipe_slug'') \<in> set (log1 @ log2 @ log3 @ log4)
          \<or> UnknownEntryIngredient (dict_get e ''ingredient_slug'') \<in> set (log1 @ log2 @ log3 @ log4)"
    if "e \<in> set (entries diff)" "\<not> entry_resolves master diff e" for e
  proof -
    from that(1) de obtain rs igs where s: "e ''recipe_slug'' = Some rs"
        "e ''ingredient_slug'' = Some igs" by auto
    with that(2) have un: "rby rs = None \<or> iby igs = None"
      unfolding res_iff by auto
    let ?ev = "if rby rs = None then UnknownEntryRecipe rs else UnknownEntryIngredient igs"
    have "?ev \<in> set log4"
    proof (rule run_items_event [OF run4 that(1)])
      fix s0 s' ev
      assume "?step e s0 = Inr (s', ev)"
      with merge_entry_unknown [where e = e and rby = rby and iby = iby and st = s0
          and clock = clock and added_by = added_by, OF s un]
      show "?ev \<in> set ev" by simp
    qed
    with s show ?thesis by (auto simp: dict_get_def dict_get_or_def split: if_splits)
  qed
  \<comment> \<open>every other entry is in the corpus\<close>
  have cov0: "\<forall>k \<in> set eks. \<exists>row \<in> set (entries master). stored_as k row"
    by (rule entry_keys_stored [OF eks])
  note cover = merge_entries_cover [OF run4 cov0]
  have kept: "\<exists>r \<in> set rcps. \<exists>i \<in> set ings. \<exists>row \<in> set ents.
             row ''recipe_id'' = r ''recipe_id'' \<and> row ''ingredient_id'' = i ''ingredient_id''
             \<and> entry_matches r i row e = Inr True"
    if "e \<in> set (entries diff)" "entry_resolves master diff e" for e
  proof -
    from that(2) obtain rs igs r i where s: "e ''recipe_slug'' = Some rs"
        "e ''ingredient_slug'' = Some igs" and r: "rby rs = Some r" and i: "iby igs = Some i"
      unfolding res_iff by auto
    from r ridx have rmem: "r \<in> set rcps" and rslug: "r ''slug'' = Some rs" by auto
    from i iidx have imem: "i \<in> set ings" and islug: "i ''slug'' = Some igs" by auto
    from rmem rrows obtain rid where rid: "r ''recipe_id'' = Some rid"
      by (blast dest: is_int_fieldD)
    from imem irows obtain iid where iid: "i ''ingredient_id'' = Some iid"
      by (blast dest: is_int_fieldD)
    from cover that(1) s r i rid iid have "entry_tuple rid iid e \<in> seen_e" by blast
    with cover obtain row where row: "row \<in> set ents" "stored_as (entry_tuple rid iid e) row"
      by blast
    from row(2) have ids: "row ''recipe_id'' = Some rid" "row ''ingredient_id'' = Some iid"
      by (simp_all add: stored_as_def entry_tuple_def)
    have "entry_matches r i row e = Inr True"
      using row(2) rslug s(1) islug s(2) by (rule stored_as_matches)
    then have "row ''recipe_id'' = r ''recipe_id'' \<and> row ''ingredient_id'' = i ''ingredient_id''
        \<and> entry_matches r i row e = Inr True"
      using ids rid iid by simp
    with rmem imem row(1) show ?thesis by blast
  qed
  show ?thesis
    apply (rule exI [of _ m'])
    apply (rule exI [of _ "log1 @ log2 @ log3 @ log4"])
    apply (intro conjI ballI impI)
        apply (rule run)
       apply (rule exit)
      apply (rule exI, rule filtered)
     apply (erule (1) errs)
    apply (unfold m'_fields)
    apply (erule (1) kept)
    done
qed

lemma scenario_entry_fields:
  "good_entry ''recipe_slug'' = Some (PStr ''kyphi-28'')"
  "good_entry ''ingredient_slug'' = Some (PStr ''honey'')"
  "lost_entry ''recipe_slug'' = Some (PStr ''kyphi-28'')"
  "lost_entry ''ingredient_slug'' = Some (PStr ''unobtainium'')"
  by (simp_all add: good_entry_def lost_entry_def)

lemma unobtainium_ready: "merge_ready bare_master unobtainium_diff"
  by (simp add: merge_ready_def bare_master_def unobtainium_diff_def is_int_field_def
      kyphi_recipe_def honey_ingredient_def good_entry_def lost_entry_def)

lemma lost_entry_unresolved: "\<not> entry_resolves bare_master unobtainium_diff lost_entry"
  by (simp add: entry_resolves_def slug_known_def bare_master_def unobtainium_diff_def
      scenario_entry_fields honey_ingredient_def)

lemma unobtainium_lost_step:
  "merge_entry clock added_by [PStr ''kyphi-28'' \<mapsto> kyphi_recipe] [PStr ''honey'' \<mapsto> honey_ingredient]
     lost_entry st = Inr (st, [UnknownEntryIngredient (PStr ''unobtainium'')])"
  by (cases st) (simp add: merge_entry_def scenario_entry_fields)

lemma unobtainium_good_step:
  "merge_entry clock added_by [PStr ''kyphi-28'' \<mapsto> kyphi_recipe] [PStr ''honey'' \<mapsto> honey_ingredient]
     good_entry ([], {}, 0)
   = Inr (([new_entry 1 (PInt 1) (PInt 1) good_entry (clock 0) added_by],
           {entry_tuple (PInt 1) (PInt 1) good_entry}, Suc 0),
          [AddedEntry (PStr ''kyphi-28'') (PStr ''honey'') 1])"
  by (simp add: merge_entry_def scenario_entry_fields kyphi_fields next_id_def)

lemma unobtainium_merge:
  "merge clock added_by bare_master unobtainium_diff
     = Inr (bare_master\<lparr>entries := [new_entry 1 (PInt 1) (PInt 1) good_entry (clock 0) added_by]\<rparr>,
            [UnknownEntryIngredient (PStr ''unobtainium''),
             AddedEntry (PStr ''kyphi-28'') (PStr ''honey'') 1])"
  by (simp add: merge_def bare_master_def unobtainium_diff_def bare_indexes
      unobtainium_lost_step unobtainium_good_step)

theorem merge_drops_unresolved_witness:
  "merge_ready bare_master unobtainium_diff
   \<and> \<not> entry_resolves bare_master unobtainium_diff lost_entry
   \<and> merge_exit noon ''gpt'' bare_master unobtainium_diff = 0
   \<and> (\<exists>m' log. merge noon ''gpt'' bare_master unobtainium_diff = Inr (m', log)
         \<and> UnknownEntryIngredient (PStr ''unobtainium'') \<in> set log
         \<and> entries m' = [new_entry 1 (PInt 1) (PInt 1) good_entry (noon 0) ''gpt''])"
proof -
  from merge_drops_unresolved [OF unobtainium_ready, of noon "''gpt''"] obtain m' log where
    run: "merge noon ''gpt'' bare_master unobtainium_diff = Inr (m', log)"
    and exit: "merge_exit noon ''gpt'' bare_master unobtainium_diff = 0"
    and errs: "\<forall>e \<in> set (entries unobtainium_diff).
        \<not> entry_resolves bare_master unobtainium_diff e \<longrightarrow>
          UnknownEntryRecipe (dict_get e ''recipe_slug'') \<in> set log
          \<or> UnknownEntryIngredient (dict_get e ''ingredient_slug'') \<in> set log"
    by blast
  from run unobtainium_merge [of noon "''gpt''"] have
    m': "m' = bare_master\<lparr>entries := [new_entry 1 (PInt 1) (PInt 1) good_entry (noon 0) ''gpt'']\<rparr>"
    and log: "log = [UnknownEntryIngredient (PStr ''unobtainium''),
                     AddedEntry (PStr ''kyphi-28'') (PStr ''honey'') 1]"
    by simp_all
  have "lost_entry \<in> set (entries unobtainium_diff)"
    by (simp add: unobtainium_diff_def)
  with errs lost_entry_unresolved have
    "UnknownEntryRecipe (dict_get lost_entry ''recipe_slug'') \<in> set log
     \<or> UnknownEntryIngredient (dict_get lost_entry ''ingredient_slug'') \<in> set log"
    by blast
  then have "UnknownEntryIngredient (PStr ''unobtainium'') \<in> set log"
    by (simp add: log dict_get_def dict_get_or_def scenario_entry_fields)
  moreover from m' have "entries m' = [new_entry 1 (PInt 1) (PInt 1) good_entry (noon 0) ''gpt'']"
    by simp
  ultimately show ?thesis
    using unobtainium_ready lost_entry_unresolved exit run by blast
qed

section \<open>Properties of the exact clustering strategy\<close>

lemma juniper_fields:
  "juniper_berry ''ingredient_id'' = Some (PInt 1)"
  "juniper_berry ''slug'' = Some (PStr ''juniper-berry'')"
  "juniper_berry ''label'' = Some (PStr ''arkeuthis'')"
  "juniper_berry ''language'' = Some (PStr ''grc'')"
  "juniper_wood ''ingredient_id'' = Some (PInt 2)"
  "juniper_wood ''slug'' = Some (PStr ''juniper-wood'')"
  "juniper_wood ''label'' = Some (PStr ''wan'')"
  "juniper_wood ''language'' = Some (PStr ''egy'')"
  by (simp_all add: juniper_berry_def juniper_wood_def)

lemma en_alias_fields:
  "en_alias aid iid v ''language'' = Some (PStr ''en'')"
  "en_alias aid iid v ''variant_label'' = Some (PStr v)"
  "en_alias aid iid v ''ingredient_id'' = Some (PInt iid)"
  by (simp_all add: en_alias_def)

lemma juniper_norms:
  "py_strip (py_lower ''Juniper'') = ''juniper''"
  "py_strip (py_lower ''juniper '') = ''juniper''"
  "py_strip (py_lower ''juniper'') = ''juniper''"
  by (simp_all add: py_strip_def py_lower_def lower_char_def is_space_def)

lemma one_juniper_collected:
  "collect_english [PInt 1 \<mapsto> juniper_berry]
     [en_alias 1 1 ''Juniper'', en_alias 2 1 ''juniper ''] []
   = Inr [(''juniper'',
       [\<lparr>mb_slug = PStr ''juniper-berry'', mb_label = PStr ''arkeuthis'', mb_language = PStr ''grc''\<rparr>,
        \<lparr>mb_slug = PStr ''juniper-berry'', mb_label = PStr ''arkeuthis'', mb_language = PStr ''grc''\<rparr>])]"
  by (simp add: dict_get_def dict_get_or_def en_alias_fields juniper_fields juniper_norms)

lemma juniper_indexes:
  "idx_by [juniper_berry] ''ingredient_id'' = Inr [PInt 1 \<mapsto> juniper_berry]"
  "idx_by [juniper_berry, juniper_wood] ''ingredient_id''
     = Inr [PInt 1 \<mapsto> juniper_berry, PInt 2 \<mapsto> juniper_wood]"
  by (simp_all add: idx_by_def juniper_fields)

lemma one_juniper_groups:
  "sorted_desc (\<lambda>g. length (g_ingredients g))
     (make_groups [(''juniper'', [\<lparr>mb_slug = PStr ''juniper-berry'', mb_label = PStr ''arkeuthis'', mb_language = PStr ''grc''\<rparr>,
        \<lparr>mb_slug = PStr ''juniper-berry'', mb_label = PStr ''arkeuthis'', mb_language = PStr ''grc''\<rparr>])])
   = [\<lparr>canonical_name = ''juniper'', confidence = ''high'',
             g_ingredients = [PStr ''arkeuthis'', PStr ''arkeuthis''],
             slugs = [PStr ''juniper-berry'', PStr ''juniper-berry''],
             languages = {PStr ''grc''}, auto_generated = True\<rparr>]"
  by (simp add: make_groups_def make_group_def sorted_desc_def)

text \<open>
  C8. A single ingredient with two English aliases that normalise to the same string
  gets an equivalence group of its own, with its slug twice: the test
  \<^verbatim>\<open>len(ingredient_list) > 1\<close> counts alias rows, not ingredients.
\<close>

theorem one_ingredient_makes_group:
  "generate_equivalences one_juniper
     = Inr [\<lparr>canonical_name = ''juniper'', confidence = ''high'',
             g_ingredients = [PStr ''arkeuthis'', PStr ''arkeuthis''],
             slugs = [PStr ''juniper-berry'', PStr ''juniper-berry''],
             languages = {PStr ''grc''}, auto_generated = True\<rparr>]"
  by (simp only: generate_equivalences_def one_juniper_def store.select_convs juniper_indexes
      ebind_simps one_juniper_collected one_juniper_groups)

lemma two_junipers_collected:
  "collect_english [PInt 1 \<mapsto> juniper_berry, PInt 2 \<mapsto> juniper_wood]
     [en_alias 1 1 ''juniper'', en_alias 2 2 ''juniper''] []
   = Inr [(''juniper'',
       [\<lparr>mb_slug = PStr ''juniper-berry'', mb_label = PStr ''arkeuthis'', mb_language = PStr ''grc''\<rparr>,
        \<lparr>mb_slug = PStr ''juniper-wood'', mb_label = PStr ''wan'', mb_language = PStr ''egy''\<rparr>])]"
  by (simp add: dict_get_def dict_get_or_def en_alias_fields juniper_fields juniper_norms)

lemma two_junipers_groups:
  "sorted_desc (\<lambda>g. length (g_ingredients g))
     (make_groups [(''juniper'', [\<lparr>mb_slug = PStr ''juniper-berry'', mb_label = PStr ''arkeuthis'', mb_language = PStr ''grc''\<rparr>,
        \<lparr>mb_slug = PStr ''juniper-wood'', mb_label = PStr ''wan'', mb_language = PStr ''egy''\<rparr>])])
   = [\<lparr>canonical_name = ''juniper'', confidence = ''high'',
             g_ingredients = [PStr ''arkeuthis'', PStr ''wan''],
             slugs = [PStr ''juniper-berry'', PStr ''juniper-wood''],
             languages = {PStr ''grc'', PStr ''egy''}, auto_generated = True\<rparr>]"
  by (simp add: make_groups_def make_group_def sorted_desc_def)

text \<open>
  Scenario D of the specification: two ingredients with the English alias juniper give
  one group juniper of confidence high with both slugs.
\<close>

lemma scenario_D:
  "generate_equivalences two_junipers
     = Inr [\<lparr>canonical_name = ''juniper'', confidence = ''high'',
             g_ingredients = [PStr ''arkeuthis'', PStr ''wan''],
             slugs = [PStr ''juniper-berry'', PStr ''juniper-wood''],
             languages = {PStr ''grc'', PStr ''egy''}, auto_generated = True\<rparr>]"
  by (simp only: generate_equivalences_def two_junipers_def store.select_convs juniper_indexes
      ebind_simps two_junipers_collected two_junipers_groups)

section \<open>Properties of the validator\<close>

lemma nameless_sections:
  "nameless_diff ''recipes'' = Some (Arr [[''label'' \<mapsto> PStr ''Kyphi'']])"
  "nameless_diff ''ingredients'' = Some (Arr [])"
  "nameless_diff ''aliases'' = Some (Arr [])"
  "nameless_diff ''entries'' = Some (Arr [])"
  by (simp_all add: nameless_diff_def)

lemma nameless_schema_errors:
  "validate_json_schema nameless_diff slug_label_schema = [MissingField ''recipes'' 0 ''slug'']"
  by (simp add: validate_json_schema_def section_errors_def nameless_sections
      slug_label_schema_def enumerate_eq_zip)

text \<open>
  C5. The validator does not return a verdict for every diff file with a structural
  error. On a diff whose only recipe lacks its slug the schema check records
  \<^verbatim>\<open>recipes[0] missing required field: slug\<close>, and step 3 then reads \<^verbatim>\<open>r["slug"]\<close> of that
  recipe: \<^verbatim>\<open>validate_diff\<close> raises \<^verbatim>\<open>KeyError\<close> and returns neither \<^verbatim>\<open>False\<close> nor the recorded
  error.
\<close>

theorem validate_raises_on_missing_slug:
  "validate_json_schema nameless_diff slug_label_schema = [MissingField ''recipes'' 0 ''slug'']
   \<and> validate_diff slug_label_schema nameless_diff = Inl (KeyError ''slug'')"
  by (simp add: nameless_schema_errors validate_diff_def nameless_sections has_len_def rows_of_def)

lemma count_le1_distinct: "(\<forall>s \<in> set xs. count_list xs s \<le> 1) \<longleftrightarrow> distinct xs"
proof (induction xs)
  case Nil
  then show ?case by simp
next
  case (Cons x xs)
  then show ?case by (auto simp: count_list_0_iff)
qed

lemma dupes_Nil: "dupes xs = [] \<longleftrightarrow> distinct xs"
proof -
  have "dupes xs = [] \<longleftrightarrow> (\<forall>s \<in> set xs. count_list xs s \<le> 1)"
    by (auto simp: dupes_def filter_empty_conv not_less)
  then show ?thesis using count_le1_distinct [of xs] by simp
qed

lemma collect_key_slugs:
  "\<forall>x \<in> set xs. x key \<noteq> None \<Longrightarrow> collect_key key xs = Inr (slugs_of key xs)"
  by (induction xs) (auto simp: slugs_of_def)

lemma entry_refs_slugs:
  "\<forall>e \<in> set es. has_keys [''recipe_slug'', ''ingredient_slug''] e \<Longrightarrow>
   entry_refs es = Inr (zip (slugs_of ''recipe_slug'' es) (slugs_of ''ingredient_slug'' es))"
  by (induction es) (auto simp: slugs_of_def)

lemma short_labels_total:
  "\<forall>x \<in> set xs. has_keys [''slug''] x \<and> is_str_field x ''label'' \<Longrightarrow>
   \<exists>short. short_labels least what xs = Inr short"
proof (induction xs)
  case Nil
  then show ?case by simp
next
  case (Cons x xs)
  then obtain short where "short_labels least what xs = Inr short" by auto
  moreover obtain s where "x ''label'' = Some (PStr s)" using Cons.prems is_str_fieldD by fastforce
  moreover obtain v where "x ''slug'' = Some v" using Cons.prems by auto
  ultimately show ?case by (simp add: py_len_def)
qed

lemma non_ascii_total:
  "\<forall>x \<in> set xs. has_keys [''slug''] x \<and> is_str_field x ''label'' \<Longrightarrow>
   \<exists>untagged. non_ascii_without_lang xs = Inr untagged"
proof (induction xs)
  case Nil
  then show ?case by simp
next
  case (Cons x xs)
  then obtain u where "non_ascii_without_lang xs = Inr u" by auto
  moreover obtain s where "x ''label'' = Some (PStr s)" using Cons.prems is_str_fieldD by fastforce
  moreover obtain v where "x ''slug'' = Some v" using Cons.prems by auto
  ultimately show ?case by (simp add: str_chars_def)
qed

lemma ready_section:
  "array_or_absent data section \<Longrightarrow>
   has_len (data section) = Inr () \<and> rows_of (data section) = Inr (section_rows data section)"
  by (auto simp: array_or_absent_def has_len_def rows_of_def section_rows_def
      split: option.splits tv.splits)

lemma section_errors_structural:
  "f \<in> set (section_errors data sch section) \<Longrightarrow> kind_of f = Structural"
proof (cases "data section")
  case None
  then show "f \<in> set (section_errors data sch section) \<Longrightarrow> kind_of f = Structural"
    by (simp add: section_errors_def)
next
  case (Some v)
  then show "f \<in> set (section_errors data sch section) \<Longrightarrow> kind_of f = Structural"
    by (cases v) (auto simp: section_errors_def)
qed

lemma schema_errors_structural:
  "f \<in> set (validate_json_schema data sch) \<Longrightarrow> kind_of f = Structural"
  using section_errors_structural by (auto simp: validate_json_schema_def)

lemma length_slugs_of [simp]: "length (slugs_of key xs) = length xs"
  by (simp add: slugs_of_def)

text \<open>
  On rows that carry the fields the validator reads, it returns; the verdict is
  \<^verbatim>\<open>True\<close> exactly when the schema check finds nothing, no recipe or ingredient slug is
  repeated and every alias and entry reference is a slug of the diff; the errors are
  structural, uniqueness or referential findings and the warnings and suggestions are
  quality findings.
\<close>

lemma validate_diff_verdict:
  assumes ready: "validator_ready data"
  shows "\<exists>res. validate_diff sch data = Inr res
     \<and> ok res = (errors res = [])
     \<and> (ok res \<longleftrightarrow>
          validate_json_schema data sch = []
          \<and> distinct (slugs_of ''slug'' (section_rows data ''recipes''))
          \<and> distinct (slugs_of ''slug'' (section_rows data ''ingredients''))
          \<and> set (slugs_of ''ingredient_slug'' (section_rows data ''aliases''))
              \<subseteq> set (slugs_of ''slug'' (section_rows data ''ingredients''))
          \<and> set (slugs_of ''recipe_slug'' (section_rows data ''entries''))
              \<subseteq> set (slugs_of ''slug'' (section_rows data ''recipes''))
          \<and> set (slugs_of ''ingredient_slug'' (section_rows data ''entries''))
              \<subseteq> set (slugs_of ''slug'' (section_rows data ''ingredients'')))
     \<and> list_all (\<lambda>f. kind_of f \<noteq> Quality) (errors res)
     \<and> list_all (\<lambda>f. kind_of f = Quality) (warnings res @ suggestions res)"
proof -
  let ?rcps = "section_rows data ''recipes''"
  let ?ings = "section_rows data ''ingredients''"
  let ?als = "section_rows data ''aliases''"
  let ?ents = "section_rows data ''entries''"
  from ready have arrays:
    "array_or_absent data ''recipes''" "array_or_absent data ''ingredients''"
    "array_or_absent data ''aliases''" "array_or_absent data ''entries''"
    by (simp_all add: validator_ready_def)
  note sections = arrays [THEN ready_section, THEN conjunct1] arrays [THEN ready_section, THEN conjunct2]
  from ready have rcps: "\<forall>x \<in> set ?rcps. has_keys [''slug''] x \<and> is_str_field x ''label''"
    and ings: "\<forall>x \<in> set ?ings. has_keys [''slug''] x \<and> is_str_field x ''label''"
    and als: "\<forall>x \<in> set ?als. has_keys [''ingredient_slug''] x"
    and ents: "\<forall>x \<in> set ?ents. has_keys [''recipe_slug'', ''ingredient_slug''] x"
    by (simp_all add: validator_ready_def list_all_iff)
  have k1: "collect_key ''slug'' ?rcps = Inr (slugs_of ''slug'' ?rcps)"
    using rcps by (intro collect_key_slugs) auto
  have k2: "collect_key ''slug'' ?ings = Inr (slugs_of ''slug'' ?ings)"
    using ings by (intro collect_key_slugs) auto
  have k3: "collect_key ''ingredient_slug'' ?als = Inr (slugs_of ''ingredient_slug'' ?als)"
    using als by (intro collect_key_slugs) auto
  have k4: "entry_refs ?ents =
      Inr (zip (slugs_of ''recipe_slug'' ?ents) (slugs_of ''ingredient_slug'' ?ents))"
    using ents by (rule entry_refs_slugs)
  obtain short_r where s1: "short_labels 3 ''recipe'' ?rcps = Inr short_r"
    using short_labels_total [OF rcps] by blast
  obtain short_i where s2: "short_labels 2 ''ingredient'' ?ings = Inr short_i"
    using short_labels_total [OF ings] by blast
  obtain untagged where s3: "non_ascii_without_lang ?ings = Inr untagged"
    using non_ascii_total [OF ings] by blast
  let ?rs = "slugs_of ''slug'' ?rcps"
  let ?is = "slugs_of ''slug'' ?ings"
  let ?ar = "slugs_of ''ingredient_slug'' ?als"
  let ?er = "slugs_of ''recipe_slug'' ?ents"
  let ?ei = "slugs_of ''ingredient_slug'' ?ents"
  define S where "S = validate_json_schema data sch"
  define A where "A = (if dupes ?rs \<noteq> [] then [DuplicateRecipeSlugs (dupes ?rs)] else [])"
  define B where "B = (if dupes ?is \<noteq> [] then [DuplicateIngredientSlugs (dupes ?is)] else [])"
  define C where "C = (if filter (\<lambda>s. s \<notin> set ?is) ?ar \<noteq> []
                       then [BadAliasRefs (set (filter (\<lambda>s. s \<notin> set ?is) ?ar))] else [])"
  define D where "D = (if filter (\<lambda>s. s \<notin> set ?rs) ?er \<noteq> []
                       then [BadEntryRecipeRefs (set (filter (\<lambda>s. s \<notin> set ?rs) ?er))] else [])"
  define F where "F = (if filter (\<lambda>s. s \<notin> set ?is) ?ei \<noteq> []
                       then [BadEntryIngredientRefs (set (filter (\<lambda>s. s \<notin> set ?is) ?ei))]
                       else [])"
  define n where
    "n = length (filter (\<lambda>e. dict_get e ''amount_raw'' \<in> {PNone, PStr [], PStr ''?''}) ?ents)"
  define W where "W = (if n > 0 then [EmptyAmounts n] else [])
                       @ (if short_r @ short_i \<noteq> [] then [ShortLabels (short_r @ short_i)] else [])"
  define G where "G = (if untagged \<noteq> [] then [LanguageTags untagged] else [])"
  define res where
    "res = \<lparr>ok = (S @ A @ B @ C @ D @ F = []), errors = S @ A @ B @ C @ D @ F,
            warnings = W, suggestions = G\<rparr>"
  have res: "validate_diff sch data = Inr res"
    unfolding res_def S_def A_def B_def C_def D_def F_def W_def G_def n_def
    by (simp add: validate_diff_def sections k1 k2 k3 k4 s1 s2 s3 Let_def)
  have p1: "ok res = (errors res = [])"
    by (simp add: res_def)
  have a: "A = [] \<longleftrightarrow> distinct ?rs" by (simp add: A_def dupes_Nil)
  have b: "B = [] \<longleftrightarrow> distinct ?is" by (simp add: B_def dupes_Nil)
  have c: "C = [] \<longleftrightarrow> set ?ar \<subseteq> set ?is" by (auto simp: C_def filter_empty_conv)
  have d: "D = [] \<longleftrightarrow> set ?er \<subseteq> set ?rs" by (auto simp: D_def filter_empty_conv)
  have f: "F = [] \<longleftrightarrow> set ?ei \<subseteq> set ?is" by (auto simp: F_def filter_empty_conv)
  have p2: "ok res \<longleftrightarrow> S = [] \<and> distinct ?rs \<and> distinct ?is
      \<and> set ?ar \<subseteq> set ?is \<and> set ?er \<subseteq> set ?rs \<and> set ?ei \<subseteq> set ?is"
    using a b c d f by (simp add: res_def)
  have "list_all (\<lambda>f. kind_of f \<noteq> Quality) S"
    using schema_errors_structural [of _ data sch] by (auto simp: list_all_iff S_def)
  moreover have "list_all (\<lambda>f. kind_of f \<noteq> Quality) (A @ B @ C @ D @ F)"
    by (simp add: A_def B_def C_def D_def F_def)
  ultimately have p3: "list_all (\<lambda>f. kind_of f \<noteq> Quality) (errors res)"
    by (simp add: res_def)
  have p4: "list_all (\<lambda>f. kind_of f = Quality) (warnings res @ suggestions res)"
    by (simp add: res_def W_def G_def)
  from res p1 p2 p3 p4 show ?thesis unfolding S_def by blast
qed

text \<open>
  A diff whose only findings are of quality validates: the verdict is \<^verbatim>\<open>True\<close>, with two
  warnings and one suggestion.
\<close>

lemma hasty_sections:
  "hasty_diff ''recipes'' = Some (Arr [[''slug'' \<mapsto> PStr ''ky'', ''label'' \<mapsto> PStr ''Ky'']])"
  "hasty_diff ''ingredients'' =
     Some (Arr [[''slug'' \<mapsto> PStr ''meli'', ''label'' \<mapsto> PStr [CHR 0xB5, CHR ''e'']]])"
  "hasty_diff ''aliases'' = Some (Arr [])"
  "hasty_diff ''entries'' =
     Some (Arr [[''recipe_slug'' \<mapsto> PStr ''ky'', ''ingredient_slug'' \<mapsto> PStr ''meli'',
                 ''amount_raw'' \<mapsto> PStr ''?'']])"
  by (simp_all add: hasty_diff_def)

lemma hasty_schema_errors: "validate_json_schema hasty_diff slug_label_schema = []"
  by (simp add: validate_json_schema_def section_errors_def hasty_sections
      slug_label_schema_def enumerate_eq_zip)

lemma hasty_validates:
  "validate_diff slug_label_schema hasty_diff =
     Inr \<lparr>ok = True, errors = [],
          warnings = [EmptyAmounts 1, ShortLabels [(''recipe'', PStr ''ky'')]],
          suggestions = [LanguageTags [PStr ''meli'']]\<rparr>"
  by (simp add: validate_diff_def hasty_sections hasty_schema_errors has_len_def rows_of_def
      py_len_def str_chars_def dict_get_def dict_get_or_def dupes_def Let_def)

end
